theory Spec2Isabelle
  imports Complex_Main "HOL-Library.Word" "HOL-Library.AList"
begin

section \<open>Diva controller: keyboard backends and the touch controller\<close>

text \<open>
  A shallow embedding of the keyboard backends (the uinput virtual device and the
  xdotool fallback), of the backend selection and of the touch controller.

  Everything outside the code of the repository is one explicit value of type
  \<open>world\<close>: the wall clock, the outcome of each system call the code makes (scripts
  of outcomes, consumed call by call), the environment, the library function
  \<open>strings.ToLower\<close>, and the logs of what the process did (records written to a file
  descriptor, ioctl requests, subprocesses run, lines printed). Each operation takes
  the world and returns the new one.
  Go's \<open>error\<close> results are \<open>error option\<close>, \<open>None\<close> being \<open>nil\<close>.
\<close>

subsection \<open>Errors\<close>

text \<open>
  The source builds its errors with \<open>fmt.Errorf\<close> or passes on the error of a system
  call; one constructor stands for each place an error is made.
\<close>

datatype error =
    OpenFailed                \<comment> \<open>failed to open /dev/uinput\<close>
  | SetEvbitFailed            \<comment> \<open>failed to set EV\_KEY\<close>
  | SetKeybitFailed "16 word" \<comment> \<open>failed to set key (code)\<close>
  | WriteDevInfoFailed        \<comment> \<open>failed to write device info\<close>
  | CreateDeviceFailed        \<comment> \<open>failed to create device\<close>
  | UnknownKey string         \<comment> \<open>unknown key: (name)\<close>
  | Errno                     \<comment> \<open>the error of syscall.Write or syscall.Close\<close>
  | ExecError                 \<comment> \<open>the error of cmd.Run\<close>
  | ToolNotFound              \<comment> \<open>xdotool not found\<close>
  | NoBackendAvailable        \<comment> \<open>no keyboard backend available\<close>

subsection \<open>The key code table\<close>

definition linuxKeyCodes_table :: "(string \<times> 16 word) list" where
  "linuxKeyCodes_table =
    [(''W'', 17), (''A'', 30), (''S'', 31), (''D'', 32),
     (''w'', 17), (''a'', 30), (''s'', 31), (''d'', 32),
     (''UP'', 103), (''DOWN'', 108), (''LEFT'', 105), (''RIGHT'', 106),
     (''up'', 103), (''down'', 108), (''left'', 105), (''right'', 106),
     (''SPACE'', 57), (''space'', 57),
     (''ENTER'', 28), (''enter'', 28),
     (''Q'', 16), (''E'', 18), (''R'', 19), (''F'', 33),
     (''q'', 16), (''e'', 18), (''r'', 19), (''f'', 33),
     (''1'', 2), (''2'', 3), (''3'', 4), (''4'', 5),
     (''5'', 6), (''6'', 7), (''7'', 8), (''8'', 9), (''9'', 10), (''0'', 11),
     (''I'', 23), (''J'', 36), (''K'', 37), (''L'', 38),
     (''i'', 23), (''j'', 36), (''k'', 37), (''l'', 38),
     (''U'', 22), (''O'', 24), (''P'', 25),
     (''u'', 22), (''o'', 24), (''p'', 25)]"

definition linuxKeyCodes :: "string \<Rightarrow> 16 word option" where
  "linuxKeyCodes = map_of linuxKeyCodes_table"

definition UINPUT_MAX_NAME_SIZE :: nat where "UINPUT_MAX_NAME_SIZE = 80"
definition UI_DEV_CREATE :: nat where "UI_DEV_CREATE = 0x5501"
definition UI_DEV_DESTROY :: nat where "UI_DEV_DESTROY = 0x5502"
definition UI_SET_EVBIT :: nat where "UI_SET_EVBIT = 0x40045564"
definition UI_SET_KEYBIT :: nat where "UI_SET_KEYBIT = 0x40045565"
definition EV_KEY :: "16 word" where "EV_KEY = 0x01"
definition EV_SYN :: "16 word" where "EV_SYN = 0x00"
definition SYN_REPORT :: "16 word" where "SYN_REPORT = 0x00"

subsection \<open>Input events and their binary image\<close>

record timeval =
  Sec :: "64 word"
  Usec :: "64 word"

record inputEvent =
  Time :: timeval
  Type :: "16 word"
  Code :: "16 word"
  Value :: "32 word"

type_synonym byte = "8 word"

text \<open>
  The source writes the memory of the struct itself
  (\<open>(*[unsafe.Sizeof(ev)]byte)(unsafe.Pointer(&ev))[:]\<close>). On linux/amd64 that is
  24 bytes with no padding, every field little-endian: seconds (8), microseconds (8),
  type (2), code (2), value (4).
\<close>

fun le_bytes :: "nat \<Rightarrow> nat \<Rightarrow> byte list" where
  "le_bytes 0 v = []"
| "le_bytes (Suc n) v = of_nat (v mod 256) # le_bytes n (v div 256)"

definition encode_inputEvent :: "inputEvent \<Rightarrow> byte list" where
  "encode_inputEvent ev =
     le_bytes 8 (unat (Sec (Time ev))) @ le_bytes 8 (unat (Usec (Time ev))) @
     le_bytes 2 (unat (Type ev)) @ le_bytes 2 (unat (Code ev)) @
     le_bytes 4 (unat (Value ev))"

text \<open>The reading side (the kernel's view of a record): the inverse of the layout.\<close>

fun from_le :: "byte list \<Rightarrow> nat" where
  "from_le [] = 0"
| "from_le (b # bs) = unat b + 256 * from_le bs"

definition decode_inputEvent :: "byte list \<Rightarrow> inputEvent" where
  "decode_inputEvent bs =
     \<lparr>Time = \<lparr>Sec = of_nat (from_le (take 8 bs)),
               Usec = of_nat (from_le (take 8 (drop 8 bs)))\<rparr>,
      Type = of_nat (from_le (take 2 (drop 16 bs))),
      Code = of_nat (from_le (take 2 (drop 18 bs))),
      Value = of_nat (from_le (take 4 (drop 20 bs)))\<rparr>"

subsection \<open>The world outside the process\<close>

text \<open>
  What the process prints: \<open>fmt.Println\<close> of a fixed line, and the formatted lines
  of the controller's verbose mode, kept as the format's arguments.
\<close>

datatype printed =
    Line string
  | TouchPressLine string string     \<comment> \<open>[Touch] Zone: (zone) -> Key: (key) (press)\<close>
  | TouchReleaseLine string string   \<comment> \<open>[Touch] Zone: (zone) -> Key: (key) (release)\<close>
  | SlideRightLine real              \<comment> \<open>[Slide] Right (vx: ...)\<close>
  | SlideLeftLine real               \<comment> \<open>[Slide] Left (vx: ...)\<close>

text \<open>What the process does to a file descriptor: a write delivered, a request, a close.\<close>

datatype effect =
    Wrote int "byte list"
  | Ioctl int nat nat
  | Closed int

text \<open>
  The scripts \<open>ioctl_fail\<close>, \<open>write_fail\<close>, \<open>close_fail\<close> and \<open>run_fail\<close> give
  the outcome of the coming calls, one entry a call (\<open>True\<close>: the call fails); a call
  past the end of its script succeeds. \<open>clock\<close> gives the coming readings of the
  wall clock. \<open>ioctls\<close> and \<open>commands\<close> log every request made, \<open>written\<close> what a
  successful write delivered, \<open>closed\<close> the descriptors closed; \<open>trace\<close> holds the
  same writes, requests and closes in the one order in which the calls were made.

  \<open>strings_ToLower\<close> is the function \<open>strings.ToLower\<close> of Go's library. It is not
  code of this repository (it lowercases by the Unicode tables of the Go release and
  rewrites invalid UTF-8), so the model takes it from the world, as it takes the
  system calls: the program calls whatever the library provides.
\<close>

record world =
  clock :: "timeval list"
  open_uinput :: "int option"
  ioctl_fail :: "bool list"
  write_fail :: "bool list"
  close_fail :: "bool list"
  path_binaries :: "string list"
  run_fail :: "bool list"
  environ :: "(string \<times> string) list"
  ioctls :: "(int \<times> nat \<times> nat) list"
  written :: "(int \<times> byte list) list"
  closed :: "int list"
  commands :: "string list list"
  stdout :: "printed list"
  trace :: "effect list"
  strings_ToLower :: "string \<Rightarrow> string"

text \<open>
  \<open>Gettimeofday\<close> fills in the time; the source ignores its error, so a reading that
  fails (here: the script has run out) leaves the zero value of the variable.
\<close>

definition Gettimeofday :: "world \<Rightarrow> timeval \<times> world" where
  "Gettimeofday w =
     (case clock w of
        [] \<Rightarrow> (\<lparr>Sec = 0, Usec = 0\<rparr>, w)
      | t # ts \<Rightarrow> (t, w\<lparr>clock := ts\<rparr>))"

definition syscall_Open :: "world \<Rightarrow> error + int" where
  "syscall_Open w = (case open_uinput w of None \<Rightarrow> Inl Errno | Some f \<Rightarrow> Inr f)"

text \<open>\<open>syscall_Ioctl\<close> returns whether errno is non-zero.\<close>

definition syscall_Ioctl :: "int \<Rightarrow> nat \<Rightarrow> nat \<Rightarrow> world \<Rightarrow> bool \<times> world" where
  "syscall_Ioctl f req arg w =
     (let w1 = w\<lparr>ioctls := ioctls w @ [(f, req, arg)], trace := trace w @ [Ioctl f req arg]\<rparr> in
      case ioctl_fail w of
        [] \<Rightarrow> (False, w1)
      | b # rest \<Rightarrow> (b, w1\<lparr>ioctl_fail := rest\<rparr>))"

text \<open>A write that succeeds delivers all its bytes; one that fails delivers none.\<close>

definition syscall_Write :: "int \<Rightarrow> byte list \<Rightarrow> world \<Rightarrow> error option \<times> world" where
  "syscall_Write f bs w =
     (case write_fail w of
        [] \<Rightarrow> (None, w\<lparr>written := written w @ [(f, bs)], trace := trace w @ [Wrote f bs]\<rparr>)
      | b # rest \<Rightarrow>
          if b then (Some Errno, w\<lparr>write_fail := rest\<rparr>)
          else (None, w\<lparr>write_fail := rest, written := written w @ [(f, bs)],
                        trace := trace w @ [Wrote f bs]\<rparr>))"

definition syscall_Close :: "int \<Rightarrow> world \<Rightarrow> error option \<times> world" where
  "syscall_Close f w =
     (let w1 = w\<lparr>closed := closed w @ [f], trace := trace w @ [Closed f]\<rparr> in
      case close_fail w of
        [] \<Rightarrow> (None, w1)
      | b # rest \<Rightarrow> (if b then Some Errno else None, w1\<lparr>close_fail := rest\<rparr>))"

definition exec_LookPath :: "string \<Rightarrow> world \<Rightarrow> bool" where
  "exec_LookPath name w = (name \<in> set (path_binaries w))"

definition exec_Run :: "string list \<Rightarrow> world \<Rightarrow> error option \<times> world" where
  "exec_Run argv w =
     (let w1 = w\<lparr>commands := commands w @ [argv]\<rparr> in
      case run_fail w of
        [] \<Rightarrow> (None, w1)
      | b # rest \<Rightarrow> (if b then Some ExecError else None, w1\<lparr>run_fail := rest\<rparr>))"

definition os_Getenv :: "string \<Rightarrow> world \<Rightarrow> string" where
  "os_Getenv name w = (case map_of (environ w) name of None \<Rightarrow> [] | Some v \<Rightarrow> v)"

definition Println :: "string \<Rightarrow> world \<Rightarrow> world" where
  "Println s w = w\<lparr>stdout := stdout w @ [Line s]\<rparr>"

definition Printf :: "printed \<Rightarrow> world \<Rightarrow> world" where
  "Printf l w = w\<lparr>stdout := stdout w @ [l]\<rparr>"

subsection \<open>Go maps with boolean values\<close>

text \<open>
  \<open>map[string]bool\<close> is an association list with distinct keys: \<open>range\<close> visits the
  keys in an order the language leaves open, which is the order of the list. Reading a
  key that is absent gives \<open>false\<close>; an assignment keeps the key's place.
\<close>

type_synonym boolmap = "(string \<times> bool) list"

definition get :: "boolmap \<Rightarrow> string \<Rightarrow> bool" where
  "get m key = (case map_of m key of None \<Rightarrow> False | Some b \<Rightarrow> b)"

definition put :: "boolmap \<Rightarrow> string \<Rightarrow> bool \<Rightarrow> boolmap" where
  "put m key b = AList.update key b m"

subsection \<open>The uinput backend\<close>

record UInputBackend =
  fd :: int
  keyState :: boolmap

definition uidev_bytes :: "byte list" where
  "uidev_bytes =
     (map of_char ''DivaController'' @ replicate (UINPUT_MAX_NAME_SIZE - 14) 0) @
     (le_bytes 2 0x03 @ le_bytes 2 0x1234 @ le_bytes 2 0x5678 @ le_bytes 2 1) @
     le_bytes 4 0 @
     replicate (64 * 4) 0 @ replicate (64 * 4) 0 @ replicate (64 * 4) 0 @ replicate (64 * 4) 0"

fun register_keys :: "int \<Rightarrow> 16 word list \<Rightarrow> world \<Rightarrow> error option \<times> world" where
  "register_keys f [] w = (None, w)"
| "register_keys f (code # codes) w =
     (case syscall_Ioctl f UI_SET_KEYBIT (unat code) w of
        (True, w1) \<Rightarrow> (Some (SetKeybitFailed code), w1)
      | (False, w1) \<Rightarrow> register_keys f codes w1)"

definition NewUInputBackend :: "world \<Rightarrow> (error + UInputBackend) \<times> world" where
  "NewUInputBackend w =
     (case syscall_Open w of
        Inl err \<Rightarrow> (Inl OpenFailed, w)
      | Inr f \<Rightarrow>
         (case syscall_Ioctl f UI_SET_EVBIT (unat EV_KEY) w of
            (True, w1) \<Rightarrow> (Inl SetEvbitFailed, snd (syscall_Close f w1))
          | (False, w1) \<Rightarrow>
             (case register_keys f (map snd linuxKeyCodes_table) w1 of
                (Some err, w2) \<Rightarrow> (Inl err, snd (syscall_Close f w2))
              | (None, w2) \<Rightarrow>
                 (case syscall_Write f uidev_bytes w2 of
                    (Some err, w3) \<Rightarrow> (Inl WriteDevInfoFailed, snd (syscall_Close f w3))
                  | (None, w3) \<Rightarrow>
                     (case syscall_Ioctl f UI_DEV_CREATE 0 w3 of
                        (True, w4) \<Rightarrow> (Inl CreateDeviceFailed, snd (syscall_Close f w4))
                      | (False, w4) \<Rightarrow> (Inr \<lparr>fd = f, keyState = []\<rparr>, w4))))))"

definition sendEvent ::
  "UInputBackend \<Rightarrow> 16 word \<Rightarrow> 16 word \<Rightarrow> 32 word \<Rightarrow> world \<Rightarrow> error option \<times> world" where
  "sendEvent u typ code val w =
     (let (tv, w1) = Gettimeofday w;
          ev = \<lparr>Time = tv, Type = typ, Code = code, Value = val\<rparr>
      in syscall_Write (fd u) (encode_inputEvent ev) w1)"

definition sync :: "UInputBackend \<Rightarrow> world \<Rightarrow> error option \<times> world" where
  "sync u w = sendEvent u EV_SYN SYN_REPORT 0 w"

definition UInputBackend_Press ::
  "UInputBackend \<Rightarrow> string \<Rightarrow> world \<Rightarrow> error option \<times> UInputBackend \<times> world" where
  "UInputBackend_Press u key w =
     (if get (keyState u) key then (None, u, w)
      else case linuxKeyCodes key of
        None \<Rightarrow> (Some (UnknownKey key), u, w)
      | Some code \<Rightarrow>
         (case sendEvent u EV_KEY code 1 w of
            (Some err, w1) \<Rightarrow> (Some err, u, w1)
          | (None, w1) \<Rightarrow>
             (case sync u w1 of
                (Some err, w2) \<Rightarrow> (Some err, u, w2)
              | (None, w2) \<Rightarrow> (None, u\<lparr>keyState := put (keyState u) key True\<rparr>, w2))))"

definition UInputBackend_Release ::
  "UInputBackend \<Rightarrow> string \<Rightarrow> world \<Rightarrow> error option \<times> UInputBackend \<times> world" where
  "UInputBackend_Release u key w =
     (if \<not> get (keyState u) key then (None, u, w)
      else case linuxKeyCodes key of
        None \<Rightarrow> (Some (UnknownKey key), u, w)
      | Some code \<Rightarrow>
         (case sendEvent u EV_KEY code 0 w of
            (Some err, w1) \<Rightarrow> (Some err, u, w1)
          | (None, w1) \<Rightarrow>
             (case sync u w1 of
                (Some err, w2) \<Rightarrow> (Some err, u, w2)
              | (None, w2) \<Rightarrow> (None, u\<lparr>keyState := put (keyState u) key False\<rparr>, w2))))"

text \<open>The loop of \<open>Close\<close> over the keys of the map; the result of each release is dropped.\<close>

fun UInputBackend_releaseAll ::
  "UInputBackend \<Rightarrow> string list \<Rightarrow> world \<Rightarrow> UInputBackend \<times> world" where
  "UInputBackend_releaseAll u [] w = (u, w)"
| "UInputBackend_releaseAll u (key # keys) w =
     (case UInputBackend_Release u key w of
        (err, u1, w1) \<Rightarrow> UInputBackend_releaseAll u1 keys w1)"

definition UInputBackend_Close ::
  "UInputBackend \<Rightarrow> world \<Rightarrow> error option \<times> UInputBackend \<times> world" where
  "UInputBackend_Close u w =
     (let (u1, w1) = UInputBackend_releaseAll u (map fst (keyState u)) w;
          (errno, w2) = syscall_Ioctl (fd u1) UI_DEV_DESTROY 0 w1;
          (err, w3) = syscall_Close (fd u1) w2
      in (err, u1, w3))"

subsection \<open>The xdotool backend\<close>

record X11Backend =
  x_keyState :: boolmap

definition NewX11Backend :: "world \<Rightarrow> error + X11Backend" where
  "NewX11Backend w =
     (if \<not> exec_LookPath ''xdotool'' w then Inl ToolNotFound
      else Inr \<lparr>x_keyState = []\<rparr>)"

definition X11Backend_Press ::
  "X11Backend \<Rightarrow> string \<Rightarrow> world \<Rightarrow> error option \<times> X11Backend \<times> world" where
  "X11Backend_Press x key w =
     (if get (x_keyState x) key then (None, x, w)
      else case exec_Run [''xdotool'', ''keydown'', strings_ToLower w key] w of
        (Some err, w1) \<Rightarrow> (Some err, x, w1)
      | (None, w1) \<Rightarrow> (None, x\<lparr>x_keyState := put (x_keyState x) key True\<rparr>, w1))"

definition X11Backend_Release ::
  "X11Backend \<Rightarrow> string \<Rightarrow> world \<Rightarrow> error option \<times> X11Backend \<times> world" where
  "X11Backend_Release x key w =
     (if \<not> get (x_keyState x) key then (None, x, w)
      else case exec_Run [''xdotool'', ''keyup'', strings_ToLower w key] w of
        (Some err, w1) \<Rightarrow> (Some err, x, w1)
      | (None, w1) \<Rightarrow> (None, x\<lparr>x_keyState := put (x_keyState x) key False\<rparr>, w1))"

fun X11Backend_releaseAll :: "X11Backend \<Rightarrow> string list \<Rightarrow> world \<Rightarrow> X11Backend \<times> world" where
  "X11Backend_releaseAll x [] w = (x, w)"
| "X11Backend_releaseAll x (key # keys) w =
     (case X11Backend_Release x key w of
        (err, x1, w1) \<Rightarrow> X11Backend_releaseAll x1 keys w1)"

definition X11Backend_Close ::
  "X11Backend \<Rightarrow> world \<Rightarrow> error option \<times> X11Backend \<times> world" where
  "X11Backend_Close x w =
     (let (x1, w1) = X11Backend_releaseAll x (map fst (x_keyState x)) w in (None, x1, w1))"

subsection \<open>The interface and the selection of a backend\<close>

datatype KeyboardBackend = UInput UInputBackend | X11 X11Backend

fun Press :: "KeyboardBackend \<Rightarrow> string \<Rightarrow> world \<Rightarrow> error option \<times> KeyboardBackend \<times> world" where
  "Press (UInput u) key w =
     (case UInputBackend_Press u key w of (err, u1, w1) \<Rightarrow> (err, UInput u1, w1))"
| "Press (X11 x) key w =
     (case X11Backend_Press x key w of (err, x1, w1) \<Rightarrow> (err, X11 x1, w1))"

fun Release :: "KeyboardBackend \<Rightarrow> string \<Rightarrow> world \<Rightarrow> error option \<times> KeyboardBackend \<times> world" where
  "Release (UInput u) key w =
     (case UInputBackend_Release u key w of (err, u1, w1) \<Rightarrow> (err, UInput u1, w1))"
| "Release (X11 x) key w =
     (case X11Backend_Release x key w of (err, x1, w1) \<Rightarrow> (err, X11 x1, w1))"

fun Close :: "KeyboardBackend \<Rightarrow> world \<Rightarrow> error option \<times> KeyboardBackend \<times> world" where
  "Close (UInput u) w =
     (case UInputBackend_Close u w of (err, u1, w1) \<Rightarrow> (err, UInput u1, w1))"
| "Close (X11 x) w =
     (case X11Backend_Close x w of (err, x1, w1) \<Rightarrow> (err, X11 x1, w1))"

definition NewKeyboardBackend :: "world \<Rightarrow> (error + KeyboardBackend) \<times> world" where
  "NewKeyboardBackend w =
     (case NewUInputBackend w of
        (Inr backend, w1) \<Rightarrow>
          (Inr (UInput backend),
           Println ''[Keyboard] Using uinput backend (works on X11 and Wayland)'' w1)
      | (Inl err, w1) \<Rightarrow>
          if os_Getenv ''DISPLAY'' w1 \<noteq> [] then
            (case NewX11Backend w1 of
               Inr backend \<Rightarrow> (Inr (X11 backend), Println ''[Keyboard] Using X11/xdotool backend'' w1)
             | Inl err' \<Rightarrow> (Inl NoBackendAvailable, w1))
          else (Inl NoBackendAvailable, w1))"

subsection \<open>The touch controller\<close>

record Config =
  Port :: int
  TriangleKey :: string
  SquareKey :: string
  CrossKey :: string
  CircleKey :: string
  LeftArrowKey :: string
  RightArrowKey :: string
  UpArrowKey :: string
  DownArrowKey :: string
  SliderLeftKey :: string
  SliderRightKey :: string
  Verbose :: bool

text \<open>
  A touch event as the JSON decoder delivers it. A JSON number is finite, so the
  velocity is a real number and the comparisons of the source are those of the reals.
  (The fields carry the prefix \<open>touch\<close>: \<open>Type\<close> is a field of \<open>inputEvent\<close> too.)
\<close>

record TouchEvent =
  touch_Type :: string
  touch_ID :: int
  touch_X :: real
  touch_Y :: real
  touch_Zone :: string
  touch_VX :: real

record Controller =
  keyboard :: KeyboardBackend
  config :: Config
  activeKeys :: boolmap
  sliderState_left :: bool
  sliderState_right :: bool

definition NewController :: "KeyboardBackend \<Rightarrow> Config \<Rightarrow> Controller" where
  "NewController kb cfg =
     \<lparr>keyboard = kb, config = cfg, activeKeys = [],
      sliderState_left = False, sliderState_right = False\<rparr>"

definition getKeyForZone :: "Controller \<Rightarrow> string \<Rightarrow> bool \<Rightarrow> string" where
  "getKeyForZone c z isSecond =
     (if z = ''triangle'' then
        (if isSecond then UpArrowKey (config c) else TriangleKey (config c))
      else if z = ''square'' then
        (if isSecond then LeftArrowKey (config c) else SquareKey (config c))
      else if z = ''cross'' then
        (if isSecond then DownArrowKey (config c) else CrossKey (config c))
      else if z = ''circle'' then
        (if isSecond then RightArrowKey (config c) else CircleKey (config c))
      else [])"

text \<open>\<open>fmt.Sprintf("%d", id)\<close>: the decimal numeral of an integer.\<close>

fun digits :: "nat \<Rightarrow> string" where
  "digits n =
     (if n < 10 then [char_of (48 + n)]
      else digits (n div 10) @ [char_of (48 + n mod 10)])"

declare digits.simps [simp del]

definition Sprintf_d :: "int \<Rightarrow> string" where
  "Sprintf_d i = (if i < 0 then CHR ''-'' # digits (nat (- i)) else digits (nat i))"

text \<open>
  The goroutines \<open>HandleTouch\<close> starts: each sleeps 100 ms, takes the lock, releases
  the slider key of its direction and clears the flag. \<open>HandleTouch\<close> returns the
  goroutines it has started; \<open>autoRelease\<close> is what one does once it holds the lock.
\<close>

datatype goroutine = AutoReleaseRight | AutoReleaseLeft

definition threshold :: real where
  "threshold = 0.5"

definition HandleTouch ::
  "Controller \<Rightarrow> TouchEvent \<Rightarrow> world \<Rightarrow> Controller \<times> world \<times> goroutine list" where
  "HandleTouch c event w =
     (if touch_Type event = ''start'' then
        (let key = getKeyForZone c (touch_Zone event) False in
         if key \<noteq> [] then
           (let w1 = (if Verbose (config c)
                      then Printf (TouchPressLine (touch_Zone event) key) w else w);
                (err, kb, w2) = Press (keyboard c) key w1
            in (c\<lparr>keyboard := kb,
                  activeKeys := put (activeKeys c) (Sprintf_d (touch_ID event)) True\<rparr>,
                w2, []))
         else (c, w, []))
      else if touch_Type event = ''end'' then
        (let key = getKeyForZone c (touch_Zone event) False in
         if key \<noteq> [] then
           (let w1 = (if Verbose (config c)
                      then Printf (TouchReleaseLine (touch_Zone event) key) w else w);
                (err, kb, w2) = Release (keyboard c) key w1
            in (c\<lparr>keyboard := kb,
                  activeKeys := AList.delete (Sprintf_d (touch_ID event)) (activeKeys c)\<rparr>,
                w2, []))
         else (c, w, []))
      else if touch_Type event = ''slide'' then
        (if touch_VX event > threshold then
           (if \<not> sliderState_right c then
              (let w1 = (if Verbose (config c)
                         then Printf (SlideRightLine (touch_VX event)) w else w);
                   (err, kb, w2) = Press (keyboard c) (SliderRightKey (config c)) w1
               in (c\<lparr>keyboard := kb, sliderState_right := True\<rparr>, w2, [AutoReleaseRight]))
            else (c, w, []))
         else if touch_VX event < - threshold then
           (if \<not> sliderState_left c then
              (let w1 = (if Verbose (config c)
                         then Printf (SlideLeftLine (touch_VX event)) w else w);
                   (err, kb, w2) = Press (keyboard c) (SliderLeftKey (config c)) w1
               in (c\<lparr>keyboard := kb, sliderState_left := True\<rparr>, w2, [AutoReleaseLeft]))
            else (c, w, []))
         else (c, w, []))
      else (c, w, []))"

fun autoRelease :: "goroutine \<Rightarrow> Controller \<Rightarrow> world \<Rightarrow> Controller \<times> world" where
  "autoRelease AutoReleaseRight c w =
     (case Release (keyboard c) (SliderRightKey (config c)) w of
        (err, kb, w1) \<Rightarrow> (c\<lparr>keyboard := kb, sliderState_right := False\<rparr>, w1))"
| "autoRelease AutoReleaseLeft c w =
     (case Release (keyboard c) (SliderLeftKey (config c)) w of
        (err, kb, w1) \<Rightarrow> (c\<lparr>keyboard := kb, sliderState_left := False\<rparr>, w1))"

subsection \<open>The process over time\<close>

text \<open>
  \<open>HandleTouch\<close> runs under the controller's lock and so does the body of every
  goroutine after its sleep, so a run of the process is a sequence of such sections,
  each at a time (in milliseconds): a touch event handled, or a sleeping goroutine
  waking up. \<open>time.Sleep\<close> returns no sooner than after the delay: a goroutine started
  at time \<open>t\<close> takes the lock at some time from \<open>t + 100\<close> on. \<open>sleeping\<close> holds the
  goroutines still asleep, each with the earliest time it can wake. A schedule that
  goes back in time, or wakes a goroutine that does not exist or too early, is no run
  (\<open>None\<close>).
\<close>

definition delay_ms :: nat where
  "delay_ms = 100"

record process =
  now :: nat
  controller :: Controller
  os :: world
  sleeping :: "(nat \<times> goroutine) list"

datatype action = Touch TouchEvent | Wake nat

fun step :: "process \<Rightarrow> nat \<times> action \<Rightarrow> process option" where
  "step p (t, Touch event) =
     (if t < now p then None
      else case HandleTouch (controller p) event (os p) of
        (c1, w1, gs) \<Rightarrow>
          Some (p\<lparr>now := t, controller := c1, os := w1,
                  sleeping := sleeping p @ map (\<lambda>g. (t + delay_ms, g)) gs\<rparr>))"
| "step p (t, Wake i) =
     (if t < now p \<or> i \<ge> length (sleeping p) then None
      else case sleeping p ! i of
        (due, g) \<Rightarrow>
          if t < due then None
          else case autoRelease g (controller p) (os p) of
            (c1, w1) \<Rightarrow>
              Some (p\<lparr>now := t, controller := c1, os := w1,
                      sleeping := take i (sleeping p) @ drop (Suc i) (sleeping p)\<rparr>))"

fun run :: "process \<Rightarrow> (nat \<times> action) list \<Rightarrow> process option" where
  "run p [] = Some p"
| "run p (a # as) = (case step p a of None \<Rightarrow> None | Some p1 \<Rightarrow> run p1 as)"

subsection \<open>Notions the properties are stated with\<close>

text \<open>The keys a map marks pressed, in the order \<open>range\<close> visits them.\<close>

definition pressed_keys :: "boolmap \<Rightarrow> string list" where
  "pressed_keys m = filter (get m) (map fst m)"

text \<open>
  A key event with value \<open>val\<close> among the records written: 24 bytes that read as type
  \<open>EV_KEY\<close> and that value. \<open>release_records\<close> are the key-up records written to a
  descriptor, \<open>keyup_commands\<close> the key-up subprocesses run.
\<close>

definition is_key_record :: "32 word \<Rightarrow> byte list \<Rightarrow> bool" where
  "is_key_record val bs =
     (length bs = 24 \<and> Type (decode_inputEvent bs) = EV_KEY \<and> Value (decode_inputEvent bs) = val)"

definition release_records :: "int \<Rightarrow> (int \<times> byte list) list \<Rightarrow> (int \<times> byte list) list" where
  "release_records f recs = filter (\<lambda>r. fst r = f \<and> is_key_record 0 (snd r)) recs"

definition keyup_commands :: "string list list \<Rightarrow> string list list" where
  "keyup_commands cmds = filter (\<lambda>argv. take 2 argv = [''xdotool'', ''keyup'']) cmds"

text \<open>The invariant of the uinput backend: a key marked pressed is a key of the table.\<close>

definition pressed_known :: "UInputBackend \<Rightarrow> bool" where
  "pressed_known u = list_all (\<lambda>key. linuxKeyCodes key \<noteq> None) (pressed_keys (keyState u))"

text \<open>A Go map has each key once.\<close>

definition distinct_keys :: "boolmap \<Rightarrow> bool" where
  "distinct_keys m = distinct (map fst m)"

definition no_write_failure :: "world \<Rightarrow> bool" where
  "no_write_failure w = list_all (\<lambda>b. \<not> b) (write_fail w)"

text \<open>
  One press of a key followed by one release of it, on a backend; and the line the
  controller prints for a slide in verbose mode, before it presses.
\<close>

definition press_release :: "KeyboardBackend \<Rightarrow> string \<Rightarrow> world \<Rightarrow> KeyboardBackend \<times> world" where
  "press_release kb key w =
     (case Press kb key w of
        (err1, kb1, w1) \<Rightarrow> (case Release kb1 key w1 of (err2, kb2, w2) \<Rightarrow> (kb2, w2)))"

definition verbose_print :: "Controller \<Rightarrow> printed \<Rightarrow> world \<Rightarrow> world" where
  "verbose_print c l w = (if Verbose (config c) then Printf l w else w)"

text \<open>
  The two sides of the slider, each named by its goroutine: the flag of a side, the
  key bound to it, the line of the verbose mode, and the events that slide to it (a
  slide whose velocity is beyond the threshold on that side).
\<close>

fun sliderState :: "goroutine \<Rightarrow> Controller \<Rightarrow> bool" where
  "sliderState AutoReleaseRight c = sliderState_right c"
| "sliderState AutoReleaseLeft c = sliderState_left c"

fun set_sliderState :: "goroutine \<Rightarrow> bool \<Rightarrow> Controller \<Rightarrow> Controller" where
  "set_sliderState AutoReleaseRight b c = c\<lparr>sliderState_right := b\<rparr>"
| "set_sliderState AutoReleaseLeft b c = c\<lparr>sliderState_left := b\<rparr>"

fun SliderKey :: "goroutine \<Rightarrow> Config \<Rightarrow> string" where
  "SliderKey AutoReleaseRight cfg = SliderRightKey cfg"
| "SliderKey AutoReleaseLeft cfg = SliderLeftKey cfg"

fun SlideLine :: "goroutine \<Rightarrow> real \<Rightarrow> printed" where
  "SlideLine AutoReleaseRight v = SlideRightLine v"
| "SlideLine AutoReleaseLeft v = SlideLeftLine v"

fun slides :: "goroutine \<Rightarrow> TouchEvent \<Rightarrow> bool" where
  "slides AutoReleaseRight e = (touch_Type e = ''slide'' \<and> touch_VX e > threshold)"
| "slides AutoReleaseLeft e = (touch_Type e = ''slide'' \<and> touch_VX e < - threshold)"

text \<open>
  The process after one slide to a side has been handled and its auto-release has run
  at time \<open>t\<close>: the backend and the world are those of one press of the slider key
  (after the line of the verbose mode) followed by one release of it, the flag of the
  side is clear, and no goroutine has been added to the sleeping ones.
\<close>

definition after_slide :: "goroutine \<Rightarrow> TouchEvent \<Rightarrow> nat \<Rightarrow> process \<Rightarrow> process" where
  "after_slide g e t p =
     (case press_release (keyboard (controller p)) (SliderKey g (config (controller p)))
             (verbose_print (controller p) (SlideLine g (touch_VX e)) (os p)) of
        (kb, w) \<Rightarrow>
          p\<lparr>now := t, controller := set_sliderState g False ((controller p)\<lparr>keyboard := kb\<rparr>),
            os := w\<rparr>)"

text \<open>
  What becomes of one release of a pressed key of the table: its key-event write
  fails; that write succeeds and the synchronisation write fails; both succeed.
  \<open>outcomes n fs\<close> gives what becomes of \<open>n\<close> such releases in a row under the script
  \<open>fs\<close> of write failures: a release takes one entry of the script when its first write
  fails and two otherwise.
\<close>

datatype outcome = KeyWriteFailed | SyncWriteFailed | Released

definition next_fails :: "bool list \<Rightarrow> bool" where
  "next_fails fs = (case fs of [] \<Rightarrow> False | b # rest \<Rightarrow> b)"

fun outcomes :: "nat \<Rightarrow> bool list \<Rightarrow> outcome list" where
  "outcomes 0 fs = []"
| "outcomes (Suc n) fs =
     (if next_fails fs then KeyWriteFailed # outcomes n (tl fs)
      else if next_fails (tl fs) then SyncWriteFailed # outcomes n (tl (tl fs))
      else Released # outcomes n (tl (tl fs)))"

text \<open>The records written between a world and a later one.\<close>

definition new_records :: "world \<Rightarrow> world \<Rightarrow> (int \<times> byte list) list" where
  "new_records w w' = drop (length (written w)) (written w')"

text \<open>
  What \<open>strings.ToLower\<close> does to a name of ASCII characters only: the letters A to Z
  become a to z and every other character stays. \<open>lowers_ascii\<close> says of a function
  that it does so on every ASCII name, as the library's function does.
\<close>

definition ascii_lower_char :: "char \<Rightarrow> char" where
  "ascii_lower_char c =
     (let n = (of_char c :: nat) in if 65 \<le> n \<and> n \<le> 90 then char_of (n + 32) else c)"

definition ascii_ToLower :: "string \<Rightarrow> string" where
  "ascii_ToLower s = map ascii_lower_char s"

definition is_ascii :: "string \<Rightarrow> bool" where
  "is_ascii s = list_all (\<lambda>c. (of_char c :: nat) < 128) s"

definition lowers_ascii :: "(string \<Rightarrow> string) \<Rightarrow> bool" where
  "lowers_ascii f = (\<forall>s. is_ascii s \<longrightarrow> f s = ascii_ToLower s)"

subsection \<open>Concrete states\<close>

text \<open>
  A world in which every call succeeds, with four clock readings left and a library
  that lowercases the letters A to Z (the names used below are ASCII names); a uinput
  backend on descriptor 3 with no key pressed; the configuration of the command line's
  defaults.
\<close>

definition world0 :: world where
  "world0 =
     \<lparr>clock = [\<lparr>Sec = 1, Usec = 2\<rparr>, \<lparr>Sec = 1, Usec = 3\<rparr>, \<lparr>Sec = 2, Usec = 0\<rparr>, \<lparr>Sec = 2, Usec = 5\<rparr>],
      open_uinput = Some 3, ioctl_fail = [], write_fail = [], close_fail = [],
      path_binaries = [''xdotool''], run_fail = [], environ = [(''DISPLAY'', '':0'')],
      ioctls = [], written = [], closed = [], commands = [], stdout = [], trace = [],
      strings_ToLower = ascii_ToLower\<rparr>"

definition uinput0 :: UInputBackend where
  "uinput0 = \<lparr>fd = 3, keyState = []\<rparr>"

definition config0 :: Config where
  "config0 =
     \<lparr>Port = 3939, TriangleKey = ''W'', SquareKey = ''A'', CrossKey = ''S'', CircleKey = ''D'',
      LeftArrowKey = ''J'', RightArrowKey = ''L'', UpArrowKey = ''I'', DownArrowKey = ''K'',
      SliderLeftKey = ''Q'', SliderRightKey = ''E'', Verbose = False\<rparr>"

text \<open>The same backend and world after \<open>W\<close> has been pressed.\<close>

definition uinput1 :: UInputBackend where
  "uinput1 = uinput0\<lparr>keyState := [(''W'', True)]\<rparr>"

definition world1 :: world where
  "world1 = world0
     \<lparr>clock := [\<lparr>Sec = 2, Usec = 0\<rparr>, \<lparr>Sec = 2, Usec = 5\<rparr>],
      written :=
        [(3, encode_inputEvent \<lparr>Time = \<lparr>Sec = 1, Usec = 2\<rparr>, Type = EV_KEY, Code = 17, Value = 1\<rparr>),
         (3, encode_inputEvent \<lparr>Time = \<lparr>Sec = 1, Usec = 3\<rparr>, Type = EV_SYN, Code = SYN_REPORT, Value = 0\<rparr>)],
      trace :=
        [Wrote 3 (encode_inputEvent \<lparr>Time = \<lparr>Sec = 1, Usec = 2\<rparr>, Type = EV_KEY, Code = 17, Value = 1\<rparr>),
         Wrote 3 (encode_inputEvent \<lparr>Time = \<lparr>Sec = 1, Usec = 3\<rparr>, Type = EV_SYN, Code = SYN_REPORT, Value = 0\<rparr>)]\<rparr>"

text \<open>An xdotool backend with no key pressed, and with \<open>W\<close> pressed.\<close>

definition x11_0 :: X11Backend where
  "x11_0 = \<lparr>x_keyState = []\<rparr>"

definition x11_1 :: X11Backend where
  "x11_1 = \<lparr>x_keyState = [(''W'', True)]\<rparr>"

text \<open>The world after \<open>W\<close> has been pressed, in which the next write fails.\<close>

definition world1_write_fails :: world where
  "world1_write_fails = world1\<lparr>write_fail := [True]\<rparr>"

text \<open>
  The uinput backend with \<open>W\<close> and \<open>Q\<close> pressed, and the world after \<open>W\<close> has been
  pressed in which the next write succeeds and the one after it fails.
\<close>

definition uinput2 :: UInputBackend where
  "uinput2 = uinput0\<lparr>keyState := [(''W'', True), (''Q'', True)]\<rparr>"

definition world1_sync_fails :: world where
  "world1_sync_fails = world1\<lparr>write_fail := [False, True]\<rparr>"

text \<open>
  Worlds in which /dev/uinput cannot be opened: with \<open>DISPLAY\<close> set as in \<open>world0\<close>,
  with \<open>DISPLAY\<close> set to the empty string, and with \<open>DISPLAY\<close> not set.
\<close>

definition world_no_uinput :: world where
  "world_no_uinput = world0\<lparr>open_uinput := None\<rparr>"

definition world_display_empty :: world where
  "world_display_empty = world0\<lparr>open_uinput := None, environ := [(''DISPLAY'', [])]\<rparr>"

definition world_no_display :: world where
  "world_no_display = world0\<lparr>open_uinput := None, environ := []\<rparr>"

text \<open>A controller on the uinput backend with the default configuration, nothing pressed.\<close>

definition controller0 :: Controller where
  "controller0 = NewController (UInput uinput0) config0"

text \<open>A slide event with a given velocity.\<close>

definition slide_event :: "real \<Rightarrow> TouchEvent" where
  "slide_event v =
     \<lparr>touch_Type = ''slide'', touch_ID = 1, touch_X = 0, touch_Y = 0, touch_Zone = ''slider'',
      touch_VX = v\<rparr>"

text \<open>
  A configuration that binds the triangle zone to a key the table does not have, a
  controller with it, and the touch events that start and end a touch of that zone.
\<close>

definition controller_unknown :: Controller where
  "controller_unknown = NewController (UInput uinput0) (config0\<lparr>TriangleKey := ''ZZZ''\<rparr>)"

definition touch_triangle :: "string \<Rightarrow> TouchEvent" where
  "touch_triangle ty =
     \<lparr>touch_Type = ty, touch_ID = 7, touch_X = 0, touch_Y = 0, touch_Zone = ''triangle'',
      touch_VX = 0\<rparr>"

text \<open>The world of \<open>world0\<close> in which the next write fails.\<close>

definition world0_write_fails :: world where
  "world0_write_fails = world0\<lparr>write_fail := [True]\<rparr>"

text \<open>
  A process at time 0 with the controller of the defaults, no goroutine asleep, in a
  world where every call succeeds and the clock has eight readings left.
\<close>

definition world8 :: world where
  "world8 = world0
     \<lparr>clock :=
        [\<lparr>Sec = 1, Usec = 0\<rparr>, \<lparr>Sec = 2, Usec = 0\<rparr>, \<lparr>Sec = 3, Usec = 0\<rparr>, \<lparr>Sec = 4, Usec = 0\<rparr>,
         \<lparr>Sec = 5, Usec = 0\<rparr>, \<lparr>Sec = 6, Usec = 0\<rparr>, \<lparr>Sec = 7, Usec = 0\<rparr>, \<lparr>Sec = 8, Usec = 0\<rparr>]\<rparr>"

definition process0 :: process where
  "process0 = \<lparr>now = 0, controller = controller0, os = world8, sleeping = []\<rparr>"

section \<open>Properties\<close>

subsection \<open>The binary image of an event\<close>

lemma length_le_bytes: "length (le_bytes n v) = n"
  by (induction n arbitrary: v) simp_all

lemma length_encode_inputEvent: "length (encode_inputEvent ev) = 24"
  by (simp add: encode_inputEvent_def length_le_bytes)

lemma from_le_le_bytes: "from_le (le_bytes n v) = v mod 256 ^ n"
proof (induction n arbitrary: v)
  case 0
  show ?case by simp
next
  case (Suc n)
  have "unat (of_nat (v mod 256) :: byte) = v mod 256"
    by (simp add: unat_of_nat)
  then show ?case
    using Suc.IH [of "v div 256"] by (simp add: mod_mult2_eq)
qed

lemma of_nat_from_le_unat:
  "unat w < 256 ^ n \<Longrightarrow> of_nat (from_le (le_bytes n (unat w))) = w"
  by (simp add: from_le_le_bytes)

lemma decode_encode_inputEvent: "decode_inputEvent (encode_inputEvent ev) = ev"
proof -
  have a: "unat (Sec (Time ev)) < 256 ^ 8" "unat (Usec (Time ev)) < 256 ^ 8"
    using unsigned_less [of "Sec (Time ev)"] unsigned_less [of "Usec (Time ev)"] by simp_all
  have b: "unat (Type ev) < 256 ^ 2" "unat (Code ev) < 256 ^ 2"
    using unsigned_less [of "Type ev"] unsigned_less [of "Code ev"] by simp_all
  have c: "unat (Value ev) < 256 ^ 4"
    using unsigned_less [of "Value ev"] by simp
  show ?thesis
    unfolding decode_inputEvent_def encode_inputEvent_def
    by (simp add: length_le_bytes of_nat_from_le_unat [OF a(1)] of_nat_from_le_unat [OF a(2)]
        of_nat_from_le_unat [OF b(1)] of_nat_from_le_unat [OF b(2)] of_nat_from_le_unat [OF c])
qed

subsection \<open>System calls\<close>

lemma Gettimeofday_fields:
  "open_uinput (snd (Gettimeofday w)) = open_uinput w"
  "ioctl_fail (snd (Gettimeofday w)) = ioctl_fail w"
  "write_fail (snd (Gettimeofday w)) = write_fail w"
  "close_fail (snd (Gettimeofday w)) = close_fail w"
  "path_binaries (snd (Gettimeofday w)) = path_binaries w"
  "run_fail (snd (Gettimeofday w)) = run_fail w"
  "environ (snd (Gettimeofday w)) = environ w"
  "ioctls (snd (Gettimeofday w)) = ioctls w"
  "written (snd (Gettimeofday w)) = written w"
  "closed (snd (Gettimeofday w)) = closed w"
  "commands (snd (Gettimeofday w)) = commands w"
  "stdout (snd (Gettimeofday w)) = stdout w"
  "trace (snd (Gettimeofday w)) = trace w"
  "strings_ToLower (snd (Gettimeofday w)) = strings_ToLower w"
  by (simp_all add: Gettimeofday_def split: list.splits)

lemma sendEvent_eq:
  "sendEvent u typ code val w =
     syscall_Write (fd u)
       (encode_inputEvent \<lparr>Time = fst (Gettimeofday w), Type = typ, Code = code, Value = val\<rparr>)
       (snd (Gettimeofday w))"
  by (simp add: sendEvent_def split: prod.splits)

lemma syscall_Write_None:
  "syscall_Write f bs w = (None, w') \<Longrightarrow>
     w' = w\<lparr>write_fail := tl (write_fail w), written := written w @ [(f, bs)],
            trace := trace w @ [Wrote f bs]\<rparr>"
  by (auto simp: syscall_Write_def split: list.splits if_splits)

lemma syscall_Write_Some:
  "syscall_Write f bs w = (Some err, w') \<Longrightarrow>
     err = Errno \<and> w' = w\<lparr>write_fail := tl (write_fail w)\<rparr>"
  by (auto simp: syscall_Write_def split: list.splits if_splits)

lemma sendEvent_None:
  assumes "sendEvent u typ code val w = (None, w')"
  shows "w' = (snd (Gettimeofday w))
           \<lparr>write_fail := tl (write_fail w),
            written := written w @
              [(fd u, encode_inputEvent
                 \<lparr>Time = fst (Gettimeofday w), Type = typ, Code = code, Value = val\<rparr>)],
            trace := trace w @
              [Wrote (fd u) (encode_inputEvent
                 \<lparr>Time = fst (Gettimeofday w), Type = typ, Code = code, Value = val\<rparr>)]\<rparr>"
  using syscall_Write_None [OF assms [unfolded sendEvent_eq]]
  by (simp add: Gettimeofday_fields)

lemma sendEvent_Some:
  assumes "sendEvent u typ code val w = (Some err, w')"
  shows "err = Errno \<and> w' = (snd (Gettimeofday w))\<lparr>write_fail := tl (write_fail w)\<rparr>"
  using syscall_Write_Some [OF assms [unfolded sendEvent_eq]]
  by (simp add: Gettimeofday_fields)

lemma UInputBackend_Press_pressed:
  "get (keyState u) key \<Longrightarrow> UInputBackend_Press u key w = (None, u, w)"
  by (simp add: UInputBackend_Press_def)

lemma UInputBackend_Release_unpressed:
  "\<not> get (keyState u) key \<Longrightarrow> UInputBackend_Release u key w = (None, u, w)"
  by (simp add: UInputBackend_Release_def)

lemma UInputBackend_Press_unknown:
  "\<not> get (keyState u) key \<Longrightarrow> linuxKeyCodes key = None \<Longrightarrow>
     UInputBackend_Press u key w = (Some (UnknownKey key), u, w)"
  by (simp add: UInputBackend_Press_def)

lemma UInputBackend_Press_None:
  assumes "\<not> get (keyState u) key" and "UInputBackend_Press u key w = (None, u', w')"
  shows "\<exists>code w1. linuxKeyCodes key = Some code \<and>
           sendEvent u EV_KEY code 1 w = (None, w1) \<and>
           sendEvent u EV_SYN SYN_REPORT 0 w1 = (None, w') \<and>
           u' = u\<lparr>keyState := put (keyState u) key True\<rparr>"
  using assms
  by (auto simp: UInputBackend_Press_def sync_def split: option.splits prod.splits)

lemma UInputBackend_Release_None:
  assumes "get (keyState u) key" and "UInputBackend_Release u key w = (None, u', w')"
  shows "\<exists>code w1. linuxKeyCodes key = Some code \<and>
           sendEvent u EV_KEY code 0 w = (None, w1) \<and>
           sendEvent u EV_SYN SYN_REPORT 0 w1 = (None, w') \<and>
           u' = u\<lparr>keyState := put (keyState u) key False\<rparr>"
  using assms
  by (auto simp: UInputBackend_Release_def sync_def split: option.splits prod.splits)

lemma two_events_written:
  assumes "sendEvent u t1 c1 v1 w = (None, w1)" and "sendEvent u t2 c2 v2 w1 = (None, w')"
  shows "written w' = written w @
           [(fd u, encode_inputEvent
               \<lparr>Time = fst (Gettimeofday w), Type = t1, Code = c1, Value = v1\<rparr>),
            (fd u, encode_inputEvent
               \<lparr>Time = fst (Gettimeofday (snd (Gettimeofday w))), Type = t2, Code = c2, Value = v2\<rparr>)]"
proof -
  note a = sendEvent_None [OF assms(1)] and b = sendEvent_None [OF assms(2)]
  have "Gettimeofday w1 = (fst (Gettimeofday (snd (Gettimeofday w))), snd (Gettimeofday w1))"
    unfolding a by (simp add: Gettimeofday_def split: list.splits)
  then have "fst (Gettimeofday w1) = fst (Gettimeofday (snd (Gettimeofday w)))"
    by (metis fst_conv)
  moreover have "written w1 = written w @
     [(fd u, encode_inputEvent \<lparr>Time = fst (Gettimeofday w), Type = t1, Code = c1, Value = v1\<rparr>)]"
    unfolding a by simp
  ultimately show ?thesis
    unfolding b by simp
qed


lemma linuxKeyCodes_W: "linuxKeyCodes ''W'' = Some 17"
  by (simp add: linuxKeyCodes_def linuxKeyCodes_table_def)

lemma press_W_world0: "UInputBackend_Press uinput0 ''W'' world0 = (None, uinput1, world1)"
  by (simp add: UInputBackend_Press_def uinput0_def uinput1_def world0_def world1_def
      get_def put_def linuxKeyCodes_W sendEvent_def Let_def sync_def Gettimeofday_def syscall_Write_def)

lemma release_W_world1:
  "UInputBackend_Release uinput1 ''W'' world1 =
     (None, uinput0\<lparr>keyState := [(''W'', False)]\<rparr>,
      world1\<lparr>clock := [],
        written := written world1 @
        [(3, encode_inputEvent \<lparr>Time = \<lparr>Sec = 2, Usec = 0\<rparr>, Type = EV_KEY, Code = 17, Value = 0\<rparr>),
         (3, encode_inputEvent \<lparr>Time = \<lparr>Sec = 2, Usec = 5\<rparr>, Type = EV_SYN, Code = SYN_REPORT, Value = 0\<rparr>)],
        trace := trace world1 @
        [Wrote 3 (encode_inputEvent \<lparr>Time = \<lparr>Sec = 2, Usec = 0\<rparr>, Type = EV_KEY, Code = 17, Value = 0\<rparr>),
         Wrote 3 (encode_inputEvent \<lparr>Time = \<lparr>Sec = 2, Usec = 5\<rparr>, Type = EV_SYN, Code = SYN_REPORT, Value = 0\<rparr>)]\<rparr>)"
  by (simp add: UInputBackend_Release_def uinput0_def uinput1_def world0_def world1_def
      get_def put_def linuxKeyCodes_W sendEvent_def Let_def sync_def Gettimeofday_def syscall_Write_def)

subsection \<open>C1: the records of a press and of a release\<close>

text \<open>
  Claim C1. On the uinput backend, a press that succeeds on a key not marked pressed
  writes exactly two records to the device, in this order: a key event
  (type \<open>EV_KEY\<close>, the code the table gives the key, value 1) stamped with the first
  clock reading, then a synchronisation event (type \<open>EV_SYN\<close>, code \<open>SYN_REPORT\<close>,
  value 0) stamped with the next reading. A release that succeeds on a key marked
  pressed writes the same two records with value 0 in the key event. Every record is
  24 bytes long.
\<close>

theorem uinput_press_release_records:
  "(\<not> get (keyState u) key \<and> UInputBackend_Press u key w = (None, u', w') \<longrightarrow>
      (\<exists>code. linuxKeyCodes key = Some code \<and>
         written w' = written w @
           [(fd u, encode_inputEvent
               \<lparr>Time = fst (Gettimeofday w), Type = EV_KEY, Code = code, Value = 1\<rparr>),
            (fd u, encode_inputEvent
               \<lparr>Time = fst (Gettimeofday (snd (Gettimeofday w))),
                Type = EV_SYN, Code = SYN_REPORT, Value = 0\<rparr>)])) \<and>
   (get (keyState u) key \<and> UInputBackend_Release u key w = (None, u', w') \<longrightarrow>
      (\<exists>code. linuxKeyCodes key = Some code \<and>
         written w' = written w @
           [(fd u, encode_inputEvent
               \<lparr>Time = fst (Gettimeofday w), Type = EV_KEY, Code = code, Value = 0\<rparr>),
            (fd u, encode_inputEvent
               \<lparr>Time = fst (Gettimeofday (snd (Gettimeofday w))),
                Type = EV_SYN, Code = SYN_REPORT, Value = 0\<rparr>)])) \<and>
   (\<forall>ev. length (encode_inputEvent ev) = 24)"
proof (intro conjI impI allI)
  assume "\<not> get (keyState u) key \<and> UInputBackend_Press u key w = (None, u', w')"
  then obtain code w1 where "linuxKeyCodes key = Some code"
    and "sendEvent u EV_KEY code 1 w = (None, w1)"
    and "sendEvent u EV_SYN SYN_REPORT 0 w1 = (None, w')"
    using UInputBackend_Press_None by blast
  then show "\<exists>code. linuxKeyCodes key = Some code \<and>
         written w' = written w @
           [(fd u, encode_inputEvent
               \<lparr>Time = fst (Gettimeofday w), Type = EV_KEY, Code = code, Value = 1\<rparr>),
            (fd u, encode_inputEvent
               \<lparr>Time = fst (Gettimeofday (snd (Gettimeofday w))),
                Type = EV_SYN, Code = SYN_REPORT, Value = 0\<rparr>)]"
    using two_events_written by blast
next
  assume "get (keyState u) key \<and> UInputBackend_Release u key w = (None, u', w')"
  then obtain code w1 where "linuxKeyCodes key = Some code"
    and "sendEvent u EV_KEY code 0 w = (None, w1)"
    and "sendEvent u EV_SYN SYN_REPORT 0 w1 = (None, w')"
    using UInputBackend_Release_None by blast
  then show "\<exists>code. linuxKeyCodes key = Some code \<and>
         written w' = written w @
           [(fd u, encode_inputEvent
               \<lparr>Time = fst (Gettimeofday w), Type = EV_KEY, Code = code, Value = 0\<rparr>),
            (fd u, encode_inputEvent
               \<lparr>Time = fst (Gettimeofday (snd (Gettimeofday w))),
                Type = EV_SYN, Code = SYN_REPORT, Value = 0\<rparr>)]"
    using two_events_written by blast
next
  fix ev show "length (encode_inputEvent ev) = 24"
    by (rule length_encode_inputEvent)
qed

theorem uinput_press_release_records_witness:
  "(\<not> get (keyState uinput0) ''W'' \<and>
    UInputBackend_Press uinput0 ''W'' world0 = (None, uinput1, world1) \<and>
    written world1 = written world0 @
      [(3, encode_inputEvent \<lparr>Time = \<lparr>Sec = 1, Usec = 2\<rparr>, Type = EV_KEY, Code = 17, Value = 1\<rparr>),
       (3, encode_inputEvent \<lparr>Time = \<lparr>Sec = 1, Usec = 3\<rparr>, Type = EV_SYN, Code = SYN_REPORT, Value = 0\<rparr>)]) \<and>
   (get (keyState uinput1) ''W'' \<and>
    fst (UInputBackend_Release uinput1 ''W'' world1) = None \<and>
    written (snd (snd (UInputBackend_Release uinput1 ''W'' world1))) = written world1 @
      [(3, encode_inputEvent \<lparr>Time = \<lparr>Sec = 2, Usec = 0\<rparr>, Type = EV_KEY, Code = 17, Value = 0\<rparr>),
       (3, encode_inputEvent \<lparr>Time = \<lparr>Sec = 2, Usec = 5\<rparr>, Type = EV_SYN, Code = SYN_REPORT, Value = 0\<rparr>)])"
proof -
  have p: "\<not> get (keyState uinput0) ''W''"
    by (simp add: uinput0_def get_def)
  have r: "get (keyState uinput1) ''W''"
    by (simp add: uinput0_def uinput1_def get_def)
  have t0: "fst (Gettimeofday world0) = \<lparr>Sec = 1, Usec = 2\<rparr>"
    "fst (Gettimeofday (snd (Gettimeofday world0))) = \<lparr>Sec = 1, Usec = 3\<rparr>"
    by (simp_all add: Gettimeofday_def world0_def)
  have t1: "fst (Gettimeofday world1) = \<lparr>Sec = 2, Usec = 0\<rparr>"
    "fst (Gettimeofday (snd (Gettimeofday world1))) = \<lparr>Sec = 2, Usec = 5\<rparr>"
    by (simp_all add: Gettimeofday_def world1_def)
  have f: "fd uinput0 = 3" "fd uinput1 = 3"
    by (simp_all add: uinput0_def uinput1_def)
  show ?thesis
    using uinput_press_release_records [of uinput0 "''W''" world0 uinput1 world1]
      uinput_press_release_records [of uinput1 "''W''" world1
        "fst (snd (UInputBackend_Release uinput1 ''W'' world1))"
        "snd (snd (UInputBackend_Release uinput1 ''W'' world1))"]
      p r press_W_world0 release_W_world1
    by (simp add: t0 t1 f linuxKeyCodes_W)
qed

subsection \<open>Maps\<close>

lemma get_put: "get (put m k b) k' = (if k' = k then b else get m k')"
  by (simp add: get_def put_def update_conv)

lemma get_keys: "get m k \<Longrightarrow> k \<in> set (map fst m)"
proof -
  assume "get m k"
  then have "map_of m k = Some True"
    by (auto simp: get_def split: option.splits)
  then have "(k, True) \<in> set m"
    by (rule map_of_SomeD)
  then show ?thesis
    by force
qed

lemma distinct_keys_put: "distinct_keys m \<Longrightarrow> distinct_keys (put m k b)"
  by (simp add: distinct_keys_def put_def distinct_update)

subsection \<open>Press and release\<close>

lemma X11Backend_Press_pressed:
  "get (x_keyState x) key \<Longrightarrow> X11Backend_Press x key w = (None, x, w)"
  by (simp add: X11Backend_Press_def)

lemma X11Backend_Release_unpressed:
  "\<not> get (x_keyState x) key \<Longrightarrow> X11Backend_Release x key w = (None, x, w)"
  by (simp add: X11Backend_Release_def)

lemma X11Backend_Press_None:
  assumes "\<not> get (x_keyState x) key" and "X11Backend_Press x key w = (None, x', w')"
  shows "x' = x\<lparr>x_keyState := put (x_keyState x) key True\<rparr>"
  using assms by (auto simp: X11Backend_Press_def split: option.splits prod.splits)

lemma UInputBackend_Press_marks:
  assumes "UInputBackend_Press u key w = (None, u', w')"
  shows "get (keyState u') key"
proof (cases "get (keyState u) key")
  case True
  with assms show ?thesis by (simp add: UInputBackend_Press_pressed)
next
  case False
  from UInputBackend_Press_None [OF False assms] show ?thesis
    by (auto simp: get_put)
qed

lemma X11Backend_Press_marks:
  assumes "X11Backend_Press x key w = (None, x', w')"
  shows "get (x_keyState x') key"
proof (cases "get (x_keyState x) key")
  case True
  with assms show ?thesis by (simp add: X11Backend_Press_pressed)
next
  case False
  from X11Backend_Press_None [OF False assms] show ?thesis
    by (simp add: get_put)
qed

subsection \<open>C2: a press of a pressed key and a release of a released key do nothing\<close>

text \<open>
  Claim C2. On both backends, for every key: a press of a key marked pressed returns
  success and leaves the backend and the whole world as they were (nothing is written,
  no subprocess is run); a release of a key not marked pressed does the same, so the
  key stays not pressed. Hence, after a press that returned success the key is marked
  pressed and a second press of it changes nothing: of two presses in a row only the
  first one emits.
\<close>

theorem press_release_idempotent:
  "(get (keyState u) key \<longrightarrow> UInputBackend_Press u key w = (None, u, w)) \<and>
   (get (x_keyState x) key \<longrightarrow> X11Backend_Press x key w = (None, x, w)) \<and>
   (\<not> get (keyState u) key \<longrightarrow> UInputBackend_Release u key w = (None, u, w)) \<and>
   (\<not> get (x_keyState x) key \<longrightarrow> X11Backend_Release x key w = (None, x, w)) \<and>
   (UInputBackend_Press u key w = (None, u', w') \<longrightarrow>
      get (keyState u') key \<and> UInputBackend_Press u' key w' = (None, u', w')) \<and>
   (X11Backend_Press x key w = (None, x', w') \<longrightarrow>
      get (x_keyState x') key \<and> X11Backend_Press x' key w' = (None, x', w'))"
  using UInputBackend_Press_marks [of u key w u' w'] X11Backend_Press_marks [of x key w x' w']
  by (simp add: UInputBackend_Press_pressed X11Backend_Press_pressed
      UInputBackend_Release_unpressed X11Backend_Release_unpressed)

lemma x11_press_W_world0:
  "X11Backend_Press x11_0 ''W'' world0 =
     (None, x11_1, world0\<lparr>commands := [[''xdotool'', ''keydown'', ''w'']]\<rparr>)"
proof -
  have "ascii_ToLower ''W'' = ''w''" by code_simp
  then show ?thesis
    by (simp add: X11Backend_Press_def x11_0_def x11_1_def world0_def get_def put_def exec_Run_def)
qed

theorem press_release_idempotent_witness:
  "(get (keyState uinput1) ''W'' \<and>
      UInputBackend_Press uinput1 ''W'' world1 = (None, uinput1, world1)) \<and>
   (get (x_keyState x11_1) ''W'' \<and> X11Backend_Press x11_1 ''W'' world1 = (None, x11_1, world1)) \<and>
   (\<not> get (keyState uinput0) ''W'' \<and>
      UInputBackend_Release uinput0 ''W'' world0 = (None, uinput0, world0)) \<and>
   (\<not> get (x_keyState x11_0) ''W'' \<and>
      X11Backend_Release x11_0 ''W'' world0 = (None, x11_0, world0)) \<and>
   (UInputBackend_Press uinput0 ''W'' world0 = (None, uinput1, world1) \<and>
      UInputBackend_Press uinput1 ''W'' world1 = (None, uinput1, world1)) \<and>
   (X11Backend_Press x11_0 ''W'' world0 =
      (None, x11_1, world0\<lparr>commands := [[''xdotool'', ''keydown'', ''w'']]\<rparr>) \<and>
    X11Backend_Press x11_1 ''W'' (world0\<lparr>commands := [[''xdotool'', ''keydown'', ''w'']]\<rparr>) =
      (None, x11_1, world0\<lparr>commands := [[''xdotool'', ''keydown'', ''w'']]\<rparr>))"
proof -
  have g: "get (keyState uinput1) ''W''" "get (x_keyState x11_1) ''W''"
    "\<not> get (keyState uinput0) ''W''" "\<not> get (x_keyState x11_0) ''W''"
    by (simp_all add: uinput0_def uinput1_def x11_0_def x11_1_def get_def)
  show ?thesis
    using press_release_idempotent [where u = uinput1 and key = "''W''" and w = world1
        and x = x11_1 and u' = uinput1 and w' = world1 and x' = x11_1]
      press_release_idempotent [where u = uinput0 and key = "''W''" and w = world0
        and x = x11_0 and u' = uinput1 and w' = world1]
      press_release_idempotent [where x = x11_0 and key = "''W''" and w = world0
        and u = uinput0 and x' = x11_1
        and w' = "world0\<lparr>commands := [[''xdotool'', ''keydown'', ''w'']]\<rparr>"]
      g press_W_world0 x11_press_W_world0
    by simp
qed

subsection \<open>C3: a key that is not in the table\<close>

text \<open>
  Claim C3. On the uinput backend, a press of a key that is not in the key code table
  and is not marked pressed returns the error \<open>UnknownKey\<close>, and leaves the backend
  (its key states) and the world (nothing written) as they were.
\<close>

theorem uinput_press_unknown_key:
  "\<not> get (keyState u) key \<and> linuxKeyCodes key = None \<longrightarrow>
     UInputBackend_Press u key w = (Some (UnknownKey key), u, w)"
  by (simp add: UInputBackend_Press_unknown)

lemma linuxKeyCodes_ZZZ: "linuxKeyCodes ''ZZZ'' = None"
  by (simp add: linuxKeyCodes_def linuxKeyCodes_table_def)

theorem uinput_press_unknown_key_witness:
  "\<not> get (keyState uinput1) ''ZZZ'' \<and> linuxKeyCodes ''ZZZ'' = None \<and>
   UInputBackend_Press uinput1 ''ZZZ'' world1 = (Some (UnknownKey ''ZZZ''), uinput1, world1)"
proof -
  have "\<not> get (keyState uinput1) ''ZZZ''"
    by (simp add: uinput0_def uinput1_def get_def)
  then show ?thesis
    using uinput_press_unknown_key [of uinput1 "''ZZZ''" world1] linuxKeyCodes_ZZZ by simp
qed

subsection \<open>The invariant of the uinput backend\<close>

lemma pressed_known_iff:
  "pressed_known u \<longleftrightarrow> (\<forall>key. get (keyState u) key \<longrightarrow> linuxKeyCodes key \<noteq> None)"
proof -
  have "set (pressed_keys (keyState u)) = {key. get (keyState u) key}"
    using get_keys [of "keyState u"] by (auto simp: pressed_keys_def)
  then show ?thesis
    by (simp add: pressed_known_def list_all_iff)
qed

text \<open>What a press and a release can do to the backend: nothing, or mark the one key.\<close>

lemma UInputBackend_Press_state:
  "fst (snd (UInputBackend_Press u key w)) = u \<or>
   (\<not> get (keyState u) key \<and> linuxKeyCodes key \<noteq> None \<and>
    fst (UInputBackend_Press u key w) = None \<and>
    fst (snd (UInputBackend_Press u key w)) = u\<lparr>keyState := put (keyState u) key True\<rparr>)"
  by (auto simp: UInputBackend_Press_def split: option.splits prod.splits)

lemma UInputBackend_Release_state:
  "fst (snd (UInputBackend_Release u key w)) = u \<or>
   (get (keyState u) key \<and>
    fst (snd (UInputBackend_Release u key w)) = u\<lparr>keyState := put (keyState u) key False\<rparr>)"
  by (auto simp: UInputBackend_Release_def split: option.splits prod.splits)

lemma pressed_known_Press: "pressed_known u \<Longrightarrow> pressed_known (fst (snd (UInputBackend_Press u key w)))"
  using UInputBackend_Press_state [of u key w]
  by (auto simp: pressed_known_iff get_put split: if_splits)

lemma pressed_known_Release: "pressed_known u \<Longrightarrow> pressed_known (fst (snd (UInputBackend_Release u key w)))"
  using UInputBackend_Release_state [of u key w]
  by (auto simp: pressed_known_iff get_put split: if_splits)

lemma pressed_known_releaseAll:
  "pressed_known u \<Longrightarrow> pressed_known (fst (UInputBackend_releaseAll u keys w))"
proof (induction keys arbitrary: u w)
  case Nil
  then show ?case by simp
next
  case (Cons key keys)
  obtain err u1 w1 where r: "UInputBackend_Release u key w = (err, u1, w1)"
    by (cases "UInputBackend_Release u key w") auto
  with pressed_known_Release [OF Cons.prems, of key w] have "pressed_known u1"
    by simp
  from Cons.IH [OF this] r show ?case
    by simp
qed

lemma UInputBackend_Close_state:
  "fst (snd (UInputBackend_Close u w)) = fst (UInputBackend_releaseAll u (map fst (keyState u)) w)"
  by (simp add: UInputBackend_Close_def split: prod.splits)

lemma pressed_known_Close: "pressed_known u \<Longrightarrow> pressed_known (fst (snd (UInputBackend_Close u w)))"
  by (simp add: UInputBackend_Close_state pressed_known_releaseAll)

lemma UInputBackend_Release_error:
  "fst (UInputBackend_Release u key w) = Some err \<Longrightarrow>
     err = Errno \<or> (err = UnknownKey key \<and> get (keyState u) key \<and> linuxKeyCodes key = None)"
  by (auto simp: UInputBackend_Release_def sync_def split: option.splits prod.splits if_splits
      dest: sendEvent_Some)

lemma NewUInputBackend_pressed_known:
  "fst (NewUInputBackend w) = Inr u \<Longrightarrow> pressed_known u"
  by (auto simp: NewUInputBackend_def pressed_known_def pressed_keys_def
      split: sum.splits prod.splits bool.splits option.splits)

text \<open>The keys of the map stay distinct, and they are for a backend just opened.\<close>

lemma distinct_keys_Press:
  "distinct_keys (keyState u) \<Longrightarrow> distinct_keys (keyState (fst (snd (UInputBackend_Press u key w))))"
  using UInputBackend_Press_state [of u key w] by (auto simp: distinct_keys_put)

lemma distinct_keys_Release:
  "distinct_keys (keyState u) \<Longrightarrow> distinct_keys (keyState (fst (snd (UInputBackend_Release u key w))))"
  using UInputBackend_Release_state [of u key w] by (auto simp: distinct_keys_put)

lemma NewUInputBackend_distinct_keys:
  "fst (NewUInputBackend w) = Inr u \<Longrightarrow> distinct_keys (keyState u)"
  by (auto simp: NewUInputBackend_def distinct_keys_def
      split: sum.splits prod.splits bool.splits option.splits)

subsection \<open>C10: a key marked pressed is a key of the table\<close>

text \<open>
  Claim C10. The uinput backend keeps the invariant that every key marked pressed is
  in the key code table: if it holds before a press, a release or a close, it holds
  after. A press marks a key that was not marked only when the table has the key and
  both writes (the key event, the synchronisation event) have succeeded. With the
  invariant, a release of a key marked pressed never returns \<open>UnknownKey\<close>.
\<close>

theorem uinput_pressed_keys_known:
  "(pressed_known u \<longrightarrow>
     pressed_known (fst (snd (UInputBackend_Press u key w))) \<and>
     pressed_known (fst (snd (UInputBackend_Release u key w))) \<and>
     pressed_known (fst (snd (UInputBackend_Close u w))) \<and>
     (\<forall>k. get (keyState u) k \<longrightarrow> linuxKeyCodes k \<noteq> None) \<and>
     (get (keyState u) key \<longrightarrow>
        (\<forall>k. fst (UInputBackend_Release u key w) \<noteq> Some (UnknownKey k)))) \<and>
   (\<not> get (keyState u) key \<and> get (keyState (fst (snd (UInputBackend_Press u key w)))) key \<longrightarrow>
      (\<exists>code w1 w2. linuxKeyCodes key = Some code \<and>
         sendEvent u EV_KEY code 1 w = (None, w1) \<and>
         sync u w1 = (None, w2) \<and>
         UInputBackend_Press u key w = (None, u\<lparr>keyState := put (keyState u) key True\<rparr>, w2)))"
proof (rule conjI; rule impI)
  assume inv: "pressed_known u"
  then have known: "\<forall>k. get (keyState u) k \<longrightarrow> linuxKeyCodes k \<noteq> None"
    by (simp add: pressed_known_iff)
  have "fst (UInputBackend_Release u key w) \<noteq> Some (UnknownKey k)" if "get (keyState u) key" for k
  proof
    assume "fst (UInputBackend_Release u key w) = Some (UnknownKey k)"
    from UInputBackend_Release_error [OF this] have "linuxKeyCodes key = None"
      by auto
    with known that show False
      by auto
  qed
  then have "get (keyState u) key \<longrightarrow> (\<forall>k. fst (UInputBackend_Release u key w) \<noteq> Some (UnknownKey k))"
    by blast
  with known pressed_known_Press [OF inv, of key w] pressed_known_Release [OF inv, of key w]
    pressed_known_Close [OF inv, of w]
  show "pressed_known (fst (snd (UInputBackend_Press u key w))) \<and>
     pressed_known (fst (snd (UInputBackend_Release u key w))) \<and>
     pressed_known (fst (snd (UInputBackend_Close u w))) \<and>
     (\<forall>k. get (keyState u) k \<longrightarrow> linuxKeyCodes k \<noteq> None) \<and>
     (get (keyState u) key \<longrightarrow> (\<forall>k. fst (UInputBackend_Release u key w) \<noteq> Some (UnknownKey k)))"
    by blast
next
  assume a: "\<not> get (keyState u) key \<and> get (keyState (fst (snd (UInputBackend_Press u key w)))) key"
  then show "\<exists>code w1 w2. linuxKeyCodes key = Some code \<and>
         sendEvent u EV_KEY code 1 w = (None, w1) \<and>
         sync u w1 = (None, w2) \<and>
         UInputBackend_Press u key w = (None, u\<lparr>keyState := put (keyState u) key True\<rparr>, w2)"
    by (auto simp: UInputBackend_Press_def split: option.splits prod.splits)
qed

lemma linuxKeyCodes_Q: "linuxKeyCodes ''Q'' = Some 16"
  by (simp add: linuxKeyCodes_def linuxKeyCodes_table_def)

lemma press_Q_world1:
  "UInputBackend_Press uinput1 ''Q'' world1 =
     (None, uinput1\<lparr>keyState := [(''W'', True), (''Q'', True)]\<rparr>,
      world1\<lparr>clock := [],
        written := written world1 @
        [(3, encode_inputEvent \<lparr>Time = \<lparr>Sec = 2, Usec = 0\<rparr>, Type = EV_KEY, Code = 16, Value = 1\<rparr>),
         (3, encode_inputEvent \<lparr>Time = \<lparr>Sec = 2, Usec = 5\<rparr>, Type = EV_SYN, Code = SYN_REPORT, Value = 0\<rparr>)],
        trace := trace world1 @
        [Wrote 3 (encode_inputEvent \<lparr>Time = \<lparr>Sec = 2, Usec = 0\<rparr>, Type = EV_KEY, Code = 16, Value = 1\<rparr>),
         Wrote 3 (encode_inputEvent \<lparr>Time = \<lparr>Sec = 2, Usec = 5\<rparr>, Type = EV_SYN, Code = SYN_REPORT, Value = 0\<rparr>)]\<rparr>)"
  by (simp add: UInputBackend_Press_def uinput0_def uinput1_def world0_def world1_def
      get_def put_def linuxKeyCodes_Q sendEvent_def Let_def sync_def Gettimeofday_def syscall_Write_def)

theorem uinput_pressed_keys_known_witness:
  "pressed_known uinput1 \<and>
   pressed_known (uinput1\<lparr>keyState := [(''W'', True), (''Q'', True)]\<rparr>) \<and>
   pressed_known (uinput0\<lparr>keyState := [(''W'', False)]\<rparr>) \<and>
   pressed_known (fst (snd (UInputBackend_Close uinput1 world1))) \<and>
   get (keyState uinput1) ''W'' \<and> linuxKeyCodes ''W'' \<noteq> None \<and>
   fst (UInputBackend_Release uinput1 ''W'' world1) = None \<and>
   \<not> get (keyState uinput1) ''Q'' \<and>
   get (keyState (fst (snd (UInputBackend_Press uinput1 ''Q'' world1)))) ''Q'' \<and>
   linuxKeyCodes ''Q'' = Some 16"
proof -
  have inv: "pressed_known uinput1"
    by (simp add: pressed_known_def pressed_keys_def uinput0_def uinput1_def get_def linuxKeyCodes_W)
  have g: "get (keyState uinput1) ''W''" "\<not> get (keyState uinput1) ''Q''"
    by (simp_all add: uinput0_def uinput1_def get_def)
  have q: "get (keyState (fst (snd (UInputBackend_Press uinput1 ''Q'' world1)))) ''Q''"
    by (simp add: press_Q_world1 get_def)
  show ?thesis
    using uinput_pressed_keys_known [of uinput1 "''Q''" world1]
      uinput_pressed_keys_known [of uinput1 "''W''" world1] inv g q
    by (simp add: press_Q_world1 release_W_world1 linuxKeyCodes_Q)
qed

subsection \<open>Close\<close>

lemma syscall_Write_frame:
  "clock (snd (syscall_Write f bs w)) = clock w"
  "ioctls (snd (syscall_Write f bs w)) = ioctls w"
  "closed (snd (syscall_Write f bs w)) = closed w"
  "commands (snd (syscall_Write f bs w)) = commands w"
  "stdout (snd (syscall_Write f bs w)) = stdout w"
  "environ (snd (syscall_Write f bs w)) = environ w"
  "path_binaries (snd (syscall_Write f bs w)) = path_binaries w"
  "open_uinput (snd (syscall_Write f bs w)) = open_uinput w"
  by (simp_all add: syscall_Write_def split: list.splits)

lemma sendEvent_frame:
  "ioctls (snd (sendEvent u typ code val w)) = ioctls w"
  "closed (snd (sendEvent u typ code val w)) = closed w"
  "commands (snd (sendEvent u typ code val w)) = commands w"
  "stdout (snd (sendEvent u typ code val w)) = stdout w"
  "environ (snd (sendEvent u typ code val w)) = environ w"
  "path_binaries (snd (sendEvent u typ code val w)) = path_binaries w"
  by (simp_all add: sendEvent_eq syscall_Write_frame Gettimeofday_fields)

lemma sendEvent_frame_result:
  assumes "sendEvent u ty code val w = (e, w1)"
  shows "ioctls w1 = ioctls w" "closed w1 = closed w" "commands w1 = commands w"
    "stdout w1 = stdout w" "environ w1 = environ w" "path_binaries w1 = path_binaries w"
  using sendEvent_frame [of u ty code val w] by (simp_all add: assms)

text \<open>The five ways a release can go.\<close>

lemma UInputBackend_Release_cases:
  obtains
    (not_pressed) "\<not> get (keyState u) key" "UInputBackend_Release u key w = (None, u, w)"
  | (unknown) "get (keyState u) key" "linuxKeyCodes key = None"
      "UInputBackend_Release u key w = (Some (UnknownKey key), u, w)"
  | (key_failed) code w1 where "get (keyState u) key" "linuxKeyCodes key = Some code"
      "sendEvent u EV_KEY code 0 w = (Some Errno, w1)"
      "UInputBackend_Release u key w = (Some Errno, u, w1)"
  | (sync_failed) code w1 w2 where "get (keyState u) key" "linuxKeyCodes key = Some code"
      "sendEvent u EV_KEY code 0 w = (None, w1)"
      "sendEvent u EV_SYN SYN_REPORT 0 w1 = (Some Errno, w2)"
      "UInputBackend_Release u key w = (Some Errno, u, w2)"
  | (released) code w1 w2 where "get (keyState u) key" "linuxKeyCodes key = Some code"
      "sendEvent u EV_KEY code 0 w = (None, w1)"
      "sendEvent u EV_SYN SYN_REPORT 0 w1 = (None, w2)"
      "UInputBackend_Release u key w = (None, u\<lparr>keyState := put (keyState u) key False\<rparr>, w2)"
proof (cases "get (keyState u) key")
  case False
  then show ?thesis
    using not_pressed by (simp add: UInputBackend_Release_def)
next
  case pressed: True
  show ?thesis
  proof (cases "linuxKeyCodes key")
    case None
    with pressed show ?thesis
      using unknown by (simp add: UInputBackend_Release_def)
  next
    case (Some code)
    obtain e1 w1 where s1: "sendEvent u EV_KEY code 0 w = (e1, w1)"
      by (cases "sendEvent u EV_KEY code 0 w") auto
    show ?thesis
    proof (cases e1)
      case (Some err)
      with s1 sendEvent_Some [of u EV_KEY code 0 w err w1] have "err = Errno"
        by simp
      with pressed \<open>linuxKeyCodes key = Some code\<close> s1 Some show ?thesis
        using key_failed [of code w1] by (simp add: UInputBackend_Release_def)
    next
      case None
      obtain e2 w2 where s2: "sendEvent u EV_SYN SYN_REPORT 0 w1 = (e2, w2)"
        by (cases "sendEvent u EV_SYN SYN_REPORT 0 w1") auto
      show ?thesis
      proof (cases e2)
        case (Some err)
        with s2 sendEvent_Some [of u EV_SYN SYN_REPORT 0 w1 err w2] have "err = Errno"
          by simp
        with pressed \<open>linuxKeyCodes key = Some code\<close> s1 s2 None Some show ?thesis
          using sync_failed [of code w1 w2] by (simp add: UInputBackend_Release_def sync_def)
      next
        case n2: None
        with pressed \<open>linuxKeyCodes key = Some code\<close> s1 s2 None show ?thesis
          using released [of code w1 w2] by (simp add: UInputBackend_Release_def sync_def)
      qed
    qed
  qed
qed

lemma UInputBackend_Release_frame:
  "ioctls (snd (snd (UInputBackend_Release u key w))) = ioctls w"
  "closed (snd (snd (UInputBackend_Release u key w))) = closed w"
  "commands (snd (snd (UInputBackend_Release u key w))) = commands w"
  "stdout (snd (snd (UInputBackend_Release u key w))) = stdout w"
  "fd (fst (snd (UInputBackend_Release u key w))) = fd u"
  by (rule UInputBackend_Release_cases [of u key w]; simp add: sendEvent_frame_result)+

lemma sendEvent_no_failure:
  assumes "no_write_failure w"
  shows "fst (sendEvent u ty code val w) = None"
    and "no_write_failure (snd (sendEvent u ty code val w))"
  using assms
  by (auto simp: sendEvent_eq syscall_Write_def no_write_failure_def Gettimeofday_fields
      split: list.splits)

lemma sendEvent_written:
  assumes "sendEvent u ty code val w = (None, w1)"
  shows "written w1 = written w @
           [(fd u, encode_inputEvent
              \<lparr>Time = fst (Gettimeofday w), Type = ty, Code = code, Value = val\<rparr>)]"
  by (subst sendEvent_None [OF assms]) simp

lemma sendEvent_not_written:
  assumes "sendEvent u ty code val w = (Some err, w1)"
  shows "written w1 = written w"
  using sendEvent_Some [OF assms] by (simp add: Gettimeofday_fields)

lemma key_record_encode:
  "is_key_record val (encode_inputEvent \<lparr>Time = t, Type = ty, Code = code, Value = val'\<rparr>)
     \<longleftrightarrow> ty = EV_KEY \<and> val' = val"
  by (simp add: is_key_record_def decode_encode_inputEvent length_encode_inputEvent)

lemma release_records_append:
  "release_records f (recs @ recs') = release_records f recs @ release_records f recs'"
  by (simp add: release_records_def)

lemma release_records_Nil: "release_records f [] = []"
  by (simp add: release_records_def)

lemma release_records_Cons:
  "release_records f ((g, encode_inputEvent \<lparr>Time = t, Type = ty, Code = code, Value = val\<rparr>) # recs) =
     (if g = f \<and> ty = EV_KEY \<and> val = 0
      then (g, encode_inputEvent \<lparr>Time = t, Type = ty, Code = code, Value = val\<rparr>) #
           release_records f recs
      else release_records f recs)"
  by (simp add: release_records_def key_record_encode)

lemmas release_records_simps = release_records_append release_records_Nil release_records_Cons

lemma EV_SYN_not_EV_KEY: "EV_SYN \<noteq> EV_KEY"
  by (simp add: EV_SYN_def EV_KEY_def)

text \<open>
  One release, counted: the key-up records grow by at most one, and by none for a key
  that is not marked pressed; the key states of the other keys stay.
\<close>

lemma UInputBackend_Release_count:
  "length (release_records (fd u) (written (snd (snd (UInputBackend_Release u key w))))) \<le>
     length (release_records (fd u) (written w)) + (if get (keyState u) key then 1 else 0)"
proof (rule UInputBackend_Release_cases [of u key w])
  fix code w1 w2
  assume "sendEvent u EV_KEY code 0 w = (None, w1)"
    and "sendEvent u EV_SYN SYN_REPORT 0 w1 = (Some Errno, w2)"
    and "UInputBackend_Release u key w = (Some Errno, u, w2)"
    and "get (keyState u) key"
  then show ?thesis
    by (simp add: sendEvent_written sendEvent_not_written release_records_simps)
next
  fix code w1 w2
  assume "sendEvent u EV_KEY code 0 w = (None, w1)"
    and "sendEvent u EV_SYN SYN_REPORT 0 w1 = (None, w2)"
    and "UInputBackend_Release u key w = (None, u\<lparr>keyState := put (keyState u) key False\<rparr>, w2)"
    and "get (keyState u) key"
  then show ?thesis
    by (simp add: sendEvent_written release_records_simps EV_SYN_not_EV_KEY)
qed (simp_all add: sendEvent_not_written)

lemma UInputBackend_Release_others:
  "k \<noteq> key \<Longrightarrow> get (keyState (fst (snd (UInputBackend_Release u key w)))) k = get (keyState u) k"
  using UInputBackend_Release_state [of u key w] by (auto simp: get_put)

lemma UInputBackend_Release_no_failure:
  assumes "no_write_failure w" and "get (keyState u) key" and "linuxKeyCodes key \<noteq> None"
  shows "no_write_failure (snd (snd (UInputBackend_Release u key w)))"
    and "length (release_records (fd u) (written (snd (snd (UInputBackend_Release u key w))))) =
           length (release_records (fd u) (written w)) + 1"
    and "\<not> get (keyState (fst (snd (UInputBackend_Release u key w)))) key"
    and "fst (UInputBackend_Release u key w) = None"
proof -
  have "no_write_failure (snd (snd (UInputBackend_Release u key w))) \<and>
        length (release_records (fd u) (written (snd (snd (UInputBackend_Release u key w))))) =
           length (release_records (fd u) (written w)) + 1 \<and>
        \<not> get (keyState (fst (snd (UInputBackend_Release u key w)))) key \<and>
        fst (UInputBackend_Release u key w) = None"
  proof (rule UInputBackend_Release_cases [of u key w])
    fix code w1
    assume "sendEvent u EV_KEY code 0 w = (Some Errno, w1)"
    with sendEvent_no_failure(1) [OF assms(1), of u EV_KEY code 0] show ?thesis
      by simp
  next
    fix code w1 w2
    assume s1: "sendEvent u EV_KEY code 0 w = (None, w1)"
      and s2: "sendEvent u EV_SYN SYN_REPORT 0 w1 = (Some Errno, w2)"
    from sendEvent_no_failure(2) [OF assms(1), of u EV_KEY code 0] s1 have "no_write_failure w1"
      by simp
    from sendEvent_no_failure(1) [OF this, of u EV_SYN SYN_REPORT 0] s2 show ?thesis
      by simp
  next
    fix code w1 w2
    assume s1: "sendEvent u EV_KEY code 0 w = (None, w1)"
      and s2: "sendEvent u EV_SYN SYN_REPORT 0 w1 = (None, w2)"
      and r: "UInputBackend_Release u key w = (None, u\<lparr>keyState := put (keyState u) key False\<rparr>, w2)"
    from sendEvent_no_failure(2) [OF assms(1), of u EV_KEY code 0] s1 have "no_write_failure w1"
      by simp
    from sendEvent_no_failure(2) [OF this, of u EV_SYN SYN_REPORT 0] s2 have "no_write_failure w2"
      by simp
    with s1 s2 r show ?thesis
      by (simp add: sendEvent_written release_records_simps EV_SYN_not_EV_KEY get_put)
  qed (use assms in simp_all)
  then show "no_write_failure (snd (snd (UInputBackend_Release u key w)))"
    and "length (release_records (fd u) (written (snd (snd (UInputBackend_Release u key w))))) =
           length (release_records (fd u) (written w)) + 1"
    and "\<not> get (keyState (fst (snd (UInputBackend_Release u key w)))) key"
    and "fst (UInputBackend_Release u key w) = None"
    by simp_all
qed

lemma UInputBackend_releaseAll_frame:
  "ioctls (snd (UInputBackend_releaseAll u keys w)) = ioctls w \<and>
   closed (snd (UInputBackend_releaseAll u keys w)) = closed w \<and>
   commands (snd (UInputBackend_releaseAll u keys w)) = commands w \<and>
   stdout (snd (UInputBackend_releaseAll u keys w)) = stdout w \<and>
   fd (fst (UInputBackend_releaseAll u keys w)) = fd u"
proof (induction keys arbitrary: u w)
  case Nil
  show ?case by simp
next
  case (Cons key keys)
  obtain err u1 w1 where r: "UInputBackend_Release u key w = (err, u1, w1)"
    by (cases "UInputBackend_Release u key w") auto
  with UInputBackend_Release_frame [of u key w]
  have "ioctls w1 = ioctls w" "closed w1 = closed w" "commands w1 = commands w"
    "stdout w1 = stdout w" "fd u1 = fd u"
    by simp_all
  with Cons.IH [of u1 w1] r show ?case
    by simp
qed

lemma UInputBackend_releaseAll_no_failure:
  assumes "no_write_failure w" and "pressed_known u" and "distinct keys"
  shows "length (release_records (fd u) (written (snd (UInputBackend_releaseAll u keys w)))) =
           length (release_records (fd u) (written w)) + length (filter (get (keyState u)) keys) \<and>
         (\<forall>k. get (keyState (fst (UInputBackend_releaseAll u keys w))) k \<longleftrightarrow>
                get (keyState u) k \<and> k \<notin> set keys)"
  using assms
proof (induction keys arbitrary: u w)
  case Nil
  show ?case by simp
next
  case (Cons key keys)
  obtain err u1 w1 where r: "UInputBackend_Release u key w = (err, u1, w1)"
    by (cases "UInputBackend_Release u key w") auto
  have fd1: "fd u1 = fd u"
    using UInputBackend_Release_frame(5) [of u key w] r by simp
  have inv1: "pressed_known u1"
    using pressed_known_Release [OF Cons.prems(2), of key w] r by simp
  have others: "get (keyState u1) k = get (keyState u) k" if "k \<noteq> key" for k
    using UInputBackend_Release_others [OF that, of u w] r by simp
  from Cons.prems(3) have "key \<notin> set keys" and d: "distinct keys"
    by simp_all
  then have "get (keyState u1) k = get (keyState u) k" if "k \<in> set keys" for k
    using others [of k] that by blast
  then have same: "filter (get (keyState u1)) keys = filter (get (keyState u)) keys"
    by (intro filter_cong) simp_all
  show ?case
  proof (cases "get (keyState u) key")
    case True
    with Cons.prems(2) have known: "linuxKeyCodes key \<noteq> None"
      by (simp add: pressed_known_iff)
    note nf = UInputBackend_Release_no_failure [OF Cons.prems(1) True known]
    from nf(1) r have "no_write_failure w1"
      by simp
    then have ih: "length (release_records (fd u) (written (snd (UInputBackend_releaseAll u1 keys w1)))) =
           length (release_records (fd u) (written w1)) + length (filter (get (keyState u)) keys)"
      and ih2: "\<And>k. get (keyState (fst (UInputBackend_releaseAll u1 keys w1))) k \<longleftrightarrow>
                get (keyState u1) k \<and> k \<notin> set keys"
      using Cons.IH [OF _ inv1 d, of w1] by (simp_all add: fd1 same)
    from nf(3) r have n1: "\<not> get (keyState u1) key"
      by simp
    have st: "get (keyState u1) k \<longleftrightarrow> get (keyState u) k \<and> k \<noteq> key" for k
      using others [of k] n1 by (cases "k = key") simp_all
    from nf(2) r
    have c1: "length (release_records (fd u) (written w1)) =
            length (release_records (fd u) (written w)) + 1"
      by simp
    have "length (release_records (fd u) (written (snd (UInputBackend_releaseAll u (key # keys) w)))) =
           length (release_records (fd u) (written w)) + length (filter (get (keyState u)) (key # keys))"
      using ih c1 r True by simp
    moreover have "get (keyState (fst (UInputBackend_releaseAll u (key # keys) w))) k \<longleftrightarrow>
                get (keyState u) k \<and> k \<notin> set (key # keys)" for k
      using ih2 [of k] st [of k] r by auto
    ultimately show ?thesis
      by blast
  next
    case False
    then have "u1 = u" "w1 = w"
      using r by (simp_all add: UInputBackend_Release_unpressed)
    with Cons.IH [OF Cons.prems(1,2) d] r False show ?thesis
      by auto
  qed
qed

lemma UInputBackend_releaseAll_bound:
  assumes "distinct keys"
  shows "length (release_records (fd u) (written (snd (UInputBackend_releaseAll u keys w)))) \<le>
           length (release_records (fd u) (written w)) + length (filter (get (keyState u)) keys)"
  using assms
proof (induction keys arbitrary: u w)
  case Nil
  show ?case by simp
next
  case (Cons key keys)
  obtain err u1 w1 where r: "UInputBackend_Release u key w = (err, u1, w1)"
    by (cases "UInputBackend_Release u key w") auto
  have fd1: "fd u1 = fd u"
    using UInputBackend_Release_frame(5) [of u key w] r by simp
  have others: "get (keyState u1) k = get (keyState u) k" if "k \<noteq> key" for k
    using UInputBackend_Release_others [OF that, of u w] r by simp
  from Cons.prems have "key \<notin> set keys" and d: "distinct keys"
    by simp_all
  then have "get (keyState u1) k = get (keyState u) k" if "k \<in> set keys" for k
    using others [of k] that by blast
  then have same: "filter (get (keyState u1)) keys = filter (get (keyState u)) keys"
    by (intro filter_cong) simp_all
  from UInputBackend_Release_count [of u key w] r
  have "length (release_records (fd u) (written w1)) \<le>
          length (release_records (fd u) (written w)) + (if get (keyState u) key then 1 else 0)"
    by simp
  with Cons.IH [OF d, of u1 w1] r show ?case
    by (auto simp: fd1 same split: if_splits)
qed

lemma syscall_Ioctl_effect:
  "ioctls (snd (syscall_Ioctl f req arg w)) = ioctls w @ [(f, req, arg)]"
  "written (snd (syscall_Ioctl f req arg w)) = written w"
  "closed (snd (syscall_Ioctl f req arg w)) = closed w"
  "commands (snd (syscall_Ioctl f req arg w)) = commands w"
  "stdout (snd (syscall_Ioctl f req arg w)) = stdout w"
  "environ (snd (syscall_Ioctl f req arg w)) = environ w"
  "path_binaries (snd (syscall_Ioctl f req arg w)) = path_binaries w"
  "trace (snd (syscall_Ioctl f req arg w)) = trace w @ [Ioctl f req arg]"
  by (simp_all add: syscall_Ioctl_def Let_def split: list.splits)

lemma syscall_Close_effect:
  "closed (snd (syscall_Close f w)) = closed w @ [f]"
  "ioctls (snd (syscall_Close f w)) = ioctls w"
  "written (snd (syscall_Close f w)) = written w"
  "commands (snd (syscall_Close f w)) = commands w"
  "stdout (snd (syscall_Close f w)) = stdout w"
  "environ (snd (syscall_Close f w)) = environ w"
  "path_binaries (snd (syscall_Close f w)) = path_binaries w"
  "trace (snd (syscall_Close f w)) = trace w @ [Closed f]"
  by (simp_all add: syscall_Close_def Let_def split: list.splits)

lemma UInputBackend_Close_world:
  "snd (snd (UInputBackend_Close u w)) =
     snd (syscall_Close (fd (fst (UInputBackend_releaseAll u (map fst (keyState u)) w)))
       (snd (syscall_Ioctl (fd (fst (UInputBackend_releaseAll u (map fst (keyState u)) w)))
          UI_DEV_DESTROY 0 (snd (UInputBackend_releaseAll u (map fst (keyState u)) w)))))"
  by (simp add: UInputBackend_Close_def split: prod.splits)

lemma UInputBackend_Close_effect:
  "ioctls (snd (snd (UInputBackend_Close u w))) = ioctls w @ [(fd u, UI_DEV_DESTROY, 0)]"
  "closed (snd (snd (UInputBackend_Close u w))) = closed w @ [fd u]"
  "written (snd (snd (UInputBackend_Close u w))) =
     written (snd (UInputBackend_releaseAll u (map fst (keyState u)) w))"
  using UInputBackend_releaseAll_frame [of u "map fst (keyState u)" w]
  by (simp_all add: UInputBackend_Close_world syscall_Close_effect syscall_Ioctl_effect)

subsection \<open>Close of the xdotool backend\<close>

lemma X11Backend_Release_effect:
  "commands (snd (snd (X11Backend_Release x key w))) =
     commands w @
       (if get (x_keyState x) key then [[''xdotool'', ''keyup'', strings_ToLower w key]] else [])"
  "k \<noteq> key \<Longrightarrow> get (x_keyState (fst (snd (X11Backend_Release x key w)))) k = get (x_keyState x) k"
  by (auto simp: X11Backend_Release_def exec_Run_def Let_def get_put split: list.splits)

lemma keyup_commands_snoc:
  "keyup_commands (cmds @ [[''xdotool'', ''keyup'', s]]) = keyup_commands cmds @ [[''xdotool'', ''keyup'', s]]"
  by (simp add: keyup_commands_def)

lemma X11Backend_releaseAll_count:
  assumes "distinct keys"
  shows "length (keyup_commands (commands (snd (X11Backend_releaseAll x keys w)))) =
           length (keyup_commands (commands w)) + length (filter (get (x_keyState x)) keys)"
  using assms
proof (induction keys arbitrary: x w)
  case Nil
  show ?case by simp
next
  case (Cons key keys)
  obtain err x1 w1 where r: "X11Backend_Release x key w = (err, x1, w1)"
    by (cases "X11Backend_Release x key w") auto
  have others: "get (x_keyState x1) k = get (x_keyState x) k" if "k \<noteq> key" for k
    using X11Backend_Release_effect(2) [OF that, of x w] r by simp
  from Cons.prems have "key \<notin> set keys" and d: "distinct keys"
    by simp_all
  then have "get (x_keyState x1) k = get (x_keyState x) k" if "k \<in> set keys" for k
    using others [of k] that by blast
  then have same: "filter (get (x_keyState x1)) keys = filter (get (x_keyState x)) keys"
    by (intro filter_cong) simp_all
  from X11Backend_Release_effect(1) [of x key w] r
  have "length (keyup_commands (commands w1)) =
          length (keyup_commands (commands w)) + (if get (x_keyState x) key then 1 else 0)"
    by (simp add: keyup_commands_snoc)
  with Cons.IH [OF d, of x1 w1] r show ?case
    by (auto simp: same split: if_splits)
qed

lemma pressed_keys_none:
  assumes "\<forall>k. \<not> get m k"
  shows "pressed_keys m = []"
  using assms by (simp add: pressed_keys_def)

subsection \<open>The releases of a close, one by one\<close>

lemma sendEvent_script:
  "write_fail (snd (sendEvent u ty code val w)) = tl (write_fail w)"
  "fst (sendEvent u ty code val w) = (if next_fails (write_fail w) then Some Errno else None)"
  by (auto simp: sendEvent_eq syscall_Write_def next_fails_def Gettimeofday_fields
      split: list.splits)

lemma sendEvent_script_result:
  assumes "sendEvent u ty code val w = (e, w1)"
  shows "write_fail w1 = tl (write_fail w)"
    and "e = None \<longleftrightarrow> \<not> next_fails (write_fail w)"
  using sendEvent_script [of u ty code val w] by (simp_all add: assms)

text \<open>One release of a pressed key of the table, by the script of write failures.\<close>

lemma UInputBackend_Release_outcome:
  assumes "get (keyState u) key" and "linuxKeyCodes key \<noteq> None"
  shows "length (release_records (fd u) (written (snd (snd (UInputBackend_Release u key w))))) =
           length (release_records (fd u) (written w)) +
           (if next_fails (write_fail w) then 0 else 1) \<and>
         write_fail (snd (snd (UInputBackend_Release u key w))) =
           (if next_fails (write_fail w) then tl (write_fail w) else tl (tl (write_fail w))) \<and>
         (get (keyState (fst (snd (UInputBackend_Release u key w)))) key \<longleftrightarrow>
            next_fails (write_fail w) \<or> next_fails (tl (write_fail w)))"
proof (rule UInputBackend_Release_cases [of u key w])
  fix code w1
  assume s1: "sendEvent u EV_KEY code 0 w = (Some Errno, w1)"
    and r: "UInputBackend_Release u key w = (Some Errno, u, w1)"
  from sendEvent_script_result [OF s1] have "next_fails (write_fail w)" "write_fail w1 = tl (write_fail w)"
    by simp_all
  with r assms(1) sendEvent_not_written [OF s1] show ?thesis
    by simp
next
  fix code w1 w2
  assume s1: "sendEvent u EV_KEY code 0 w = (None, w1)"
    and s2: "sendEvent u EV_SYN SYN_REPORT 0 w1 = (Some Errno, w2)"
    and r: "UInputBackend_Release u key w = (Some Errno, u, w2)"
  from sendEvent_script_result [OF s1] have a: "\<not> next_fails (write_fail w)" "write_fail w1 = tl (write_fail w)"
    by simp_all
  from sendEvent_script_result [OF s2] a(2)
  have b: "next_fails (tl (write_fail w))" "write_fail w2 = tl (tl (write_fail w))"
    by simp_all
  from a b r assms(1) sendEvent_written [OF s1] sendEvent_not_written [OF s2] show ?thesis
    by (simp add: release_records_simps)
next
  fix code w1 w2
  assume s1: "sendEvent u EV_KEY code 0 w = (None, w1)"
    and s2: "sendEvent u EV_SYN SYN_REPORT 0 w1 = (None, w2)"
    and r: "UInputBackend_Release u key w = (None, u\<lparr>keyState := put (keyState u) key False\<rparr>, w2)"
  from sendEvent_script_result [OF s1] have a: "\<not> next_fails (write_fail w)" "write_fail w1 = tl (write_fail w)"
    by simp_all
  from sendEvent_script_result [OF s2] a(2)
  have b: "\<not> next_fails (tl (write_fail w))" "write_fail w2 = tl (tl (write_fail w))"
    by simp_all
  from a b r sendEvent_written [OF s1] sendEvent_written [OF s2] show ?thesis
    by (simp add: release_records_simps EV_SYN_not_EV_KEY get_put)
qed (use assms in simp_all)

lemma put_keys: "get m k \<Longrightarrow> map fst (put m k b) = map fst m"
  using get_keys [of m k] by (simp add: put_def update_keys)

lemma UInputBackend_Release_keys:
  "map fst (keyState (fst (snd (UInputBackend_Release u key w)))) = map fst (keyState u)"
  using UInputBackend_Release_state [of u key w] by (auto simp: put_keys)

lemma UInputBackend_releaseAll_keys:
  "map fst (keyState (fst (UInputBackend_releaseAll u keys w))) = map fst (keyState u)"
proof (induction keys arbitrary: u w)
  case Nil
  show ?case by simp
next
  case (Cons key keys)
  obtain err u1 w1 where r: "UInputBackend_Release u key w = (err, u1, w1)"
    by (cases "UInputBackend_Release u key w") auto
  with UInputBackend_Release_keys [of u key w] have "map fst (keyState u1) = map fst (keyState u)"
    by simp
  with Cons.IH [of u1 w1] r show ?case
    by simp
qed

text \<open>
  The loop of \<open>Close\<close>, by the script of write failures: every key is released in
  turn, whatever became of the keys before it.
\<close>

lemma UInputBackend_releaseAll_outcomes:
  assumes "pressed_known u" and "distinct keys"
  shows "length (release_records (fd u) (written (snd (UInputBackend_releaseAll u keys w)))) =
           length (release_records (fd u) (written w)) +
           length (filter (\<lambda>r. r \<noteq> KeyWriteFailed)
             (outcomes (length (filter (get (keyState u)) keys)) (write_fail w))) \<and>
         filter (get (keyState (fst (UInputBackend_releaseAll u keys w)))) keys =
           map fst (filter (\<lambda>kr. snd kr \<noteq> Released)
             (zip (filter (get (keyState u)) keys)
                (outcomes (length (filter (get (keyState u)) keys)) (write_fail w)))) \<and>
         (\<forall>k. k \<notin> set keys \<longrightarrow>
            get (keyState (fst (UInputBackend_releaseAll u keys w))) k = get (keyState u) k)"
  using assms
proof (induction keys arbitrary: u w)
  case Nil
  show ?case by simp
next
  case (Cons key keys)
  obtain err u1 w1 where r: "UInputBackend_Release u key w = (err, u1, w1)"
    by (cases "UInputBackend_Release u key w") auto
  let ?u' = "fst (UInputBackend_releaseAll u1 keys w1)"
  let ?w' = "snd (UInputBackend_releaseAll u1 keys w1)"
  let ?pk = "filter (get (keyState u)) keys"
  have all: "UInputBackend_releaseAll u (key # keys) w = UInputBackend_releaseAll u1 keys w1"
    using r by simp
  have fd1: "fd u1 = fd u"
    using UInputBackend_Release_frame(5) [of u key w] r by simp
  have inv1: "pressed_known u1"
    using pressed_known_Release [OF Cons.prems(1), of key w] r by simp
  have others: "get (keyState u1) k = get (keyState u) k" if "k \<noteq> key" for k
    using UInputBackend_Release_others [OF that, of u w] r by simp
  from Cons.prems(2) have nk: "key \<notin> set keys" and d: "distinct keys"
    by simp_all
  then have "get (keyState u1) k = get (keyState u) k" if "k \<in> set keys" for k
    using others [of k] that by blast
  then have same: "filter (get (keyState u1)) keys = ?pk"
    by (intro filter_cong) simp_all
  note ih = Cons.IH [OF inv1 d, of w1, unfolded fd1 same]
  from ih have ih1: "length (release_records (fd u) (written ?w')) =
      length (release_records (fd u) (written w1)) +
      length (filter (\<lambda>r. r \<noteq> KeyWriteFailed) (outcomes (length ?pk) (write_fail w1)))"
    by blast
  from ih have ih2: "filter (get (keyState ?u')) keys =
      map fst (filter (\<lambda>kr. snd kr \<noteq> Released) (zip ?pk (outcomes (length ?pk) (write_fail w1))))"
    by blast
  from ih have ih3: "get (keyState ?u') k = get (keyState u1) k" if "k \<notin> set keys" for k
    using that by blast
  have rest: "get (keyState ?u') k = get (keyState u) k" if "k \<notin> set (key # keys)" for k
    using ih3 [of k] others [of k] that by simp
  have at_key: "get (keyState ?u') key = get (keyState u1) key"
    using ih3 [OF nk] .
  show ?case
  proof (cases "get (keyState u) key")
    case False
    then have same1: "u1 = u" "w1 = w"
      using r by (simp_all add: UInputBackend_Release_unpressed)
    have "length (release_records (fd u) (written (snd (UInputBackend_releaseAll u (key # keys) w)))) =
           length (release_records (fd u) (written w)) +
           length (filter (\<lambda>r. r \<noteq> KeyWriteFailed)
             (outcomes (length (filter (get (keyState u)) (key # keys))) (write_fail w)))"
      unfolding all using ih1 False by (simp add: same1)
    moreover have "filter (get (keyState (fst (UInputBackend_releaseAll u (key # keys) w)))) (key # keys) =
           map fst (filter (\<lambda>kr. snd kr \<noteq> Released)
             (zip (filter (get (keyState u)) (key # keys))
                (outcomes (length (filter (get (keyState u)) (key # keys))) (write_fail w))))"
      unfolding all using ih2 False at_key by (simp add: same1)
    moreover have "\<forall>k. k \<notin> set (key # keys) \<longrightarrow>
            get (keyState (fst (UInputBackend_releaseAll u (key # keys) w))) k = get (keyState u) k"
      unfolding all using rest by blast
    ultimately show ?thesis
      by blast
  next
    case True
    with Cons.prems(1) have known: "linuxKeyCodes key \<noteq> None"
      by (simp add: pressed_known_iff)
    note out = UInputBackend_Release_outcome [OF True known, of w, unfolded r, simplified]
    from out have c1: "length (release_records (fd u) (written w1)) =
        length (release_records (fd u) (written w)) + (if next_fails (write_fail w) then 0 else 1)"
      by blast
    from out have f1: "write_fail w1 =
        (if next_fails (write_fail w) then tl (write_fail w) else tl (tl (write_fail w)))"
      by blast
    from out have g1: "get (keyState u1) key \<longleftrightarrow>
        next_fails (write_fail w) \<or> next_fails (tl (write_fail w))"
      by blast
    have pk: "filter (get (keyState u)) (key # keys) = key # ?pk"
      using True by simp
    have "length (release_records (fd u) (written (snd (UInputBackend_releaseAll u (key # keys) w)))) =
           length (release_records (fd u) (written w)) +
           length (filter (\<lambda>r. r \<noteq> KeyWriteFailed)
             (outcomes (length (filter (get (keyState u)) (key # keys))) (write_fail w)))"
      unfolding all pk using ih1 c1 f1 by simp
    moreover have "filter (get (keyState (fst (UInputBackend_releaseAll u (key # keys) w)))) (key # keys) =
           map fst (filter (\<lambda>kr. snd kr \<noteq> Released)
             (zip (filter (get (keyState u)) (key # keys))
                (outcomes (length (filter (get (keyState u)) (key # keys))) (write_fail w))))"
      unfolding all pk using ih2 f1 g1 at_key by simp
    moreover have "\<forall>k. k \<notin> set (key # keys) \<longrightarrow>
            get (keyState (fst (UInputBackend_releaseAll u (key # keys) w))) k = get (keyState u) k"
      unfolding all using rest by blast
    ultimately show ?thesis
      by blast
  qed
qed

text \<open>What the releases add to the records written and to the trace.\<close>

lemma sendEvent_appends:
  "\<exists>new. written (snd (sendEvent u ty code val w)) = written w @ new \<and>
         trace (snd (sendEvent u ty code val w)) = trace w @ map (case_prod Wrote) new \<and>
         list_all (\<lambda>r. fst r = fd u) new"
  by (auto simp: sendEvent_eq syscall_Write_def Gettimeofday_fields split: list.splits)

lemma appends_trans:
  assumes "\<exists>new. written w1 = written w @ new \<and> trace w1 = trace w @ map (case_prod Wrote) new \<and>
             list_all (\<lambda>r. fst r = f) new"
    and "\<exists>new. written w2 = written w1 @ new \<and> trace w2 = trace w1 @ map (case_prod Wrote) new \<and>
             list_all (\<lambda>r. fst r = f) new"
  shows "\<exists>new. written w2 = written w @ new \<and> trace w2 = trace w @ map (case_prod Wrote) new \<and>
             list_all (\<lambda>r. fst r = f) new"
proof -
  from assms(1) obtain a where a: "written w1 = written w @ a"
    "trace w1 = trace w @ map (case_prod Wrote) a" "list_all (\<lambda>r. fst r = f) a"
    by blast
  from assms(2) obtain b where b: "written w2 = written w1 @ b"
    "trace w2 = trace w1 @ map (case_prod Wrote) b" "list_all (\<lambda>r. fst r = f) b"
    by blast
  have "written w2 = written w @ (a @ b) \<and> trace w2 = trace w @ map (case_prod Wrote) (a @ b) \<and>
        list_all (\<lambda>r. fst r = f) (a @ b)"
    using a b by simp
  then show ?thesis
    by blast
qed

lemma appends_refl:
  "\<exists>new. written w = written w @ new \<and> trace w = trace w @ map (case_prod Wrote) new \<and>
         list_all (\<lambda>r. fst r = f) new"
  by (rule exI [of _ "[]"]) simp

lemma UInputBackend_Release_appends:
  "\<exists>new. written (snd (snd (UInputBackend_Release u key w))) = written w @ new \<and>
         trace (snd (snd (UInputBackend_Release u key w))) = trace w @ map (case_prod Wrote) new \<and>
         list_all (\<lambda>r. fst r = fd u) new"
proof (rule UInputBackend_Release_cases [of u key w])
  fix code w1
  assume s1: "sendEvent u EV_KEY code 0 w = (Some Errno, w1)"
    and r: "UInputBackend_Release u key w = (Some Errno, u, w1)"
  from sendEvent_appends [of u EV_KEY code 0 w] s1 r show ?thesis
    by simp
next
  fix code w1 w2
  assume s1: "sendEvent u EV_KEY code 0 w = (None, w1)"
    and s2: "sendEvent u EV_SYN SYN_REPORT 0 w1 = (Some Errno, w2)"
    and r: "UInputBackend_Release u key w = (Some Errno, u, w2)"
  from appends_trans [of w1 w "fd u" w2]
    sendEvent_appends [of u EV_KEY code 0 w] sendEvent_appends [of u EV_SYN SYN_REPORT 0 w1]
    s1 s2 r show ?thesis
    by simp
next
  fix code w1 w2
  assume s1: "sendEvent u EV_KEY code 0 w = (None, w1)"
    and s2: "sendEvent u EV_SYN SYN_REPORT 0 w1 = (None, w2)"
    and r: "UInputBackend_Release u key w = (None, u\<lparr>keyState := put (keyState u) key False\<rparr>, w2)"
  from appends_trans [of w1 w "fd u" w2]
    sendEvent_appends [of u EV_KEY code 0 w] sendEvent_appends [of u EV_SYN SYN_REPORT 0 w1]
    s1 s2 r show ?thesis
    by simp
qed (simp_all add: appends_refl)

lemma UInputBackend_releaseAll_appends:
  "\<exists>new. written (snd (UInputBackend_releaseAll u keys w)) = written w @ new \<and>
         trace (snd (UInputBackend_releaseAll u keys w)) = trace w @ map (case_prod Wrote) new \<and>
         list_all (\<lambda>r. fst r = fd u) new"
proof (induction keys arbitrary: u w)
  case Nil
  show ?case by (simp add: appends_refl)
next
  case (Cons key keys)
  obtain err u1 w1 where r: "UInputBackend_Release u key w = (err, u1, w1)"
    by (cases "UInputBackend_Release u key w") auto
  have fd1: "fd u1 = fd u"
    using UInputBackend_Release_frame(5) [of u key w] r by simp
  from appends_trans [of w1 w "fd u" "snd (UInputBackend_releaseAll u1 keys w1)"]
    UInputBackend_Release_appends [of u key w] Cons.IH [of u1 w1] r fd1
  show ?case
    by simp
qed

lemma UInputBackend_Close_trace:
  "written (snd (snd (UInputBackend_Close u w))) =
     written w @ new_records w (snd (snd (UInputBackend_Close u w))) \<and>
   list_all (\<lambda>r. fst r = fd u) (new_records w (snd (snd (UInputBackend_Close u w)))) \<and>
   trace (snd (snd (UInputBackend_Close u w))) =
     trace w @ map (case_prod Wrote) (new_records w (snd (snd (UInputBackend_Close u w)))) @
     [Ioctl (fd u) UI_DEV_DESTROY 0, Closed (fd u)]"
proof -
  let ?r = "UInputBackend_releaseAll u (map fst (keyState u)) w"
  from UInputBackend_releaseAll_appends [of u "map fst (keyState u)" w]
  obtain new where n: "written (snd ?r) = written w @ new"
    "trace (snd ?r) = trace w @ map (case_prod Wrote) new" "list_all (\<lambda>r. fst r = fd u) new"
    by blast
  have f: "fd (fst ?r) = fd u"
    using UInputBackend_releaseAll_frame [of u "map fst (keyState u)" w] by simp
  have w: "written (snd (snd (UInputBackend_Close u w))) = written w @ new"
    by (simp add: UInputBackend_Close_effect(3) n(1))
  then have nr: "new_records w (snd (snd (UInputBackend_Close u w))) = new"
    by (simp add: new_records_def)
  have "trace (snd (snd (UInputBackend_Close u w))) =
          trace (snd ?r) @ [Ioctl (fd u) UI_DEV_DESTROY 0, Closed (fd u)]"
    by (simp add: UInputBackend_Close_world syscall_Close_effect syscall_Ioctl_effect f)
  with w n show ?thesis
    unfolding nr by simp
qed


subsection \<open>C7: close releases the pressed keys\<close>

text \<open>
  Claim C7 fails as it is stated: \<open>Close\<close> drops the error of each release, and a
  release whose key-event write fails emits nothing. With \<open>W\<close> marked pressed and the
  next write failing, \<open>Close\<close> writes no record at all, while one key is marked pressed.
\<close>

theorem close_release_count_counterexample:
  "length (pressed_keys (keyState uinput1)) = 1 \<and>
   written (snd (snd (UInputBackend_Close uinput1 world1_write_fails))) = written world1_write_fails \<and>
   length (release_records 3 (written (snd (snd (UInputBackend_Close uinput1 world1_write_fails))))) \<noteq>
     length (release_records 3 (written world1_write_fails)) + length (pressed_keys (keyState uinput1))"
proof -
  have p: "pressed_keys (keyState uinput1) = [''W'']"
    by (simp add: pressed_keys_def uinput1_def uinput0_def get_def)
  have r: "UInputBackend_Release uinput1 ''W'' world1_write_fails =
             (Some Errno, uinput1, world1_write_fails\<lparr>clock := [\<lparr>Sec = 2, Usec = 5\<rparr>], write_fail := []\<rparr>)"
    by (simp add: UInputBackend_Release_def uinput0_def uinput1_def world0_def world1_def
        world1_write_fails_def get_def linuxKeyCodes_W sendEvent_def Gettimeofday_def
        syscall_Write_def)
  have k: "map fst (keyState uinput1) = [''W'']"
    by (simp add: uinput1_def uinput0_def)
  have "written (snd (snd (UInputBackend_Close uinput1 world1_write_fails))) = written world1_write_fails"
    by (simp add: UInputBackend_Close_effect(3) k r)
  with p show ?thesis
    by simp
qed

text \<open>
  Claim C7, amended. \<open>Close\<close> calls release for every key of the map, in the order of
  the map, and drops each result; a release that fails does not stop the loop. On the
  uinput backend, in a state where the keys are distinct and every pressed key is in
  the table, each pressed key meets one of three outcomes, set by the script of write
  failures (\<open>outcomes\<close>): its key-event write fails, then nothing is emitted and the key
  stays marked pressed; that write succeeds and the synchronisation write fails, then
  the key-up record has been emitted and the key stays marked pressed; both succeed,
  then the key-up record has been emitted and the key is marked not pressed. So the
  number of key-up records written during the close is the number of pressed keys
  whose key-event write succeeded, and the keys marked pressed after it are those
  whose release failed. If no write fails, that number equals the number of keys marked
  pressed before, and no key is marked pressed after; whatever fails, it is at most
  that number. In every case the uinput backend writes to its own descriptor only and,
  after the last write, issues the device-destroy request and then closes its
  descriptor (\<open>trace\<close>). On the xdotool backend one key-up command is run for each key
  marked pressed.
\<close>

theorem close_releases_pressed_keys:
  "(distinct_keys (keyState u) \<and> pressed_known u \<longrightarrow>
      length (release_records (fd u) (written (snd (snd (UInputBackend_Close u w))))) =
        length (release_records (fd u) (written w)) +
        length (filter (\<lambda>r. r \<noteq> KeyWriteFailed)
          (outcomes (length (pressed_keys (keyState u))) (write_fail w))) \<and>
      pressed_keys (keyState (fst (snd (UInputBackend_Close u w)))) =
        map fst (filter (\<lambda>kr. snd kr \<noteq> Released)
          (zip (pressed_keys (keyState u))
             (outcomes (length (pressed_keys (keyState u))) (write_fail w))))) \<and>
   (distinct_keys (keyState u) \<and> pressed_known u \<and> no_write_failure w \<longrightarrow>
      length (release_records (fd u) (written (snd (snd (UInputBackend_Close u w))))) =
        length (release_records (fd u) (written w)) + length (pressed_keys (keyState u)) \<and>
      pressed_keys (keyState (fst (snd (UInputBackend_Close u w)))) = []) \<and>
   (distinct_keys (keyState u) \<longrightarrow>
      length (release_records (fd u) (written (snd (snd (UInputBackend_Close u w))))) \<le>
        length (release_records (fd u) (written w)) + length (pressed_keys (keyState u))) \<and>
   ioctls (snd (snd (UInputBackend_Close u w))) = ioctls w @ [(fd u, UI_DEV_DESTROY, 0)] \<and>
   closed (snd (snd (UInputBackend_Close u w))) = closed w @ [fd u] \<and>
   written (snd (snd (UInputBackend_Close u w))) =
     written w @ new_records w (snd (snd (UInputBackend_Close u w))) \<and>
   list_all (\<lambda>r. fst r = fd u) (new_records w (snd (snd (UInputBackend_Close u w)))) \<and>
   trace (snd (snd (UInputBackend_Close u w))) =
     trace w @ map (case_prod Wrote) (new_records w (snd (snd (UInputBackend_Close u w)))) @
     [Ioctl (fd u) UI_DEV_DESTROY 0, Closed (fd u)] \<and>
   (distinct_keys (x_keyState x) \<longrightarrow>
      length (keyup_commands (commands (snd (snd (X11Backend_Close x w))))) =
        length (keyup_commands (commands w)) + length (pressed_keys (x_keyState x)))"
proof -
  let ?keys = "map fst (keyState u)"
  let ?r = "UInputBackend_releaseAll u ?keys w"
  let ?c = "UInputBackend_Close u w"
  have exact: "length (release_records (fd u) (written (snd (snd ?c)))) =
        length (release_records (fd u) (written w)) +
        length (filter (\<lambda>r. r \<noteq> KeyWriteFailed)
          (outcomes (length (pressed_keys (keyState u))) (write_fail w))) \<and>
      pressed_keys (keyState (fst (snd ?c))) =
        map fst (filter (\<lambda>kr. snd kr \<noteq> Released)
          (zip (pressed_keys (keyState u))
             (outcomes (length (pressed_keys (keyState u))) (write_fail w))))"
    if a: "distinct_keys (keyState u) \<and> pressed_known u"
  proof -
    from a have d: "distinct ?keys" and k: "pressed_known u"
      by (simp_all add: distinct_keys_def)
    note out = UInputBackend_releaseAll_outcomes [OF k d, of w]
    have "pressed_keys (keyState (fst ?r)) = filter (get (keyState (fst ?r))) ?keys"
      by (simp add: pressed_keys_def UInputBackend_releaseAll_keys)
    with out show ?thesis
      by (simp add: UInputBackend_Close_effect(3) UInputBackend_Close_state pressed_keys_def)
  qed
  have none: "length (release_records (fd u) (written (snd (snd ?c)))) =
        length (release_records (fd u) (written w)) + length (pressed_keys (keyState u)) \<and>
      pressed_keys (keyState (fst (snd ?c))) = []"
    if a: "distinct_keys (keyState u) \<and> pressed_known u \<and> no_write_failure w"
  proof -
    from a have d: "distinct ?keys"
      by (simp add: distinct_keys_def)
    note all = UInputBackend_releaseAll_no_failure [of w u ?keys]
    from a d all
    have "length (release_records (fd u) (written (snd (snd ?c)))) =
        length (release_records (fd u) (written w)) + length (pressed_keys (keyState u))"
      by (simp add: UInputBackend_Close_effect(3) pressed_keys_def)
    moreover have "\<not> get (keyState (fst ?r)) k" for k
      using a d all get_keys [of "keyState u" k] by auto
    then have "pressed_keys (keyState (fst (snd ?c))) = []"
      by (simp add: UInputBackend_Close_state pressed_keys_none)
    ultimately show ?thesis
      by blast
  qed
  have bound: "length (release_records (fd u) (written (snd (snd ?c)))) \<le>
        length (release_records (fd u) (written w)) + length (pressed_keys (keyState u))"
    if "distinct_keys (keyState u)"
    using that UInputBackend_releaseAll_bound [of ?keys u w]
    by (simp add: UInputBackend_Close_effect(3) pressed_keys_def distinct_keys_def)
  have x11: "length (keyup_commands (commands (snd (snd (X11Backend_Close x w))))) =
        length (keyup_commands (commands w)) + length (pressed_keys (x_keyState x))"
    if "distinct_keys (x_keyState x)"
    using that X11Backend_releaseAll_count [of "map fst (x_keyState x)" x w]
    by (simp add: X11Backend_Close_def pressed_keys_def distinct_keys_def split: prod.splits)
  show ?thesis
    using exact none bound x11 UInputBackend_Close_effect(1,2) [of u w]
      UInputBackend_Close_trace [of u w]
    by blast
qed

lemma close_uinput2_write_fails:
  "fst (snd (UInputBackend_Close uinput2 world1_write_fails)) =
     uinput0\<lparr>keyState := [(''W'', True), (''Q'', False)]\<rparr>"
  "written (snd (snd (UInputBackend_Close uinput2 world1_write_fails))) =
     written world1_write_fails @
     [(3, encode_inputEvent \<lparr>Time = \<lparr>Sec = 2, Usec = 5\<rparr>, Type = EV_KEY, Code = 16, Value = 0\<rparr>),
      (3, encode_inputEvent \<lparr>Time = \<lparr>Sec = 0, Usec = 0\<rparr>, Type = EV_SYN, Code = SYN_REPORT, Value = 0\<rparr>)]"
  by (simp_all add: UInputBackend_Close_def UInputBackend_Release_def uinput0_def uinput2_def
      world0_def world1_def world1_write_fails_def get_def put_def linuxKeyCodes_W linuxKeyCodes_Q
      sendEvent_def Let_def sync_def Gettimeofday_def syscall_Write_def syscall_Ioctl_def
      syscall_Close_def)

lemma close_uinput1_sync_fails:
  "fst (snd (UInputBackend_Close uinput1 world1_sync_fails)) = uinput1"
  "written (snd (snd (UInputBackend_Close uinput1 world1_sync_fails))) =
     written world1_sync_fails @
     [(3, encode_inputEvent \<lparr>Time = \<lparr>Sec = 2, Usec = 0\<rparr>, Type = EV_KEY, Code = 17, Value = 0\<rparr>)]"
  by (simp_all add: UInputBackend_Close_def UInputBackend_Release_def uinput0_def uinput1_def
      world0_def world1_def world1_sync_fails_def get_def put_def linuxKeyCodes_W
      sendEvent_def Let_def sync_def Gettimeofday_def syscall_Write_def syscall_Ioctl_def
      syscall_Close_def)

lemma close_uinput1_written:
  "written (snd (snd (UInputBackend_Close uinput1 world1))) =
     written world1 @
     [(3, encode_inputEvent \<lparr>Time = \<lparr>Sec = 2, Usec = 0\<rparr>, Type = EV_KEY, Code = 17, Value = 0\<rparr>),
      (3, encode_inputEvent \<lparr>Time = \<lparr>Sec = 2, Usec = 5\<rparr>, Type = EV_SYN, Code = SYN_REPORT, Value = 0\<rparr>)]"
proof -
  have "map fst (keyState uinput1) = [''W'']"
    by (simp add: uinput1_def uinput0_def)
  then show ?thesis
    by (simp add: UInputBackend_Close_effect(3) release_W_world1)
qed

theorem close_releases_pressed_keys_witness:
  "(distinct_keys (keyState uinput2) \<and> pressed_known uinput2 \<and>
      pressed_keys (keyState uinput2) = [''W'', ''Q''] \<and>
      outcomes 2 (write_fail world1_write_fails) = [KeyWriteFailed, Released] \<and>
      length (release_records 3 (written world1_write_fails)) = 0 \<and>
      length (release_records 3
        (written (snd (snd (UInputBackend_Close uinput2 world1_write_fails))))) = 1 \<and>
      pressed_keys (keyState (fst (snd (UInputBackend_Close uinput2 world1_write_fails)))) =
        [''W''] \<and>
      trace (snd (snd (UInputBackend_Close uinput2 world1_write_fails))) =
        trace world1_write_fails @
        [Wrote 3 (encode_inputEvent
           \<lparr>Time = \<lparr>Sec = 2, Usec = 5\<rparr>, Type = EV_KEY, Code = 16, Value = 0\<rparr>),
         Wrote 3 (encode_inputEvent
           \<lparr>Time = \<lparr>Sec = 0, Usec = 0\<rparr>, Type = EV_SYN, Code = SYN_REPORT, Value = 0\<rparr>),
         Ioctl 3 UI_DEV_DESTROY 0, Closed 3]) \<and>
   (outcomes 1 (write_fail world1_sync_fails) = [SyncWriteFailed] \<and>
      length (release_records 3 (written world1_sync_fails)) = 0 \<and>
      length (release_records 3
        (written (snd (snd (UInputBackend_Close uinput1 world1_sync_fails))))) = 1 \<and>
      pressed_keys (keyState (fst (snd (UInputBackend_Close uinput1 world1_sync_fails)))) =
        [''W''] \<and>
      trace (snd (snd (UInputBackend_Close uinput1 world1_sync_fails))) =
        trace world1_sync_fails @
        [Wrote 3 (encode_inputEvent
           \<lparr>Time = \<lparr>Sec = 2, Usec = 0\<rparr>, Type = EV_KEY, Code = 17, Value = 0\<rparr>),
         Ioctl 3 UI_DEV_DESTROY 0, Closed 3]) \<and>
   (distinct_keys (keyState uinput1) \<and> pressed_known uinput1 \<and> no_write_failure world1 \<and>
      length (pressed_keys (keyState uinput1)) = 1 \<and>
      length (release_records 3 (written world1)) = 0 \<and>
      length (release_records 3 (written (snd (snd (UInputBackend_Close uinput1 world1))))) = 1 \<and>
      pressed_keys (keyState (fst (snd (UInputBackend_Close uinput1 world1)))) = [] \<and>
      ioctls (snd (snd (UInputBackend_Close uinput1 world1))) = [(3, UI_DEV_DESTROY, 0)] \<and>
      closed (snd (snd (UInputBackend_Close uinput1 world1))) = [3] \<and>
      trace (snd (snd (UInputBackend_Close uinput1 world1))) =
        trace world1 @
        [Wrote 3 (encode_inputEvent
           \<lparr>Time = \<lparr>Sec = 2, Usec = 0\<rparr>, Type = EV_KEY, Code = 17, Value = 0\<rparr>),
         Wrote 3 (encode_inputEvent
           \<lparr>Time = \<lparr>Sec = 2, Usec = 5\<rparr>, Type = EV_SYN, Code = SYN_REPORT, Value = 0\<rparr>),
         Ioctl 3 UI_DEV_DESTROY 0, Closed 3]) \<and>
   (distinct_keys (x_keyState x11_1) \<and>
      length (pressed_keys (x_keyState x11_1)) = 1 \<and>
      length (keyup_commands (commands (snd (snd (X11Backend_Close x11_1 world1))))) = 1)"
proof -
  have h: "distinct_keys (keyState uinput1)" "pressed_known uinput1" "no_write_failure world1"
    "distinct_keys (x_keyState x11_1)" "distinct_keys (keyState uinput2)" "pressed_known uinput2"
    by (simp_all add: distinct_keys_def pressed_known_def pressed_keys_def no_write_failure_def
        uinput0_def uinput1_def uinput2_def x11_1_def world0_def world1_def get_def
        linuxKeyCodes_W linuxKeyCodes_Q)
  have p: "pressed_keys (keyState uinput1) = [''W'']" "pressed_keys (x_keyState x11_1) = [''W'']"
    "pressed_keys (keyState uinput2) = [''W'', ''Q'']"
    by (simp_all add: pressed_keys_def uinput1_def uinput2_def uinput0_def x11_1_def get_def)
  have w: "release_records 3 (written world1) = []" "ioctls world1 = []" "closed world1 = []"
    "keyup_commands (commands world1) = []" "fd uinput1 = 3" "fd uinput2 = 3"
    "release_records 3 (written world1_write_fails) = []"
    "write_fail world1_write_fails = [True]" "write_fail world1 = []"
    "release_records 3 (written world1_sync_fails) = []"
    "write_fail world1_sync_fails = [False, True]"
    by (simp_all add: world1_def world0_def world1_write_fails_def world1_sync_fails_def
        uinput1_def uinput2_def
        uinput0_def release_records_simps EV_SYN_not_EV_KEY keyup_commands_def)
  have o: "outcomes 2 [True] = [KeyWriteFailed, Released]"
    "outcomes 1 [False, True] = [SyncWriteFailed]"
    by (simp_all add: numeral_2_eq_2 next_fails_def)
  have n: "new_records world1_write_fails (snd (snd (UInputBackend_Close uinput2 world1_write_fails))) =
     [(3, encode_inputEvent \<lparr>Time = \<lparr>Sec = 2, Usec = 5\<rparr>, Type = EV_KEY, Code = 16, Value = 0\<rparr>),
      (3, encode_inputEvent \<lparr>Time = \<lparr>Sec = 0, Usec = 0\<rparr>, Type = EV_SYN, Code = SYN_REPORT, Value = 0\<rparr>)]"
    "new_records world1 (snd (snd (UInputBackend_Close uinput1 world1))) =
     [(3, encode_inputEvent \<lparr>Time = \<lparr>Sec = 2, Usec = 0\<rparr>, Type = EV_KEY, Code = 17, Value = 0\<rparr>),
      (3, encode_inputEvent \<lparr>Time = \<lparr>Sec = 2, Usec = 5\<rparr>, Type = EV_SYN, Code = SYN_REPORT, Value = 0\<rparr>)]"
    "new_records world1_sync_fails (snd (snd (UInputBackend_Close uinput1 world1_sync_fails))) =
     [(3, encode_inputEvent \<lparr>Time = \<lparr>Sec = 2, Usec = 0\<rparr>, Type = EV_KEY, Code = 17, Value = 0\<rparr>)]"
    by (simp_all add: new_records_def close_uinput2_write_fails(2) close_uinput1_written
        close_uinput1_sync_fails(2))
  show ?thesis
    using close_releases_pressed_keys [of uinput2 world1_write_fails x11_1]
      close_releases_pressed_keys [of uinput1 world1_sync_fails x11_1]
      close_releases_pressed_keys [of uinput1 world1 x11_1] h
    by (simp add: p w o n next_fails_def release_records_simps EV_SYN_not_EV_KEY)
qed

subsection \<open>C8: the xdotool backend lowercases the key, the uinput backend does not\<close>

lemma X11Backend_Press_commands:
  "\<not> get (x_keyState x) key \<Longrightarrow>
     commands (snd (snd (X11Backend_Press x key w))) =
       commands w @ [[''xdotool'', ''keydown'', strings_ToLower w key]]"
  by (auto simp: X11Backend_Press_def exec_Run_def Let_def split: list.splits)

lemma UInputBackend_Release_unknown:
  "get (keyState u) key \<Longrightarrow> linuxKeyCodes key = None \<Longrightarrow>
     UInputBackend_Release u key w = (Some (UnknownKey key), u, w)"
  by (simp add: UInputBackend_Release_def)

text \<open>
  Claim C8. For every key name: the xdotool backend runs \<open>xdotool keydown\<close> (on a
  press of a key not marked pressed) and \<open>xdotool keyup\<close> (on a release of a key marked
  pressed) with one argument, the name as \<open>strings.ToLower\<close> returns it, whatever the
  name is; so, with a library that lowercases ASCII names as Go's does, a name of ASCII
  characters is dispatched with its letters A to Z turned into a to z and every other
  character kept. The uinput backend looks the name up as it is given: a name that is not in the
  table fails with \<open>UnknownKey\<close>, whatever the table holds for its lowercased form,
  and a press or release that succeeds writes the code the table gives the name itself.
\<close>

theorem x11_lowercases_uinput_does_not:
  "(\<not> get (x_keyState x) key \<longrightarrow>
      commands (snd (snd (X11Backend_Press x key w))) =
        commands w @ [[''xdotool'', ''keydown'', strings_ToLower w key]]) \<and>
   (get (x_keyState x) key \<longrightarrow>
      commands (snd (snd (X11Backend_Release x key w))) =
        commands w @ [[''xdotool'', ''keyup'', strings_ToLower w key]]) \<and>
   (lowers_ascii (strings_ToLower w) \<and> is_ascii key \<and> \<not> get (x_keyState x) key \<longrightarrow>
      commands (snd (snd (X11Backend_Press x key w))) =
        commands w @ [[''xdotool'', ''keydown'', ascii_ToLower key]]) \<and>
   (lowers_ascii (strings_ToLower w) \<and> is_ascii key \<and> get (x_keyState x) key \<longrightarrow>
      commands (snd (snd (X11Backend_Release x key w))) =
        commands w @ [[''xdotool'', ''keyup'', ascii_ToLower key]]) \<and>
   (\<not> get (keyState u) key \<and> linuxKeyCodes key = None \<longrightarrow>
      UInputBackend_Press u key w = (Some (UnknownKey key), u, w)) \<and>
   (get (keyState u) key \<and> linuxKeyCodes key = None \<longrightarrow>
      UInputBackend_Release u key w = (Some (UnknownKey key), u, w)) \<and>
   (\<not> get (keyState u) key \<and> UInputBackend_Press u key w = (None, u', w') \<longrightarrow>
      (\<exists>code w1. linuxKeyCodes key = Some code \<and> sendEvent u EV_KEY code 1 w = (None, w1))) \<and>
   (get (keyState u) key \<and> UInputBackend_Release u key w = (None, u', w') \<longrightarrow>
      (\<exists>code w1. linuxKeyCodes key = Some code \<and> sendEvent u EV_KEY code 0 w = (None, w1)))"
proof (intro conjI impI)
  assume "\<not> get (keyState u) key \<and> UInputBackend_Press u key w = (None, u', w')"
  then show "\<exists>code w1. linuxKeyCodes key = Some code \<and> sendEvent u EV_KEY code 1 w = (None, w1)"
    using UInputBackend_Press_None [of u key w u' w'] by blast
next
  assume "get (keyState u) key \<and> UInputBackend_Release u key w = (None, u', w')"
  then show "\<exists>code w1. linuxKeyCodes key = Some code \<and> sendEvent u EV_KEY code 0 w = (None, w1)"
    using UInputBackend_Release_None [of u key w u' w'] by blast
qed (simp_all add: X11Backend_Press_commands X11Backend_Release_effect(1)
    UInputBackend_Press_unknown UInputBackend_Release_unknown lowers_ascii_def)

lemma ascii_ToLower_names:
  "ascii_ToLower ''Space'' = ''space''"
  "ascii_ToLower ''@AZ[az{ 09'' = ''@az[az{ 09''"
  by code_simp+

lemma is_ascii_names: "is_ascii ''Space''" "is_ascii ''@AZ[az{ 09''"
  by code_simp+

lemma lowers_ascii_world0: "lowers_ascii (strings_ToLower world0)"
  by (simp add: lowers_ascii_def world0_def)

lemma linuxKeyCodes_Space: "linuxKeyCodes ''Space'' = None" "linuxKeyCodes ''space'' = Some 57"
  by (simp_all add: linuxKeyCodes_def linuxKeyCodes_table_def)

theorem x11_lowercases_uinput_does_not_witness:
  "(lowers_ascii (strings_ToLower world0) \<and> is_ascii ''Space'' \<and>
      \<not> get (x_keyState x11_0) ''Space'' \<and>
      commands (snd (snd (X11Backend_Press x11_0 ''Space'' world0))) =
        [[''xdotool'', ''keydown'', ''space'']]) \<and>
   (get (x_keyState \<lparr>x_keyState = [(''Space'', True)]\<rparr>) ''Space'' \<and>
      commands (snd (snd (X11Backend_Release \<lparr>x_keyState = [(''Space'', True)]\<rparr> ''Space'' world0))) =
        [[''xdotool'', ''keyup'', ''space'']]) \<and>
   (is_ascii ''@AZ[az{ 09'' \<and> \<not> get (x_keyState x11_0) ''@AZ[az{ 09'' \<and>
      commands (snd (snd (X11Backend_Press x11_0 ''@AZ[az{ 09'' world0))) =
        [[''xdotool'', ''keydown'', ''@az[az{ 09'']]) \<and>
   (\<not> get (keyState uinput0) ''Space'' \<and> linuxKeyCodes ''Space'' = None \<and>
      linuxKeyCodes (ascii_ToLower ''Space'') = Some 57 \<and>
      UInputBackend_Press uinput0 ''Space'' world0 = (Some (UnknownKey ''Space''), uinput0, world0)) \<and>
   (get (keyState \<lparr>fd = 3, keyState = [(''Space'', True)]\<rparr>) ''Space'' \<and>
      UInputBackend_Release \<lparr>fd = 3, keyState = [(''Space'', True)]\<rparr> ''Space'' world0 =
        (Some (UnknownKey ''Space''), \<lparr>fd = 3, keyState = [(''Space'', True)]\<rparr>, world0)) \<and>
   (\<not> get (keyState uinput0) ''W'' \<and>
      UInputBackend_Press uinput0 ''W'' world0 = (None, uinput1, world1) \<and>
      linuxKeyCodes ''W'' = Some 17) \<and>
   (get (keyState uinput1) ''W'' \<and> fst (UInputBackend_Release uinput1 ''W'' world1) = None)"
proof -
  have g: "\<not> get (x_keyState x11_0) ''Space''"
    "get (x_keyState \<lparr>x_keyState = [(''Space'', True)]\<rparr>) ''Space''"
    "\<not> get (x_keyState x11_0) ''@AZ[az{ 09''"
    "\<not> get (keyState uinput0) ''Space''"
    "get (keyState \<lparr>fd = 3, keyState = [(''Space'', True)]\<rparr>) ''Space''"
    "\<not> get (keyState uinput0) ''W''" "get (keyState uinput1) ''W''"
    by (simp_all add: get_def x11_0_def uinput0_def uinput1_def)
  have c: "commands world0 = []"
    by (simp add: world0_def)
  have tl0: "strings_ToLower world0 = ascii_ToLower"
    by (simp add: world0_def)
  show ?thesis
    using x11_lowercases_uinput_does_not [where x = x11_0 and key = "''Space''" and w = world0
        and u = uinput0]
      x11_lowercases_uinput_does_not [where x = "\<lparr>x_keyState = [(''Space'', True)]\<rparr>"
        and key = "''Space''" and w = world0 and u = "\<lparr>fd = 3, keyState = [(''Space'', True)]\<rparr>"]
      x11_lowercases_uinput_does_not [where x = x11_0 and key = "''@AZ[az{ 09''" and w = world0]
      x11_lowercases_uinput_does_not [where u = uinput0 and key = "''W''" and w = world0
        and u' = uinput1 and w' = world1]
      g press_W_world0 release_W_world1 lowers_ascii_world0 is_ascii_names
    by (simp add: c ascii_ToLower_names linuxKeyCodes_Space linuxKeyCodes_W tl0)
qed

subsection \<open>Opening the backends\<close>

lemma register_keys_frame:
  "environ (snd (register_keys f codes w)) = environ w \<and>
   path_binaries (snd (register_keys f codes w)) = path_binaries w \<and>
   stdout (snd (register_keys f codes w)) = stdout w"
proof (induction codes arbitrary: w)
  case Nil
  show ?case by simp
next
  case (Cons code codes)
  obtain b w1 where i: "syscall_Ioctl f UI_SET_KEYBIT (unat code) w = (b, w1)"
    by (cases "syscall_Ioctl f UI_SET_KEYBIT (unat code) w") auto
  with syscall_Ioctl_effect [of f UI_SET_KEYBIT "unat code" w]
  have "environ w1 = environ w" "path_binaries w1 = path_binaries w" "stdout w1 = stdout w"
    by simp_all
  with Cons.IH [of w1] i show ?case
    by (cases b) simp_all
qed

lemma NewUInputBackend_frame:
  "environ (snd (NewUInputBackend w)) = environ w"
  "path_binaries (snd (NewUInputBackend w)) = path_binaries w"
proof -
  have io: "environ w1 = environ w0 \<and> path_binaries w1 = path_binaries w0"
    if "syscall_Ioctl f req arg w0 = (b, w1)" for f req arg w0 b w1
    using syscall_Ioctl_effect [of f req arg w0] that by simp
  have wr: "environ w1 = environ w0 \<and> path_binaries w1 = path_binaries w0"
    if "syscall_Write f bs w0 = (e, w1)" for f bs w0 e w1
    using syscall_Write_frame [of f bs w0] that by simp
  have rk: "environ w1 = environ w0 \<and> path_binaries w1 = path_binaries w0"
    if "register_keys f cs w0 = (e, w1)" for f cs w0 e w1
    using register_keys_frame [of f cs w0] that by simp
  show "environ (snd (NewUInputBackend w)) = environ w"
    "path_binaries (snd (NewUInputBackend w)) = path_binaries w"
    by (auto simp: NewUInputBackend_def syscall_Close_effect
        split: sum.splits prod.splits bool.splits option.splits dest!: io wr rk)
qed

lemma NewKeyboardBackend_result:
  "fst (NewKeyboardBackend w) =
     (case fst (NewUInputBackend w) of
        Inr u \<Rightarrow> Inr (UInput u)
      | Inl err \<Rightarrow>
          if os_Getenv ''DISPLAY'' w \<noteq> [] then
            (case NewX11Backend w of
               Inr x \<Rightarrow> Inr (X11 x)
             | Inl err' \<Rightarrow> Inl NoBackendAvailable)
          else Inl NoBackendAvailable)"
proof -
  have "os_Getenv ''DISPLAY'' (snd (NewUInputBackend w)) = os_Getenv ''DISPLAY'' w"
    by (simp add: os_Getenv_def NewUInputBackend_frame)
  moreover have "NewX11Backend (snd (NewUInputBackend w)) = NewX11Backend w"
    by (simp add: NewX11Backend_def exec_LookPath_def NewUInputBackend_frame)
  ultimately show ?thesis
    by (cases "NewUInputBackend w") (auto simp: NewKeyboardBackend_def split: sum.splits)
qed

lemma register_keys_ok:
  "ioctl_fail w = [] \<Longrightarrow>
     fst (register_keys f codes w) = None \<and>
     ioctl_fail (snd (register_keys f codes w)) = [] \<and>
     write_fail (snd (register_keys f codes w)) = write_fail w"
proof (induction codes arbitrary: w)
  case Nil
  then show ?case by simp
next
  case (Cons code codes)
  then have i: "syscall_Ioctl f UI_SET_KEYBIT (unat code) w =
                  (False, w\<lparr>ioctls := ioctls w @ [(f, UI_SET_KEYBIT, unat code)],
                            trace := trace w @ [Ioctl f UI_SET_KEYBIT (unat code)]\<rparr>)"
    by (simp add: syscall_Ioctl_def)
  from Cons.prems
    Cons.IH [of "w\<lparr>ioctls := ioctls w @ [(f, UI_SET_KEYBIT, unat code)],
                   trace := trace w @ [Ioctl f UI_SET_KEYBIT (unat code)]\<rparr>"]
  show ?case
    by (simp add: i)
qed

lemma NewUInputBackend_ok:
  assumes "open_uinput w = Some f" and "ioctl_fail w = []" and "write_fail w = []"
  shows "fst (NewUInputBackend w) = Inr \<lparr>fd = f, keyState = []\<rparr>"
proof -
  let ?w1 = "w\<lparr>ioctls := ioctls w @ [(f, UI_SET_EVBIT, unat EV_KEY)],
                trace := trace w @ [Ioctl f UI_SET_EVBIT (unat EV_KEY)]\<rparr>"
  have i1: "syscall_Ioctl f UI_SET_EVBIT (unat EV_KEY) w = (False, ?w1)"
    using assms(2) by (simp add: syscall_Ioctl_def)
  obtain e2 w2 where r: "register_keys f (map snd linuxKeyCodes_table) ?w1 = (e2, w2)"
    by (cases "register_keys f (map snd linuxKeyCodes_table) ?w1") auto
  with register_keys_ok [of ?w1 f "map snd linuxKeyCodes_table"] assms
  have r2: "e2 = None" "ioctl_fail w2 = []" "write_fail w2 = []"
    by simp_all
  let ?w3 = "w2\<lparr>written := written w2 @ [(f, uidev_bytes)],
                 trace := trace w2 @ [Wrote f uidev_bytes]\<rparr>"
  have wr: "syscall_Write f uidev_bytes w2 = (None, ?w3)"
    using r2 by (simp add: syscall_Write_def)
  obtain w4 where i2: "syscall_Ioctl f UI_DEV_CREATE 0 ?w3 = (False, w4)"
    using r2 by (simp add: syscall_Ioctl_def)
  show ?thesis
    using assms(1) i1 r r2(1) wr i2
    by (simp add: NewUInputBackend_def syscall_Open_def)
qed

lemma NewUInputBackend_no_device:
  "open_uinput w = None \<Longrightarrow> fst (NewUInputBackend w) = Inl OpenFailed"
  by (simp add: NewUInputBackend_def syscall_Open_def)

subsection \<open>C4: the selection of a backend\<close>

text \<open>
  Claim C4 fails as it is stated: the code asks whether \<open>os.Getenv("DISPLAY")\<close> is the
  empty string, which it also is for a variable that is set to the empty string. With
  /dev/uinput not to be opened, \<open>DISPLAY\<close> set (to the empty string) and xdotool on the
  path, the xdotool backend would open, and the selection fails all the same.
\<close>

theorem backend_selection_counterexample:
  "map_of (environ world_display_empty) ''DISPLAY'' = Some [] \<and>
   fst (NewUInputBackend world_display_empty) = Inl OpenFailed \<and>
   NewX11Backend world_display_empty = Inr x11_0 \<and>
   fst (NewKeyboardBackend world_display_empty) = Inl NoBackendAvailable \<and>
   fst (NewKeyboardBackend world_display_empty) \<noteq> Inr (X11 x11_0)"
proof -
  have "open_uinput world_display_empty = None"
    by (simp add: world_display_empty_def)
  then have u: "fst (NewUInputBackend world_display_empty) = Inl OpenFailed"
    by (rule NewUInputBackend_no_device)
  have d: "map_of (environ world_display_empty) ''DISPLAY'' = Some []"
    by (simp add: world_display_empty_def)
  then have g: "os_Getenv ''DISPLAY'' world_display_empty = []"
    by (simp add: os_Getenv_def)
  have x: "NewX11Backend world_display_empty = Inr x11_0"
    by (simp add: NewX11Backend_def exec_LookPath_def world_display_empty_def world0_def x11_0_def)
  from u d g x show ?thesis
    by (simp add: NewKeyboardBackend_result)
qed

text \<open>
  Claim C4, amended. The selection tries the uinput backend first and selects it when
  it opens. Otherwise, if \<open>DISPLAY\<close> is set to a value that is not empty, it tries the
  xdotool backend and selects it when it opens. In every other case (the uinput backend
  does not open, and \<open>DISPLAY\<close> is not set, or is set to the empty string, or the
  xdotool backend does not open) the selection fails with \<open>NoBackendAvailable\<close>.
\<close>

theorem backend_selection:
  "(fst (NewUInputBackend w) = Inr u \<longrightarrow> fst (NewKeyboardBackend w) = Inr (UInput u)) \<and>
   (fst (NewUInputBackend w) = Inl err \<and>
    (\<exists>v. map_of (environ w) ''DISPLAY'' = Some v \<and> v \<noteq> []) \<and>
    NewX11Backend w = Inr x \<longrightarrow>
      fst (NewKeyboardBackend w) = Inr (X11 x)) \<and>
   (fst (NewUInputBackend w) = Inl err \<and>
    (map_of (environ w) ''DISPLAY'' = None \<or> map_of (environ w) ''DISPLAY'' = Some [] \<or>
     NewX11Backend w = Inl err') \<longrightarrow>
      fst (NewKeyboardBackend w) = Inl NoBackendAvailable)"
  by (auto simp: NewKeyboardBackend_result os_Getenv_def split: option.splits)

theorem backend_selection_witness:
  "(fst (NewUInputBackend world0) = Inr uinput0 \<and>
    fst (NewKeyboardBackend world0) = Inr (UInput uinput0)) \<and>
   (fst (NewUInputBackend world_no_uinput) = Inl OpenFailed \<and>
    map_of (environ world_no_uinput) ''DISPLAY'' = Some '':0'' \<and>
    NewX11Backend world_no_uinput = Inr x11_0 \<and>
    fst (NewKeyboardBackend world_no_uinput) = Inr (X11 x11_0)) \<and>
   (fst (NewUInputBackend world_no_display) = Inl OpenFailed \<and>
    map_of (environ world_no_display) ''DISPLAY'' = None \<and>
    fst (NewKeyboardBackend world_no_display) = Inl NoBackendAvailable)"
proof -
  have "open_uinput world0 = Some 3" "ioctl_fail world0 = []" "write_fail world0 = []"
    by (simp_all add: world0_def)
  then have a: "fst (NewUInputBackend world0) = Inr uinput0"
    unfolding uinput0_def by (rule NewUInputBackend_ok)
  have b: "fst (NewUInputBackend world_no_uinput) = Inl OpenFailed"
    "fst (NewUInputBackend world_no_display) = Inl OpenFailed"
    by (simp_all add: NewUInputBackend_no_device world_no_uinput_def world_no_display_def)
  have e: "map_of (environ world_no_uinput) ''DISPLAY'' = Some '':0''"
    "map_of (environ world_no_display) ''DISPLAY'' = None"
    by (simp_all add: world_no_uinput_def world_no_display_def world0_def)
  have x: "NewX11Backend world_no_uinput = Inr x11_0"
    by (simp add: NewX11Backend_def exec_LookPath_def world_no_uinput_def world0_def x11_0_def)
  show ?thesis
    using backend_selection [of world0 uinput0]
      backend_selection [of world_no_uinput _ OpenFailed x11_0]
      backend_selection [of world_no_display _ OpenFailed]
      a b e x
    by simp
qed

subsection \<open>The controller\<close>

lemma threshold_pos: "- threshold < threshold"
  by (simp add: threshold_def)

lemma HandleTouch_slide_right:
  assumes "touch_Type e = ''slide''" and "touch_VX e > threshold" and "\<not> sliderState_right c"
  shows "HandleTouch c e w =
     (case Press (keyboard c) (SliderRightKey (config c))
             (verbose_print c (SlideRightLine (touch_VX e)) w) of
        (err, kb, w1) \<Rightarrow> (c\<lparr>keyboard := kb, sliderState_right := True\<rparr>, w1, [AutoReleaseRight]))"
  using assms by (simp add: HandleTouch_def verbose_print_def Let_def split: prod.splits)

lemma HandleTouch_slide_left:
  assumes "touch_Type e = ''slide''" and "touch_VX e < - threshold" and "\<not> sliderState_left c"
  shows "HandleTouch c e w =
     (case Press (keyboard c) (SliderLeftKey (config c))
             (verbose_print c (SlideLeftLine (touch_VX e)) w) of
        (err, kb, w1) \<Rightarrow> (c\<lparr>keyboard := kb, sliderState_left := True\<rparr>, w1, [AutoReleaseLeft]))"
proof -
  from assms(2) threshold_pos have "\<not> touch_VX e > threshold"
    by simp
  with assms show ?thesis
    by (simp add: HandleTouch_def verbose_print_def Let_def split: prod.splits)
qed

lemma HandleTouch_slide_right_active:
  assumes "touch_Type e = ''slide''" and "touch_VX e > threshold" and "sliderState_right c"
  shows "HandleTouch c e w = (c, w, [])"
  using assms by (simp add: HandleTouch_def)

lemma HandleTouch_slide_left_active:
  assumes "touch_Type e = ''slide''" and "touch_VX e < - threshold" and "sliderState_left c"
  shows "HandleTouch c e w = (c, w, [])"
proof -
  from assms(2) threshold_pos have "\<not> touch_VX e > threshold"
    by simp
  with assms show ?thesis
    by (simp add: HandleTouch_def)
qed

lemma HandleTouch_slide_below:
  assumes "touch_Type e = ''slide''" and "- threshold \<le> touch_VX e" and "touch_VX e \<le> threshold"
  shows "HandleTouch c e w = (c, w, [])"
  using assms by (simp add: HandleTouch_def)

subsection \<open>C6: the threshold of a slide is strict\<close>

text \<open>
  Claim C6. A slide event with velocity exactly 0.5 or exactly -0.5 does nothing: the
  controller, the backend and the world stay as they are and no goroutine is started.
  A slide with velocity above 0.5, the right flag not set, presses the right slider
  key (after the line of the verbose mode), sets the right flag and starts the
  auto-release of the right side; a slide with velocity below -0.5, the left flag not
  set, does the same on the left side.
\<close>

theorem slide_threshold_strict:
  "(touch_Type e = ''slide'' \<and> (touch_VX e = 0.5 \<or> touch_VX e = - 0.5) \<longrightarrow>
      HandleTouch c e w = (c, w, [])) \<and>
   (touch_Type e = ''slide'' \<and> touch_VX e > 0.5 \<and> \<not> sliderState_right c \<longrightarrow>
      HandleTouch c e w =
        (case Press (keyboard c) (SliderRightKey (config c))
                (verbose_print c (SlideRightLine (touch_VX e)) w) of
           (err, kb, w1) \<Rightarrow>
             (c\<lparr>keyboard := kb, sliderState_right := True\<rparr>, w1, [AutoReleaseRight]))) \<and>
   (touch_Type e = ''slide'' \<and> touch_VX e < - 0.5 \<and> \<not> sliderState_left c \<longrightarrow>
      HandleTouch c e w =
        (case Press (keyboard c) (SliderLeftKey (config c))
                (verbose_print c (SlideLeftLine (touch_VX e)) w) of
           (err, kb, w1) \<Rightarrow>
             (c\<lparr>keyboard := kb, sliderState_left := True\<rparr>, w1, [AutoReleaseLeft])))"
proof (intro conjI impI)
  assume "touch_Type e = ''slide'' \<and> (touch_VX e = 0.5 \<or> touch_VX e = - 0.5)"
  then show "HandleTouch c e w = (c, w, [])"
    using HandleTouch_slide_below [of e c w] by (auto simp: threshold_def)
next
  assume "touch_Type e = ''slide'' \<and> touch_VX e > 0.5 \<and> \<not> sliderState_right c"
  then show "HandleTouch c e w =
        (case Press (keyboard c) (SliderRightKey (config c))
                (verbose_print c (SlideRightLine (touch_VX e)) w) of
           (err, kb, w1) \<Rightarrow>
             (c\<lparr>keyboard := kb, sliderState_right := True\<rparr>, w1, [AutoReleaseRight]))"
    using HandleTouch_slide_right [of e c w] by (simp add: threshold_def)
next
  assume "touch_Type e = ''slide'' \<and> touch_VX e < - 0.5 \<and> \<not> sliderState_left c"
  then show "HandleTouch c e w =
        (case Press (keyboard c) (SliderLeftKey (config c))
                (verbose_print c (SlideLeftLine (touch_VX e)) w) of
           (err, kb, w1) \<Rightarrow>
             (c\<lparr>keyboard := kb, sliderState_left := True\<rparr>, w1, [AutoReleaseLeft]))"
    using HandleTouch_slide_left [of e c w] by (simp add: threshold_def)
qed

lemma UInputBackend_Press_world0:
  assumes "linuxKeyCodes key = Some code"
  shows "UInputBackend_Press uinput0 key world0 =
     (None, uinput0\<lparr>keyState := [(key, True)]\<rparr>,
      world0\<lparr>clock := [\<lparr>Sec = 2, Usec = 0\<rparr>, \<lparr>Sec = 2, Usec = 5\<rparr>],
        written :=
          [(3, encode_inputEvent \<lparr>Time = \<lparr>Sec = 1, Usec = 2\<rparr>, Type = EV_KEY, Code = code, Value = 1\<rparr>),
           (3, encode_inputEvent \<lparr>Time = \<lparr>Sec = 1, Usec = 3\<rparr>, Type = EV_SYN, Code = SYN_REPORT, Value = 0\<rparr>)],
        trace :=
          [Wrote 3 (encode_inputEvent \<lparr>Time = \<lparr>Sec = 1, Usec = 2\<rparr>, Type = EV_KEY, Code = code, Value = 1\<rparr>),
           Wrote 3 (encode_inputEvent \<lparr>Time = \<lparr>Sec = 1, Usec = 3\<rparr>, Type = EV_SYN, Code = SYN_REPORT, Value = 0\<rparr>)]\<rparr>)"
  using assms
  by (simp add: UInputBackend_Press_def uinput0_def world0_def get_def put_def
      sendEvent_def Let_def sync_def Gettimeofday_def syscall_Write_def)

lemma linuxKeyCodes_E: "linuxKeyCodes ''E'' = Some 18"
  by (simp add: linuxKeyCodes_def linuxKeyCodes_table_def)

lemma controller0_fields:
  "keyboard controller0 = UInput uinput0" "config controller0 = config0"
  "\<not> sliderState_right controller0" "\<not> sliderState_left controller0"
  "SliderRightKey config0 = ''E''" "SliderLeftKey config0 = ''Q''" "\<not> Verbose config0"
  by (simp_all add: controller0_def NewController_def config0_def)

theorem slide_threshold_strict_witness:
  "(touch_Type (slide_event 0.5) = ''slide'' \<and> touch_VX (slide_event 0.5) = 0.5 \<and>
      HandleTouch controller0 (slide_event 0.5) world0 = (controller0, world0, [])) \<and>
   (touch_VX (slide_event (- 0.5)) = - 0.5 \<and>
      HandleTouch controller0 (slide_event (- 0.5)) world0 = (controller0, world0, [])) \<and>
   (touch_VX (slide_event 0.51) > 0.5 \<and> \<not> sliderState_right controller0 \<and>
      HandleTouch controller0 (slide_event 0.51) world0 =
        (controller0\<lparr>keyboard := UInput (uinput0\<lparr>keyState := [(''E'', True)]\<rparr>),
                     sliderState_right := True\<rparr>,
         world0\<lparr>clock := [\<lparr>Sec = 2, Usec = 0\<rparr>, \<lparr>Sec = 2, Usec = 5\<rparr>],
           written :=
             [(3, encode_inputEvent \<lparr>Time = \<lparr>Sec = 1, Usec = 2\<rparr>, Type = EV_KEY, Code = 18, Value = 1\<rparr>),
              (3, encode_inputEvent \<lparr>Time = \<lparr>Sec = 1, Usec = 3\<rparr>, Type = EV_SYN, Code = SYN_REPORT, Value = 0\<rparr>)],
           trace :=
             [Wrote 3 (encode_inputEvent \<lparr>Time = \<lparr>Sec = 1, Usec = 2\<rparr>, Type = EV_KEY, Code = 18, Value = 1\<rparr>),
              Wrote 3 (encode_inputEvent \<lparr>Time = \<lparr>Sec = 1, Usec = 3\<rparr>, Type = EV_SYN, Code = SYN_REPORT, Value = 0\<rparr>)]\<rparr>,
         [AutoReleaseRight])) \<and>
   (touch_VX (slide_event (- 0.51)) < - 0.5 \<and> \<not> sliderState_left controller0 \<and>
      HandleTouch controller0 (slide_event (- 0.51)) world0 =
        (controller0\<lparr>keyboard := UInput (uinput0\<lparr>keyState := [(''Q'', True)]\<rparr>),
                     sliderState_left := True\<rparr>,
         world0\<lparr>clock := [\<lparr>Sec = 2, Usec = 0\<rparr>, \<lparr>Sec = 2, Usec = 5\<rparr>],
           written :=
             [(3, encode_inputEvent \<lparr>Time = \<lparr>Sec = 1, Usec = 2\<rparr>, Type = EV_KEY, Code = 16, Value = 1\<rparr>),
              (3, encode_inputEvent \<lparr>Time = \<lparr>Sec = 1, Usec = 3\<rparr>, Type = EV_SYN, Code = SYN_REPORT, Value = 0\<rparr>)],
           trace :=
             [Wrote 3 (encode_inputEvent \<lparr>Time = \<lparr>Sec = 1, Usec = 2\<rparr>, Type = EV_KEY, Code = 16, Value = 1\<rparr>),
              Wrote 3 (encode_inputEvent \<lparr>Time = \<lparr>Sec = 1, Usec = 3\<rparr>, Type = EV_SYN, Code = SYN_REPORT, Value = 0\<rparr>)]\<rparr>,
         [AutoReleaseLeft]))"
proof -
  have e: "touch_Type (slide_event v) = ''slide''" "touch_VX (slide_event v) = v" for v
    by (simp_all add: slide_event_def)
  show ?thesis
    using slide_threshold_strict [of "slide_event 0.5" controller0 world0]
      slide_threshold_strict [of "slide_event (- 0.5)" controller0 world0]
      slide_threshold_strict [of "slide_event 0.51" controller0 world0]
      slide_threshold_strict [of "slide_event (- 0.51)" controller0 world0]
    by (simp add: e controller0_fields verbose_print_def
        UInputBackend_Press_world0 [OF linuxKeyCodes_E] UInputBackend_Press_world0 [OF linuxKeyCodes_Q])
qed

subsection \<open>What the backends leave alone\<close>

lemma UInputBackend_Press_stdout:
  "stdout (snd (snd (UInputBackend_Press u key w))) = stdout w"
proof -
  have s: "stdout w1 = stdout w0" if "sendEvent u ty code val w0 = (e, w1)" for ty code val w0 e w1
    using sendEvent_frame_result(4) [OF that] .
  show ?thesis
    by (auto simp: UInputBackend_Press_def sync_def split: option.splits prod.splits dest!: s)
qed

lemma exec_Run_stdout: "stdout (snd (exec_Run argv w)) = stdout w"
  by (simp add: exec_Run_def Let_def split: list.splits)

lemma X11Backend_stdout:
  "stdout (snd (snd (X11Backend_Press x key w))) = stdout w"
  "stdout (snd (snd (X11Backend_Release x key w))) = stdout w"
proof -
  have s: "stdout w1 = stdout w0" if "exec_Run argv w0 = (e, w1)" for argv w0 e w1
    using exec_Run_stdout [of argv w0] that by simp
  show "stdout (snd (snd (X11Backend_Press x key w))) = stdout w"
    "stdout (snd (snd (X11Backend_Release x key w))) = stdout w"
    by (auto simp: X11Backend_Press_def X11Backend_Release_def split: option.splits prod.splits
        dest!: s)
qed

lemma Press_world:
  "snd (snd (Press kb key w)) =
     (case kb of
        UInput u \<Rightarrow> snd (snd (UInputBackend_Press u key w))
      | X11 x \<Rightarrow> snd (snd (X11Backend_Press x key w)))"
  by (cases kb) (simp_all split: prod.splits)

lemma Release_world:
  "snd (snd (Release kb key w)) =
     (case kb of
        UInput u \<Rightarrow> snd (snd (UInputBackend_Release u key w))
      | X11 x \<Rightarrow> snd (snd (X11Backend_Release x key w)))"
  by (cases kb) (simp_all split: prod.splits)

lemma Press_stdout: "stdout (snd (snd (Press kb key w))) = stdout w"
  unfolding Press_world
  by (simp add: UInputBackend_Press_stdout X11Backend_stdout split: KeyboardBackend.splits)

lemma Release_stdout: "stdout (snd (snd (Release kb key w))) = stdout w"
  unfolding Release_world
  by (simp add: UInputBackend_Release_frame X11Backend_stdout split: KeyboardBackend.splits)

lemma verbose_print_stdout:
  "stdout (verbose_print c l w) = stdout w @ (if Verbose (config c) then [l] else [])"
  by (simp add: verbose_print_def Printf_def)

lemma HandleTouch_start:
  assumes "touch_Type e = ''start''" and "getKeyForZone c (touch_Zone e) False = key" and "key \<noteq> []"
  shows "HandleTouch c e w =
     (case Press (keyboard c) key (verbose_print c (TouchPressLine (touch_Zone e) key) w) of
        (err, kb, w1) \<Rightarrow>
          (c\<lparr>keyboard := kb, activeKeys := put (activeKeys c) (Sprintf_d (touch_ID e)) True\<rparr>,
           w1, []))"
  using assms by (simp add: HandleTouch_def verbose_print_def Let_def split: prod.splits)

lemma HandleTouch_end:
  assumes "touch_Type e = ''end''" and "getKeyForZone c (touch_Zone e) False = key" and "key \<noteq> []"
  shows "HandleTouch c e w =
     (case Release (keyboard c) key (verbose_print c (TouchReleaseLine (touch_Zone e) key) w) of
        (err, kb, w1) \<Rightarrow>
          (c\<lparr>keyboard := kb,
             activeKeys := AList.delete (Sprintf_d (touch_ID e)) (activeKeys c)\<rparr>,
           w1, []))"
  using assms by (simp add: HandleTouch_def verbose_print_def Let_def split: prod.splits)

lemma HandleTouch_no_key:
  assumes "touch_Type e = ''start'' \<or> touch_Type e = ''end''"
    and "getKeyForZone c (touch_Zone e) False = []"
  shows "HandleTouch c e w = (c, w, [])"
  using assms by (auto simp: HandleTouch_def)

lemma HandleTouch_other:
  assumes "touch_Type e \<noteq> ''start''" and "touch_Type e \<noteq> ''end''" and "touch_Type e \<noteq> ''slide''"
  shows "HandleTouch c e w = (c, w, [])"
  using assms by (simp add: HandleTouch_def)

lemma HandleTouch_slide:
  assumes "slides g e" and "\<not> sliderState g c"
  shows "HandleTouch c e w =
     (case Press (keyboard c) (SliderKey g (config c))
             (verbose_print c (SlideLine g (touch_VX e)) w) of
        (err, kb, w1) \<Rightarrow> (set_sliderState g True (c\<lparr>keyboard := kb\<rparr>), w1, [g]))"
proof (cases g)
  case AutoReleaseRight
  with assms show ?thesis
    using HandleTouch_slide_right [of e c w] by (simp split: prod.splits)
next
  case AutoReleaseLeft
  with assms show ?thesis
    using HandleTouch_slide_left [of e c w] by (simp split: prod.splits)
qed

lemma HandleTouch_slide_active:
  assumes "slides g e" and "sliderState g c"
  shows "HandleTouch c e w = (c, w, [])"
  using assms HandleTouch_slide_right_active [of e c w] HandleTouch_slide_left_active [of e c w]
  by (cases g) simp_all

lemma autoRelease_eq:
  "autoRelease g c w =
     (case Release (keyboard c) (SliderKey g (config c)) w of
        (err, kb, w1) \<Rightarrow> (set_sliderState g False (c\<lparr>keyboard := kb\<rparr>), w1))"
  by (cases g) (simp_all split: prod.splits)

text \<open>What one call of \<open>HandleTouch\<close> prints does not depend on the world.\<close>

lemma stdout_of_call:
  "stdout (fst (snd (case p of (err, kb, w1) \<Rightarrow> (F kb, w1, gs)))) = stdout (snd (snd p))"
  by (cases p) simp

lemma HandleTouch_prints:
  "\<exists>ls. length ls \<le> 1 \<and> (\<not> Verbose (config c) \<longrightarrow> ls = []) \<and>
     (\<forall>w. stdout (fst (snd (HandleTouch c e w))) = stdout w @ ls)"
proof -
  let ?key = "getKeyForZone c (touch_Zone e) False"
  consider
      (start) "touch_Type e = ''start''" "?key \<noteq> []"
    | (finish) "touch_Type e = ''end''" "?key \<noteq> []"
    | (no_key) "touch_Type e = ''start'' \<or> touch_Type e = ''end''" "?key = []"
    | (slide) g where "slides g e" "\<not> sliderState g c"
    | (active) g where "slides g e" "sliderState g c"
    | (below) "touch_Type e = ''slide''" "- threshold \<le> touch_VX e" "touch_VX e \<le> threshold"
    | (other) "touch_Type e \<noteq> ''start''" "touch_Type e \<noteq> ''end''" "touch_Type e \<noteq> ''slide''"
  proof -
    have "slides AutoReleaseRight e \<or> slides AutoReleaseLeft e \<or>
          (- threshold \<le> touch_VX e \<and> touch_VX e \<le> threshold)" if "touch_Type e = ''slide''"
      using that by auto
    then show ?thesis
      using start finish no_key slide active below other by blast
  qed
  then show ?thesis
  proof cases
    case start
    let ?ls = "if Verbose (config c) then [TouchPressLine (touch_Zone e) ?key] else []"
    have "\<forall>w. stdout (fst (snd (HandleTouch c e w))) = stdout w @ ?ls"
      by (simp only: HandleTouch_start [OF start(1) refl start(2)] stdout_of_call Press_stdout
          verbose_print_stdout) simp
    then show ?thesis
      by (intro exI [of _ ?ls]) simp
  next
    case finish
    let ?ls = "if Verbose (config c) then [TouchReleaseLine (touch_Zone e) ?key] else []"
    have "\<forall>w. stdout (fst (snd (HandleTouch c e w))) = stdout w @ ?ls"
      by (simp only: HandleTouch_end [OF finish(1) refl finish(2)] stdout_of_call Release_stdout
          verbose_print_stdout) simp
    then show ?thesis
      by (intro exI [of _ ?ls]) simp
  next
    case (slide g)
    let ?ls = "if Verbose (config c) then [SlideLine g (touch_VX e)] else []"
    have "\<forall>w. stdout (fst (snd (HandleTouch c e w))) = stdout w @ ?ls"
      by (simp only: HandleTouch_slide [OF slide] stdout_of_call Press_stdout
          verbose_print_stdout) simp
    then show ?thesis
      by (intro exI [of _ ?ls]) simp
  next
    case no_key
    then show ?thesis
      by (intro exI [of _ "[]"]) (simp add: HandleTouch_no_key)
  next
    case (active g)
    then show ?thesis
      by (intro exI [of _ "[]"]) (simp add: HandleTouch_slide_active)
  next
    case below
    then show ?thesis
      by (intro exI [of _ "[]"]) (simp add: HandleTouch_slide_below)
  next
    case other
    then show ?thesis
      by (intro exI [of _ "[]"]) (simp add: HandleTouch_other)
  qed
qed

lemma Sprintf_d_7: "Sprintf_d 7 = ''7''"
  by code_simp

lemma release_W_fails:
  "UInputBackend_Release uinput1 ''W'' world1_write_fails =
     (Some Errno, uinput1, world1_write_fails\<lparr>clock := [\<lparr>Sec = 2, Usec = 5\<rparr>], write_fail := []\<rparr>)"
  by (simp add: UInputBackend_Release_def uinput0_def uinput1_def world0_def world1_def
      world1_write_fails_def get_def linuxKeyCodes_W sendEvent_def Gettimeofday_def
      syscall_Write_def)

lemma press_E_fails:
  "UInputBackend_Press uinput0 ''E'' world0_write_fails =
     (Some Errno, uinput0,
      world0_write_fails
        \<lparr>clock := [\<lparr>Sec = 1, Usec = 3\<rparr>, \<lparr>Sec = 2, Usec = 0\<rparr>, \<lparr>Sec = 2, Usec = 5\<rparr>],
         write_fail := []\<rparr>)"
  by (simp add: UInputBackend_Press_def uinput0_def world0_def world0_write_fails_def get_def
      linuxKeyCodes_E sendEvent_def Gettimeofday_def syscall_Write_def)

lemma release_E_fails:
  "UInputBackend_Release (uinput0\<lparr>keyState := [(''E'', True)]\<rparr>) ''E'' world0_write_fails =
     (Some Errno, uinput0\<lparr>keyState := [(''E'', True)]\<rparr>,
      world0_write_fails
        \<lparr>clock := [\<lparr>Sec = 1, Usec = 3\<rparr>, \<lparr>Sec = 2, Usec = 0\<rparr>, \<lparr>Sec = 2, Usec = 5\<rparr>],
         write_fail := []\<rparr>)"
  by (simp add: UInputBackend_Release_def uinput0_def world0_def world0_write_fails_def get_def
      linuxKeyCodes_E sendEvent_def Gettimeofday_def syscall_Write_def)

lemma controller_unknown_fields:
  "keyboard controller_unknown = UInput uinput0"
  "getKeyForZone controller_unknown ''triangle'' False = ''ZZZ''"
  "\<not> Verbose (config controller_unknown)" "activeKeys controller_unknown = []"
  by (simp_all add: controller_unknown_def NewController_def config0_def getKeyForZone_def)

lemma touch_triangle_fields:
  "touch_Type (touch_triangle ty) = ty" "touch_Zone (touch_triangle ty) = ''triangle''"
  "touch_ID (touch_triangle ty) = 7"
  by (simp_all add: touch_triangle_def)

lemma press_ZZZ_fails:
  "Press (keyboard controller_unknown) ''ZZZ'' world0 =
     (Some (UnknownKey ''ZZZ''), UInput uinput0, world0)"
  by (simp add: controller_unknown_fields UInputBackend_Press_unknown linuxKeyCodes_ZZZ
      uinput0_def get_def)

subsection \<open>C9: a failure of the backend inside HandleTouch\<close>

text \<open>
  Claim C9 fails as it is stated, in its last part: a failure of \<open>Press\<close> or \<open>Release\<close>
  is not logged. \<open>HandleTouch\<close> drops the result of the call. With the triangle zone
  bound to a key that is not in the table, the press of a touch fails with \<open>UnknownKey\<close>,
  \<open>HandleTouch\<close> records the touch as active and leaves the whole world, its output
  included, as it was.
\<close>

theorem handle_touch_failure_counterexample:
  "Press (keyboard controller_unknown) ''ZZZ'' world0 =
     (Some (UnknownKey ''ZZZ''), UInput uinput0, world0) \<and>
   HandleTouch controller_unknown (touch_triangle ''start'') world0 =
     (controller_unknown\<lparr>activeKeys := [(''7'', True)]\<rparr>, world0, []) \<and>
   stdout (fst (snd (HandleTouch controller_unknown (touch_triangle ''start'') world0))) =
     stdout world0"
proof -
  have h: "HandleTouch controller_unknown (touch_triangle ''start'') world0 =
     (case Press (keyboard controller_unknown) ''ZZZ''
             (verbose_print controller_unknown (TouchPressLine ''triangle'' ''ZZZ'') world0) of
        (err, kb, w1) \<Rightarrow>
          (controller_unknown\<lparr>keyboard := kb,
             activeKeys := put (activeKeys controller_unknown) (Sprintf_d 7) True\<rparr>, w1, []))"
    using HandleTouch_start [of "touch_triangle ''start''" controller_unknown "''ZZZ''" world0]
    by (simp add: touch_triangle_fields controller_unknown_fields(2))
  have v: "verbose_print controller_unknown l world0 = world0" for l
    by (simp add: verbose_print_def controller_unknown_fields)
  have k: "controller_unknown\<lparr>keyboard := UInput uinput0\<rparr> = controller_unknown"
    by (simp add: controller_unknown_def NewController_def)
  have "HandleTouch controller_unknown (touch_triangle ''start'') world0 =
     (controller_unknown\<lparr>activeKeys := [(''7'', True)]\<rparr>, world0, [])"
    unfolding h v press_ZZZ_fails
    by (simp add: controller_unknown_fields(4) Sprintf_d_7 put_def k)
  with press_ZZZ_fails show ?thesis
    by simp
qed

text \<open>
  Claim C9, amended. A failure of \<open>Press\<close> or \<open>Release\<close> inside \<open>HandleTouch\<close> (and
  inside the auto-release it starts) is not propagated: whatever the call returns as
  its error, \<open>HandleTouch\<close> completes with the same state as for a call that succeeds
  (the touch recorded or forgotten, the slider flag set or cleared, the auto-release
  started) and the process goes on. The failure is dropped, not logged: what
  \<open>HandleTouch\<close> prints is at most its one line of the verbose mode, nothing when the
  verbose mode is off, and the same in every world, whether the call fails or not; the
  auto-release prints nothing.
\<close>

theorem handle_touch_drops_errors:
  "(touch_Type e = ''start'' \<and> getKeyForZone c (touch_Zone e) False = key \<and> key \<noteq> [] \<and>
    Press (keyboard c) key (verbose_print c (TouchPressLine (touch_Zone e) key) w) = (err, kb, w1) \<longrightarrow>
      HandleTouch c e w =
        (c\<lparr>keyboard := kb, activeKeys := put (activeKeys c) (Sprintf_d (touch_ID e)) True\<rparr>,
         w1, [])) \<and>
   (touch_Type e = ''end'' \<and> getKeyForZone c (touch_Zone e) False = key \<and> key \<noteq> [] \<and>
    Release (keyboard c) key (verbose_print c (TouchReleaseLine (touch_Zone e) key) w) = (err, kb, w1) \<longrightarrow>
      HandleTouch c e w =
        (c\<lparr>keyboard := kb, activeKeys := AList.delete (Sprintf_d (touch_ID e)) (activeKeys c)\<rparr>,
         w1, [])) \<and>
   (slides g e \<and> \<not> sliderState g c \<and>
    Press (keyboard c) (SliderKey g (config c)) (verbose_print c (SlideLine g (touch_VX e)) w) =
      (err, kb, w1) \<longrightarrow>
      HandleTouch c e w = (set_sliderState g True (c\<lparr>keyboard := kb\<rparr>), w1, [g])) \<and>
   (Release (keyboard c) (SliderKey g (config c)) w = (err, kb, w1) \<longrightarrow>
      autoRelease g c w = (set_sliderState g False (c\<lparr>keyboard := kb\<rparr>), w1)) \<and>
   (\<exists>ls. length ls \<le> 1 \<and> (\<not> Verbose (config c) \<longrightarrow> ls = []) \<and>
      (\<forall>w'. stdout (fst (snd (HandleTouch c e w'))) = stdout w' @ ls)) \<and>
   (\<forall>w'. stdout (snd (autoRelease g c w')) = stdout w')"
proof (intro conjI impI allI)
  show "\<exists>ls. length ls \<le> 1 \<and> (\<not> Verbose (config c) \<longrightarrow> ls = []) \<and>
      (\<forall>w'. stdout (fst (snd (HandleTouch c e w'))) = stdout w' @ ls)"
    by (rule HandleTouch_prints)
next
  fix w'
  have "stdout (snd (case p of (err, kb, w1) \<Rightarrow> (F kb, w1))) = stdout (snd (snd p))"
    for p :: "error option \<times> KeyboardBackend \<times> world" and F :: "KeyboardBackend \<Rightarrow> Controller"
    by (cases p) simp
  then show "stdout (snd (autoRelease g c w')) = stdout w'"
    by (simp only: autoRelease_eq Release_stdout)
next
  assume "slides g e \<and> \<not> sliderState g c \<and>
    Press (keyboard c) (SliderKey g (config c)) (verbose_print c (SlideLine g (touch_VX e)) w) =
      (err, kb, w1)"
  then show "HandleTouch c e w = (set_sliderState g True (c\<lparr>keyboard := kb\<rparr>), w1, [g])"
    using HandleTouch_slide [of g e c w] by simp
qed (simp_all add: HandleTouch_start HandleTouch_end autoRelease_eq)

theorem handle_touch_drops_errors_witness:
  "(touch_Type (touch_triangle ''start'') = ''start'' \<and>
    getKeyForZone controller_unknown (touch_Zone (touch_triangle ''start'')) False = ''ZZZ'' \<and>
    Press (keyboard controller_unknown) ''ZZZ'' world0 =
      (Some (UnknownKey ''ZZZ''), UInput uinput0, world0) \<and>
    HandleTouch controller_unknown (touch_triangle ''start'') world0 =
      (controller_unknown\<lparr>keyboard := UInput uinput0, activeKeys := [(''7'', True)]\<rparr>, world0, []) \<and>
    stdout (fst (snd (HandleTouch controller_unknown (touch_triangle ''start'') world0))) =
      stdout world0) \<and>
   (touch_Type (touch_triangle ''end'') = ''end'' \<and>
    getKeyForZone (controller0\<lparr>keyboard := UInput uinput1\<rparr>)
      (touch_Zone (touch_triangle ''end'')) False = ''W'' \<and>
    Release (UInput uinput1) ''W'' world1_write_fails =
      (Some Errno, UInput uinput1,
       world1_write_fails\<lparr>clock := [\<lparr>Sec = 2, Usec = 5\<rparr>], write_fail := []\<rparr>) \<and>
    HandleTouch (controller0\<lparr>keyboard := UInput uinput1\<rparr>) (touch_triangle ''end'')
      world1_write_fails =
      (controller0\<lparr>keyboard := UInput uinput1, activeKeys := []\<rparr>,
       world1_write_fails\<lparr>clock := [\<lparr>Sec = 2, Usec = 5\<rparr>], write_fail := []\<rparr>, [])) \<and>
   (slides AutoReleaseRight (slide_event 0.6) \<and> \<not> sliderState AutoReleaseRight controller0 \<and>
    fst (Press (UInput uinput0) ''E'' world0_write_fails) = Some Errno \<and>
    HandleTouch controller0 (slide_event 0.6) world0_write_fails =
      (controller0\<lparr>keyboard := UInput uinput0, sliderState_right := True\<rparr>,
       world0_write_fails
         \<lparr>clock := [\<lparr>Sec = 1, Usec = 3\<rparr>, \<lparr>Sec = 2, Usec = 0\<rparr>, \<lparr>Sec = 2, Usec = 5\<rparr>],
          write_fail := []\<rparr>,
       [AutoReleaseRight])) \<and>
   (fst (Release (UInput (uinput0\<lparr>keyState := [(''E'', True)]\<rparr>)) ''E'' world0_write_fails) =
      Some Errno \<and>
    autoRelease AutoReleaseRight
      (controller0\<lparr>keyboard := UInput (uinput0\<lparr>keyState := [(''E'', True)]\<rparr>),
                   sliderState_right := True\<rparr>) world0_write_fails =
      (controller0\<lparr>keyboard := UInput (uinput0\<lparr>keyState := [(''E'', True)]\<rparr>),
                   sliderState_right := False\<rparr>,
       world0_write_fails
         \<lparr>clock := [\<lparr>Sec = 1, Usec = 3\<rparr>, \<lparr>Sec = 2, Usec = 0\<rparr>, \<lparr>Sec = 2, Usec = 5\<rparr>],
          write_fail := []\<rparr>))"
proof -
  have v: "verbose_print controller_unknown l w = w"
    "verbose_print (controller0\<lparr>keyboard := kb\<rparr>) l w = w"
    "verbose_print controller0 l w = w" for l w kb
    by (simp_all add: verbose_print_def controller_unknown_fields controller0_fields)
  have k: "getKeyForZone (controller0\<lparr>keyboard := UInput uinput1\<rparr>) ''triangle'' False = ''W''"
    by (simp add: getKeyForZone_def controller0_def NewController_def config0_def)
  have a: "activeKeys controller0 = []"
    by (simp add: controller0_def NewController_def)
  have s: "slides AutoReleaseRight (slide_event 0.6)"
    by (simp add: slide_event_def threshold_def)
  let ?w1 = "world1_write_fails\<lparr>clock := [\<lparr>Sec = 2, Usec = 5\<rparr>], write_fail := []\<rparr>"
  let ?w0 = "world0_write_fails
         \<lparr>clock := [\<lparr>Sec = 1, Usec = 3\<rparr>, \<lparr>Sec = 2, Usec = 0\<rparr>, \<lparr>Sec = 2, Usec = 5\<rparr>],
          write_fail := []\<rparr>"
  let ?uE = "uinput0\<lparr>keyState := [(''E'', True)]\<rparr>"
  have r1: "Press (keyboard controller_unknown) ''ZZZ'' world0 =
      (Some (UnknownKey ''ZZZ''), UInput uinput0, world0)"
    by (rule press_ZZZ_fails)
  have r2: "Release (UInput uinput1) ''W'' world1_write_fails = (Some Errno, UInput uinput1, ?w1)"
    by (simp add: release_W_fails)
  have r3: "Press (UInput uinput0) ''E'' world0_write_fails = (Some Errno, UInput uinput0, ?w0)"
    by (simp add: press_E_fails)
  have r4: "Release (UInput ?uE) ''E'' world0_write_fails = (Some Errno, UInput ?uE, ?w0)"
    by (simp add: release_E_fails)
  have p1: "HandleTouch controller_unknown (touch_triangle ''start'') world0 =
      (controller_unknown\<lparr>keyboard := UInput uinput0,
         activeKeys := put (activeKeys controller_unknown)
           (Sprintf_d (touch_ID (touch_triangle ''start''))) True\<rparr>, world0, [])"
    by (rule handle_touch_drops_errors [where key = "''ZZZ''" and w = world0
          and err = "Some (UnknownKey ''ZZZ'')", THEN conjunct1, THEN mp])
       (simp add: touch_triangle_fields controller_unknown_fields(2) v r1 del: Press.simps)
  have p2: "HandleTouch (controller0\<lparr>keyboard := UInput uinput1\<rparr>) (touch_triangle ''end'')
      world1_write_fails =
      (controller0\<lparr>keyboard := UInput uinput1, keyboard := UInput uinput1,
         activeKeys := AList.delete (Sprintf_d (touch_ID (touch_triangle ''end'')))
           (activeKeys (controller0\<lparr>keyboard := UInput uinput1\<rparr>))\<rparr>, ?w1, [])"
    by (rule handle_touch_drops_errors [where key = "''W''" and w = world1_write_fails
          and err = "Some Errno", THEN conjunct2, THEN conjunct1, THEN mp])
       (simp add: touch_triangle_fields k v r2 del: Release.simps)
  have p3: "HandleTouch controller0 (slide_event 0.6) world0_write_fails =
      (set_sliderState AutoReleaseRight True (controller0\<lparr>keyboard := UInput uinput0\<rparr>), ?w0,
       [AutoReleaseRight])"
    by (rule handle_touch_drops_errors [where w = world0_write_fails and err = "Some Errno",
          THEN conjunct2, THEN conjunct2, THEN conjunct1, THEN mp])
       (use s in \<open>simp add: controller0_fields v r3 del: Press.simps slides.simps\<close>)
  have p4: "autoRelease AutoReleaseRight
      (controller0\<lparr>keyboard := UInput ?uE, sliderState_right := True\<rparr>) world0_write_fails =
      (set_sliderState AutoReleaseRight False
         (controller0\<lparr>keyboard := UInput ?uE, sliderState_right := True, keyboard := UInput ?uE\<rparr>),
       ?w0)"
    by (rule handle_touch_drops_errors [where err = "Some Errno" and e = "slide_event 0.6",
          THEN conjunct2, THEN conjunct2, THEN conjunct2, THEN conjunct1, THEN mp])
       (simp add: controller0_fields r4 del: Release.simps)
  have p5: "stdout (fst (snd (HandleTouch controller_unknown (touch_triangle ''start'') world0))) =
      stdout world0"
    using handle_touch_drops_errors [where c = controller_unknown
        and e = "touch_triangle ''start''" and g = AutoReleaseRight,
        THEN conjunct2, THEN conjunct2, THEN conjunct2, THEN conjunct2, THEN conjunct1]
    by (auto simp: controller_unknown_fields)
  show ?thesis
    using p1 p2 p3 p4 p5 r1 r2 r3 r4 s
    by (simp add: touch_triangle_fields controller_unknown_fields controller0_fields k a
        Sprintf_d_7 put_def del: Press.simps Release.simps slides.simps)
qed

subsection \<open>Runs of the process\<close>

lemma set_sliderState_fields:
  "config (set_sliderState g b c) = config c"
  "keyboard (set_sliderState g b c) = keyboard c"
  "sliderState g (set_sliderState g b c) = b"
  "set_sliderState g b (c\<lparr>keyboard := kb\<rparr>) = (set_sliderState g b c)\<lparr>keyboard := kb\<rparr>"
  "set_sliderState g b (set_sliderState g b' c) = set_sliderState g b c"
  "sliderState g (c\<lparr>keyboard := kb\<rparr>) = sliderState g c"
  by (cases g; simp)+

lemma step_slide:
  assumes "slides g e" and "\<not> sliderState g (controller p)" and "now p \<le> t"
    and "Press (keyboard (controller p)) (SliderKey g (config (controller p)))
           (verbose_print (controller p) (SlideLine g (touch_VX e)) (os p)) = (err, kb, w1)"
  shows "step p (t, Touch e) =
     Some (p\<lparr>now := t, controller := set_sliderState g True ((controller p)\<lparr>keyboard := kb\<rparr>),
             os := w1, sleeping := sleeping p @ [(t + delay_ms, g)]\<rparr>)"
  using assms by (simp add: HandleTouch_slide del: slides.simps Press.simps)

lemma step_slide_active:
  assumes "slides g e" and "sliderState g (controller p)" and "now p \<le> t"
  shows "step p (t, Touch e) = Some (p\<lparr>now := t\<rparr>)"
  using assms by (simp add: HandleTouch_slide_active del: slides.simps)

lemma step_wake_last:
  assumes "sleeping p = sl @ [(due, g)]" and "now p \<le> t"
    and "Release (keyboard (controller p)) (SliderKey g (config (controller p))) (os p) = (err, kb, w1)"
  shows "step p (t, Wake (length sl)) =
     (if t < due then None
      else Some (p\<lparr>now := t, controller := set_sliderState g False ((controller p)\<lparr>keyboard := kb\<rparr>),
                   os := w1, sleeping := sl\<rparr>))"
  using assms by (simp add: autoRelease_eq del: Release.simps)

lemma run_append:
  "run p (as @ bs) = (case run p as of None \<Rightarrow> None | Some p1 \<Rightarrow> run p1 bs)"
  by (induction as arbitrary: p) (simp_all split: option.splits)

text \<open>
  A slide to a side whose flag is clear, any number of further slides to that side,
  then the wake-up of the goroutine the first slide has started.
\<close>

lemma run_slides_then_wake:
  assumes s1: "slides g e1" and s2: "slides g e2"
    and clear: "\<not> sliderState g (controller p)"
    and t: "now p \<le> t1" "t1 \<le> t2" "t2 \<le> tw"
  shows "run p [(t1, Touch e1), (t2, Touch e2), (tw, Wake (length (sleeping p)))] =
     (if tw < t1 + delay_ms then None else Some (after_slide g e1 tw p))"
    and "run p [(t1, Touch e1), (tw, Wake (length (sleeping p)))] =
     (if tw < t1 + delay_ms then None else Some (after_slide g e1 tw p))"
proof -
  let ?c = "controller p"
  let ?k = "SliderKey g (config ?c)"
  obtain err1 kb1 w1 where
    press: "Press (keyboard ?c) ?k (verbose_print ?c (SlideLine g (touch_VX e1)) (os p)) = (err1, kb1, w1)"
    by (metis prod_cases3)
  obtain err2 kb2 w2 where release: "Release kb1 ?k w1 = (err2, kb2, w2)"
    by (metis prod_cases3)
  let ?p1 = "p\<lparr>now := t1, controller := set_sliderState g True (?c\<lparr>keyboard := kb1\<rparr>),
               os := w1, sleeping := sleeping p @ [(t1 + delay_ms, g)]\<rparr>"
  have st1: "step p (t1, Touch e1) = Some ?p1"
    using step_slide [OF s1 clear t(1) press] .
  have st2: "step ?p1 (t2, Touch e2) = Some (?p1\<lparr>now := t2\<rparr>)"
    using t(2) by (intro step_slide_active [OF s2]) (simp_all add: set_sliderState_fields)
  let ?p3 = "p\<lparr>now := tw, controller := set_sliderState g False (?c\<lparr>keyboard := kb2\<rparr>), os := w2\<rparr>"
  have wake: "step q (tw, Wake (length (sleeping p))) = (if tw < t1 + delay_ms then None else Some ?p3)"
    if "q = ?p1\<lparr>now := t'\<rparr>" and "t' \<le> tw" for q t'
  proof -
    have "step q (tw, Wake (length (sleeping p))) =
       (if tw < t1 + delay_ms then None
        else Some (q\<lparr>now := tw,
                     controller := set_sliderState g False ((controller q)\<lparr>keyboard := kb2\<rparr>),
                     os := w2, sleeping := sleeping p\<rparr>))"
      using that release
      by (intro step_wake_last) (simp_all add: set_sliderState_fields del: Release.simps)
    then show ?thesis
      using that by (simp add: set_sliderState_fields)
  qed
  have final: "?p3 = after_slide g e1 tw p"
    using press release by (simp add: after_slide_def press_release_def del: Press.simps Release.simps)
  show "run p [(t1, Touch e1), (t2, Touch e2), (tw, Wake (length (sleeping p)))] =
     (if tw < t1 + delay_ms then None else Some (after_slide g e1 tw p))"
    using st1 st2 wake [OF refl t(3)] by (simp add: final del: step.simps)
  have "?p1 = ?p1\<lparr>now := t1\<rparr>"
    by simp
  from wake [OF this] t show "run p [(t1, Touch e1), (tw, Wake (length (sleeping p)))] =
     (if tw < t1 + delay_ms then None else Some (after_slide g e1 tw p))"
    using st1 by (simp add: final del: step.simps)
qed

lemma after_slide_fields:
  "now (after_slide g e t p) = t"
  "sleeping (after_slide g e t p) = sleeping p"
  "\<not> sliderState g (controller (after_slide g e t p))"
  "config (controller (after_slide g e t p)) = config (controller p)"
  by (simp_all add: after_slide_def set_sliderState_fields split: prod.splits)

subsection \<open>C5: the debounce of the slider\<close>

text \<open>
  Claim C5. A slide event to a side whose flag is set does nothing: no press, no
  goroutine started, nothing changed. Therefore, with the flag of the side clear at the
  start: of two slides to the same side at times \<open>t1 \<le> t2\<close> less than 100 ms
  apart, only the first presses the slider key and starts an auto-release, which cannot
  run before \<open>t1 + 100\<close> (a schedule that wakes it earlier is no run); once it has run,
  the process is in the state \<open>after_slide\<close> of one press and one release, and the
  second slide has left no trace. A third slide after that, with its own auto-release,
  gives a second press and release on top of the first.
\<close>

theorem slide_debounce:
  "(slides g e \<and> sliderState g c \<longrightarrow> HandleTouch c e w = (c, w, [])) \<and>
   (slides g e1 \<and> slides g e2 \<and> slides g e3 \<and> \<not> sliderState g (controller p) \<and>
    now p \<le> t1 \<and> t1 \<le> t2 \<and> t2 < t1 + delay_ms \<and> t1 + delay_ms \<le> tw \<and>
    tw \<le> t3 \<and> t3 + delay_ms \<le> tw' \<longrightarrow>
      (\<forall>t. t < t1 + delay_ms \<longrightarrow>
         run p [(t1, Touch e1), (t, Wake (length (sleeping p)))] = None) \<and>
      run p [(t1, Touch e1), (t2, Touch e2), (tw, Wake (length (sleeping p)))] =
        Some (after_slide g e1 tw p) \<and>
      run p [(t1, Touch e1), (t2, Touch e2), (tw, Wake (length (sleeping p))),
             (t3, Touch e3), (tw', Wake (length (sleeping p)))] =
        Some (after_slide g e3 tw' (after_slide g e1 tw p)))"
proof (rule conjI; rule impI)
  assume "slides g e \<and> sliderState g c"
  then show "HandleTouch c e w = (c, w, [])"
    using HandleTouch_slide_active [of g e c w] by blast
next
  assume a: "slides g e1 \<and> slides g e2 \<and> slides g e3 \<and> \<not> sliderState g (controller p) \<and>
    now p \<le> t1 \<and> t1 \<le> t2 \<and> t2 < t1 + delay_ms \<and> t1 + delay_ms \<le> tw \<and>
    tw \<le> t3 \<and> t3 + delay_ms \<le> tw'"
  then have s: "slides g e1" "slides g e2" "slides g e3" and clear: "\<not> sliderState g (controller p)"
    by simp_all
  let ?n = "length (sleeping p)"
  let ?p3 = "after_slide g e1 tw p"
  have early: "run p [(t1, Touch e1), (t, Wake ?n)] = None" if "t < t1 + delay_ms" for t
  proof (cases "t1 \<le> t")
    case True
    with a that show ?thesis
      using run_slides_then_wake(2) [OF s(1) s(1) clear, of t1 t1 t] by simp
  next
    case False
    obtain p1 where "step p (t1, Touch e1) = Some p1" and "now p1 = t1"
      using a by (cases "HandleTouch (controller p) e1 (os p)") auto
    with False show ?thesis
      by (simp del: step.simps) simp
  qed
  have first: "run p [(t1, Touch e1), (t2, Touch e2), (tw, Wake ?n)] = Some ?p3"
    using a run_slides_then_wake(1) [OF s(1) s(2) clear, of t1 t2 tw] by simp
  have "run ?p3 [(t3, Touch e3), (tw', Wake (length (sleeping ?p3)))] =
          Some (after_slide g e3 tw' ?p3)"
    using a run_slides_then_wake(2) [OF s(3) s(3) after_slide_fields(3), of e1 tw p t3 t3 tw']
    by (simp add: after_slide_fields)
  then have second: "run ?p3 [(t3, Touch e3), (tw', Wake ?n)] = Some (after_slide g e3 tw' ?p3)"
    by (simp add: after_slide_fields)
  have "run p ([(t1, Touch e1), (t2, Touch e2), (tw, Wake ?n)] @ [(t3, Touch e3), (tw', Wake ?n)]) =
          Some (after_slide g e3 tw' ?p3)"
    unfolding run_append first using second by simp
  with early first
  show "(\<forall>t. t < t1 + delay_ms \<longrightarrow> run p [(t1, Touch e1), (t, Wake ?n)] = None) \<and>
      run p [(t1, Touch e1), (t2, Touch e2), (tw, Wake ?n)] = Some ?p3 \<and>
      run p [(t1, Touch e1), (t2, Touch e2), (tw, Wake ?n), (t3, Touch e3), (tw', Wake ?n)] =
        Some (after_slide g e3 tw' ?p3)"
    by simp
qed

lemma press_release_E_world8:
  "press_release (UInput uinput0) ''E'' world8 =
     (UInput (uinput0\<lparr>keyState := [(''E'', False)]\<rparr>),
      world8\<lparr>clock := [\<lparr>Sec = 5, Usec = 0\<rparr>, \<lparr>Sec = 6, Usec = 0\<rparr>, \<lparr>Sec = 7, Usec = 0\<rparr>, \<lparr>Sec = 8, Usec = 0\<rparr>],
        written :=
          [(3, encode_inputEvent \<lparr>Time = \<lparr>Sec = 1, Usec = 0\<rparr>, Type = EV_KEY, Code = 18, Value = 1\<rparr>),
           (3, encode_inputEvent \<lparr>Time = \<lparr>Sec = 2, Usec = 0\<rparr>, Type = EV_SYN, Code = SYN_REPORT, Value = 0\<rparr>),
           (3, encode_inputEvent \<lparr>Time = \<lparr>Sec = 3, Usec = 0\<rparr>, Type = EV_KEY, Code = 18, Value = 0\<rparr>),
           (3, encode_inputEvent \<lparr>Time = \<lparr>Sec = 4, Usec = 0\<rparr>, Type = EV_SYN, Code = SYN_REPORT, Value = 0\<rparr>)],
        trace :=
          [Wrote 3 (encode_inputEvent \<lparr>Time = \<lparr>Sec = 1, Usec = 0\<rparr>, Type = EV_KEY, Code = 18, Value = 1\<rparr>),
           Wrote 3 (encode_inputEvent \<lparr>Time = \<lparr>Sec = 2, Usec = 0\<rparr>, Type = EV_SYN, Code = SYN_REPORT, Value = 0\<rparr>),
           Wrote 3 (encode_inputEvent \<lparr>Time = \<lparr>Sec = 3, Usec = 0\<rparr>, Type = EV_KEY, Code = 18, Value = 0\<rparr>),
           Wrote 3 (encode_inputEvent \<lparr>Time = \<lparr>Sec = 4, Usec = 0\<rparr>, Type = EV_SYN, Code = SYN_REPORT, Value = 0\<rparr>)]\<rparr>)"
  by (simp add: press_release_def UInputBackend_Press_def UInputBackend_Release_def uinput0_def
      world8_def world0_def get_def put_def linuxKeyCodes_E sendEvent_def Let_def sync_def
      Gettimeofday_def syscall_Write_def)

lemma press_release_E_again:
  "press_release (UInput (uinput0\<lparr>keyState := [(''E'', False)]\<rparr>)) ''E''
     (world8\<lparr>clock := [\<lparr>Sec = 5, Usec = 0\<rparr>, \<lparr>Sec = 6, Usec = 0\<rparr>, \<lparr>Sec = 7, Usec = 0\<rparr>, \<lparr>Sec = 8, Usec = 0\<rparr>],
             written := recs, trace := tr\<rparr>) =
     (UInput (uinput0\<lparr>keyState := [(''E'', False)]\<rparr>),
      world8\<lparr>clock := [],
        written := recs @
          [(3, encode_inputEvent \<lparr>Time = \<lparr>Sec = 5, Usec = 0\<rparr>, Type = EV_KEY, Code = 18, Value = 1\<rparr>),
           (3, encode_inputEvent \<lparr>Time = \<lparr>Sec = 6, Usec = 0\<rparr>, Type = EV_SYN, Code = SYN_REPORT, Value = 0\<rparr>),
           (3, encode_inputEvent \<lparr>Time = \<lparr>Sec = 7, Usec = 0\<rparr>, Type = EV_KEY, Code = 18, Value = 0\<rparr>),
           (3, encode_inputEvent \<lparr>Time = \<lparr>Sec = 8, Usec = 0\<rparr>, Type = EV_SYN, Code = SYN_REPORT, Value = 0\<rparr>)],
        trace := tr @
          [Wrote 3 (encode_inputEvent \<lparr>Time = \<lparr>Sec = 5, Usec = 0\<rparr>, Type = EV_KEY, Code = 18, Value = 1\<rparr>),
           Wrote 3 (encode_inputEvent \<lparr>Time = \<lparr>Sec = 6, Usec = 0\<rparr>, Type = EV_SYN, Code = SYN_REPORT, Value = 0\<rparr>),
           Wrote 3 (encode_inputEvent \<lparr>Time = \<lparr>Sec = 7, Usec = 0\<rparr>, Type = EV_KEY, Code = 18, Value = 0\<rparr>),
           Wrote 3 (encode_inputEvent \<lparr>Time = \<lparr>Sec = 8, Usec = 0\<rparr>, Type = EV_SYN, Code = SYN_REPORT, Value = 0\<rparr>)]\<rparr>)"
  by (simp add: press_release_def UInputBackend_Press_def UInputBackend_Release_def uinput0_def
      world8_def world0_def get_def put_def linuxKeyCodes_E sendEvent_def Let_def sync_def
      Gettimeofday_def syscall_Write_def)

theorem slide_debounce_witness:
  "slides AutoReleaseRight (slide_event 0.6) \<and> slides AutoReleaseRight (slide_event 0.7) \<and>
   \<not> sliderState AutoReleaseRight (controller process0) \<and>
   run process0 [(0, Touch (slide_event 0.6)), (99, Wake 0)] = None \<and>
   map_option (\<lambda>p. (written (os p), sleeping p))
     (run process0 [(0, Touch (slide_event 0.6)), (50, Touch (slide_event 0.7)), (100, Wake 0)]) =
     Some
       ([(3, encode_inputEvent \<lparr>Time = \<lparr>Sec = 1, Usec = 0\<rparr>, Type = EV_KEY, Code = 18, Value = 1\<rparr>),
         (3, encode_inputEvent \<lparr>Time = \<lparr>Sec = 2, Usec = 0\<rparr>, Type = EV_SYN, Code = SYN_REPORT, Value = 0\<rparr>),
         (3, encode_inputEvent \<lparr>Time = \<lparr>Sec = 3, Usec = 0\<rparr>, Type = EV_KEY, Code = 18, Value = 0\<rparr>),
         (3, encode_inputEvent \<lparr>Time = \<lparr>Sec = 4, Usec = 0\<rparr>, Type = EV_SYN, Code = SYN_REPORT, Value = 0\<rparr>)],
        []) \<and>
   map_option (\<lambda>p. (written (os p), sleeping p))
     (run process0 [(0, Touch (slide_event 0.6)), (50, Touch (slide_event 0.7)), (100, Wake 0),
                    (150, Touch (slide_event 0.7)), (250, Wake 0)]) =
     Some
       ([(3, encode_inputEvent \<lparr>Time = \<lparr>Sec = 1, Usec = 0\<rparr>, Type = EV_KEY, Code = 18, Value = 1\<rparr>),
         (3, encode_inputEvent \<lparr>Time = \<lparr>Sec = 2, Usec = 0\<rparr>, Type = EV_SYN, Code = SYN_REPORT, Value = 0\<rparr>),
         (3, encode_inputEvent \<lparr>Time = \<lparr>Sec = 3, Usec = 0\<rparr>, Type = EV_KEY, Code = 18, Value = 0\<rparr>),
         (3, encode_inputEvent \<lparr>Time = \<lparr>Sec = 4, Usec = 0\<rparr>, Type = EV_SYN, Code = SYN_REPORT, Value = 0\<rparr>),
         (3, encode_inputEvent \<lparr>Time = \<lparr>Sec = 5, Usec = 0\<rparr>, Type = EV_KEY, Code = 18, Value = 1\<rparr>),
         (3, encode_inputEvent \<lparr>Time = \<lparr>Sec = 6, Usec = 0\<rparr>, Type = EV_SYN, Code = SYN_REPORT, Value = 0\<rparr>),
         (3, encode_inputEvent \<lparr>Time = \<lparr>Sec = 7, Usec = 0\<rparr>, Type = EV_KEY, Code = 18, Value = 0\<rparr>),
         (3, encode_inputEvent \<lparr>Time = \<lparr>Sec = 8, Usec = 0\<rparr>, Type = EV_SYN, Code = SYN_REPORT, Value = 0\<rparr>)],
        [])"
proof -
  have s: "slides AutoReleaseRight (slide_event 0.6)" "slides AutoReleaseRight (slide_event 0.7)"
    by (simp_all add: slide_event_def threshold_def)
  have c: "\<not> sliderState AutoReleaseRight (controller process0)"
    by (simp add: process0_def controller0_fields)
  have f: "now process0 = 0" "sleeping process0 = []"
    by (simp_all add: process0_def)
  have t: "(0::nat) \<le> 50" "(50::nat) < 0 + delay_ms" "0 + delay_ms \<le> (100::nat)"
    "(100::nat) \<le> 150" "150 + delay_ms \<le> (250::nat)" "(99::nat) < 0 + delay_ms"
    by (simp_all add: delay_ms_def)
  let ?p1 = "after_slide AutoReleaseRight (slide_event 0.6) 100 process0"
  let ?p2 = "after_slide AutoReleaseRight (slide_event 0.7) 250 ?p1"
  let ?kb = "UInput (uinput0\<lparr>keyState := [(''E'', False)]\<rparr>)"
  have one: "?p1 = process0\<lparr>now := 100, controller := controller0\<lparr>keyboard := ?kb\<rparr>,
                    os := snd (press_release (UInput uinput0) ''E'' world8)\<rparr>"
    by (simp add: after_slide_def process0_def controller0_fields verbose_print_def
        press_release_E_world8 del: Press.simps Release.simps)
  have two: "?p2 = process0\<lparr>now := 250, controller := controller0\<lparr>keyboard := ?kb\<rparr>,
                    os := snd (press_release ?kb ''E''
                            (snd (press_release (UInput uinput0) ''E'' world8)))\<rparr>"
    unfolding one
    by (simp add: after_slide_def process0_def controller0_fields verbose_print_def
        press_release_E_world8 press_release_E_again del: Press.simps Release.simps)
  have h: "slides AutoReleaseRight (slide_event 0.6) \<and> slides AutoReleaseRight (slide_event 0.7) \<and>
    slides AutoReleaseRight (slide_event 0.7) \<and> \<not> sliderState AutoReleaseRight (controller process0) \<and>
    now process0 \<le> 0 \<and> (0::nat) \<le> 50 \<and> (50::nat) < 0 + delay_ms \<and> 0 + delay_ms \<le> (100::nat) \<and>
    (100::nat) \<le> 150 \<and> 150 + delay_ms \<le> (250::nat)"
    using s c t f by blast
  note T = slide_debounce [where g = AutoReleaseRight and ?e1.0 = "slide_event 0.6"
        and ?e2.0 = "slide_event 0.7" and ?e3.0 = "slide_event 0.7" and p = process0
        and ?t1.0 = 0 and ?t2.0 = 50 and tw = 100 and ?t3.0 = 150 and tw' = 250,
        THEN conjunct2, THEN mp, OF h]
  from T t(6) have r0: "run process0 [(0, Touch (slide_event 0.6)), (99, Wake 0)] = None"
    by (simp add: f del: run.simps)
  from T have r1: "run process0 [(0, Touch (slide_event 0.6)), (50, Touch (slide_event 0.7)),
      (100, Wake 0)] = Some ?p1"
    by (simp add: f del: run.simps)
  from T have r2: "run process0 [(0, Touch (slide_event 0.6)), (50, Touch (slide_event 0.7)),
      (100, Wake 0), (150, Touch (slide_event 0.7)), (250, Wake 0)] = Some ?p2"
    by (simp add: f del: run.simps)
  have w1: "written (os ?p1) = written (snd (press_release (UInput uinput0) ''E'' world8))"
    "sleeping ?p1 = []"
    unfolding one by (simp_all add: process0_def)
  have w2: "written (os ?p2) =
      written (snd (press_release ?kb ''E'' (snd (press_release (UInput uinput0) ''E'' world8))))"
    "sleeping ?p2 = []"
    unfolding two by (simp_all add: process0_def)
  show ?thesis
    using s c r0 r1 r2 w1 w2
    by (simp add: press_release_E_world8 press_release_E_again
        del: slides.simps run.simps Press.simps Release.simps)
qed

end
